(* ===== verification/Prelude.thy ===== *)
theory Prelude
  imports Main "HOL-Library.AList"
begin

text \<open>
  Shared vocabulary of the development. Python exceptions raised by the code of
  \<open>src/main.py\<close> and by the library calls it makes (\<open>bytes.decode\<close>,
  \<open>csv.reader\<close>, openpyxl) are values of \<open>py_error\<close>; a computation that may raise is of type
  \<open>'a result\<close>, with \<open>Inl\<close> the exception, and \<open>bindE\<close> sequences such computations
  the way Python statements run one after another until one raises. The subscript
  \<open>row[i]\<close> of a Python list is \<open>py_getitem\<close>, which raises \<open>IndexError\<close> out of range.
  The collection \<open>py_simps\<close> gathers the evaluation rules of the Python primitives;
  \<open>model_eval\<close> gathers the definitions a witness unfolds to run the model on a
  concrete input with \<open>simp\<close>.
\<close>

named_theorems py_simps "evaluation rules of the modelled Python primitives"
named_theorems model_eval "definitions unfolded to evaluate the model on a concrete input"

datatype py_error = IndexError | KeyError | ValueError | UnicodeDecodeError | CsvError
  | IllegalCharacterError

type_synonym 'a result = "py_error + 'a"

definition bindE :: "'a result \<Rightarrow> ('a \<Rightarrow> 'b result) \<Rightarrow> 'b result" where
  "bindE m f = (case m of Inl e \<Rightarrow> Inl e | Inr x \<Rightarrow> f x)"

lemma bindE_Inr [simp]: "bindE (Inr x) f = f x"
  by (simp add: bindE_def)

lemma bindE_Inl [simp]: "bindE (Inl e) f = Inl e"
  by (simp add: bindE_def)

lemma bindE_eq_Inr:
  "bindE m f = Inr y \<longleftrightarrow> (\<exists>x. m = Inr x \<and> f x = Inr y)"
  by (cases m) simp_all

text \<open>The context of a call inside \<open>bindE\<close>, for the termination proofs of loops.\<close>

lemma bindE_cong [fundef_cong]:
  "m = m' \<Longrightarrow> (\<And>x. m' = Inr x \<Longrightarrow> f x = g x) \<Longrightarrow> bindE m f = bindE m' g"
  by (cases m') simp_all

lemma bindE_eq_Inl:
  "bindE m f = Inl e \<longleftrightarrow> m = Inl e \<or> (\<exists>x. m = Inr x \<and> f x = Inl e)"
  by (cases m) simp_all

text \<open>Python list subscription with a non-negative index: \<open>xs[i]\<close>.\<close>

definition py_getitem :: "'a list \<Rightarrow> nat \<Rightarrow> 'a result" where
  "py_getitem xs i = (if i < length xs then Inr (xs ! i) else Inl IndexError)"

lemma py_getitem_in_range [simp, py_simps]:
  "i < length xs \<Longrightarrow> py_getitem xs i = Inr (xs ! i)"
  by (simp add: py_getitem_def)

lemma py_getitem_out_of_range [py_simps]:
  "length xs \<le> i \<Longrightarrow> py_getitem xs i = Inl IndexError"
  by (simp add: py_getitem_def)

text \<open>Keys of an association list, in order.\<close>

abbreviation keys :: "('k \<times> 'v) list \<Rightarrow> 'k list" where
  "keys al \<equiv> map fst al"

text \<open>The elements of a list in order of first occurrence, each once.\<close>

fun remdups_first :: "'a list \<Rightarrow> 'a list" where
  "remdups_first [] = []"
| "remdups_first (x # xs) = x # remdups_first (filter (\<lambda>y. y \<noteq> x) xs)"

lemma set_remdups_first [simp]: "set (remdups_first xs) = set xs"
  by (induction xs rule: remdups_first.induct) auto

lemma distinct_remdups_first [simp]: "distinct (remdups_first xs)"
  by (induction xs rule: remdups_first.induct) auto

lemma remdups_first_eq_Nil [simp]: "remdups_first xs = [] \<longleftrightarrow> xs = []"
  by (cases xs) simp_all

lemma remdups_first_filter:
  "remdups_first (filter P xs) = filter P (remdups_first xs)"
proof (induction xs arbitrary: P rule: remdups_first.induct)
  case 1
  then show ?case by simp
next
  case (2 x xs)
  show ?case
  proof (cases "P x")
    case True
    with "2.IH" show ?thesis by (simp add: filter_filter conj_commute)
  next
    case False
    then have "filter P xs = filter (\<lambda>y. y \<noteq> x \<and> P y) xs"
      by (auto intro: filter_cong)
    with False "2.IH" show ?thesis by simp
  qed
qed

lemma remdups_first_snoc:
  "remdups_first (xs @ [x]) =
     (if x \<in> set xs then remdups_first xs else remdups_first xs @ [x])"
  by (induction xs rule: remdups_first.induct) (auto simp: remdups_first_filter)

lemma remdups_first_append:
  "remdups_first (xs @ ys) = remdups_first xs @ remdups_first (filter (\<lambda>y. y \<notin> set xs) ys)"
proof (induction xs arbitrary: ys rule: remdups_first.induct)
  case 1
  then show ?case by simp
next
  case (2 x xs)
  have "filter (\<lambda>y. y \<notin> set (filter (\<lambda>y. y \<noteq> x) xs)) (filter (\<lambda>y. y \<noteq> x) ys) =
        filter (\<lambda>y. y \<notin> set (x # xs)) ys"
    by (auto simp: filter_filter intro: filter_cong)
  with "2.IH" [of "filter (\<lambda>y. y \<noteq> x) ys"] show ?case by simp
qed

lemma remdups_first_id: "distinct xs \<Longrightarrow> remdups_first xs = xs"
  by (induction xs rule: remdups_first.induct) (auto simp: filter_id_conv)

end
