(* ===== verification/PyDict.thy ===== *)
theory PyDict
  imports Prelude
begin

text \<open>
  A Python \<open>dict\<close> keeps its keys in insertion order; it is modelled as an
  association list with distinct keys (\<open>dict_inv\<close>). The three operations
  \<open>src/main.py\<close> uses: \<open>d[k]\<close> (\<open>dict_getitem\<close>, raising \<open>KeyError\<close> for a
  missing key), \<open>d[k] = v\<close> (\<open>dict_setitem\<close>, which replaces the value in place
  or appends a new key at the end) and \<open>d.setdefault(k, v)\<close>
  (\<open>dict_setdefault\<close>, which appends \<open>k\<close> with \<open>v\<close> only when \<open>k\<close> is absent).
  Iterating \<open>d.items()\<close> is the list itself.
\<close>

type_synonym ('k, 'v) dict = "('k \<times> 'v) list"

definition dict_inv :: "('k, 'v) dict \<Rightarrow> bool" where
  "dict_inv d \<longleftrightarrow> distinct (keys d)"

definition dict_getitem :: "('k, 'v) dict \<Rightarrow> 'k \<Rightarrow> 'v result" where
  "dict_getitem d k = (case map_of d k of Some v \<Rightarrow> Inr v | None \<Rightarrow> Inl KeyError)"

definition dict_setitem :: "('k, 'v) dict \<Rightarrow> 'k \<Rightarrow> 'v \<Rightarrow> ('k, 'v) dict" where
  "dict_setitem d k v = AList.update k v d"

definition dict_setdefault :: "('k, 'v) dict \<Rightarrow> 'k \<Rightarrow> 'v \<Rightarrow> ('k, 'v) dict" where
  "dict_setdefault d k v = (if k \<in> set (keys d) then d else d @ [(k, v)])"

declare dict_getitem_def [model_eval] dict_setitem_def [model_eval] dict_setdefault_def [model_eval]

subsection \<open>Lemmas\<close>

lemma dict_getitem_Inr_iff: "dict_getitem d k = Inr v \<longleftrightarrow> map_of d k = Some v"
  by (simp add: dict_getitem_def split: option.split)

lemma map_of_present: "k \<in> set (keys d) \<Longrightarrow> \<exists>v. map_of d k = Some v"
  by (metis map_of_eq_None_iff not_None_eq set_map)

lemma dict_getitem_present:
  "k \<in> set (keys d) \<Longrightarrow> \<exists>v. dict_getitem d k = Inr v"
proof -
  assume "k \<in> set (keys d)"
  then obtain v where "map_of d k = Some v"
    by (blast dest: map_of_present)
  then show ?thesis by (simp add: dict_getitem_def)
qed

lemma dict_getitem_missing: "k \<notin> set (keys d) \<Longrightarrow> dict_getitem d k = Inl KeyError"
proof -
  assume "k \<notin> set (keys d)"
  then have "map_of d k = None" by (simp add: map_of_eq_None_iff)
  then show ?thesis by (simp add: dict_getitem_def)
qed

lemma keys_dict_setitem:
  "keys (dict_setitem d k v) = (if k \<in> set (keys d) then keys d else keys d @ [k])"
  by (simp add: dict_setitem_def update_keys)

lemma keys_dict_setitem_present [simp]:
  "k \<in> set (keys d) \<Longrightarrow> keys (dict_setitem d k v) = keys d"
  by (simp add: keys_dict_setitem)

lemma map_of_dict_setitem [simp]: "map_of (dict_setitem d k v) = (map_of d)(k \<mapsto> v)"
  by (simp add: dict_setitem_def update_conv')

lemma keys_dict_setdefault [simp]:
  "keys (dict_setdefault d k v) = (if k \<in> set (keys d) then keys d else keys d @ [k])"
  by (simp add: dict_setdefault_def)

lemma map_of_dict_setdefault:
  "map_of (dict_setdefault d k v) =
     (if k \<in> set (keys d) then map_of d else (map_of d)(k \<mapsto> v))"
proof (cases "k \<in> set (keys d)")
  case False
  then have "map_of d k = None" by (simp add: map_of_eq_None_iff)
  with False show ?thesis
    by (auto simp: dict_setdefault_def fun_eq_iff map_add_def split: option.split)
qed (simp add: dict_setdefault_def)

lemma dict_inv_setitem: "dict_inv d \<Longrightarrow> dict_inv (dict_setitem d k v)"
  by (simp add: dict_inv_def dict_setitem_def distinct_update)

lemma dict_inv_setdefault: "dict_inv d \<Longrightarrow> dict_inv (dict_setdefault d k v)"
  by (simp add: dict_inv_def)

lemma dict_getitem_setitem: "dict_getitem (dict_setitem d k v) k = Inr v"
  by (simp add: dict_getitem_def)

lemma dict_getitem_setdefault_new:
  "k \<notin> set (keys d) \<Longrightarrow> dict_getitem (dict_setdefault d k v) k = Inr v"
  by (simp add: dict_getitem_def map_of_dict_setdefault)

text \<open>A dict is determined by its keys in order and its lookup.\<close>

lemma dict_eq_map_of: "dict_inv d \<Longrightarrow> map (\<lambda>k. (k, the (map_of d k))) (keys d) = d"
proof (induction d)
  case Nil
  then show ?case by simp
next
  case (Cons p d)
  obtain a b where p: "p = (a, b)" by (cases p)
  with Cons.prems have inv: "dict_inv d" and a: "a \<notin> set (keys d)"
    by (simp_all add: dict_inv_def)
  have "map (\<lambda>k. (k, the (map_of ((a, b) # d) k))) (keys ((a, b) # d)) =
      (a, b) # map (\<lambda>k. (k, the (map_of ((a, b) # d) k))) (keys d)"
    by simp
  also have "map (\<lambda>k. (k, the (map_of ((a, b) # d) k))) (keys d) =
      map (\<lambda>k. (k, the (map_of d k))) (keys d)"
  proof (rule map_cong)
    fix k assume "k \<in> set (keys d)"
    with a have "k \<noteq> a" by blast
    then show "(k, the (map_of ((a, b) # d) k)) = (k, the (map_of d k))" by simp
  qed simp
  also have "\<dots> = d" by (rule Cons.IH [OF inv])
  finally show ?case using p by simp
qed

lemmas dict_simps = dict_getitem_setitem keys_dict_setitem map_of_dict_setitem
  map_of_dict_setdefault dict_inv_setitem dict_inv_setdefault

end
