(* ===== verification/PyStr.thy ===== *)
theory PyStr
  imports Prelude
begin

text \<open>
  The methods of Python's \<open>str\<close> that \<open>src/main.py\<close> calls. A Python string is a
  sequence of code points; it is modelled as an Isabelle \<open>string\<close> whose characters
  stand for the code points U+0000 to U+00FF (ASCII and Latin-1), the range in which
  an Isabelle \<open>char\<close> and a code point coincide. The character classes below are
  those of Python's Unicode database restricted to that range:
  \<^item> \<open>py_isspace\<close>: \<open>str.isspace\<close>, the characters \<open>str.strip()\<close> removes:
    U+0009..U+000D, U+001C..U+0020, U+0085, U+00A0;
  \<^item> \<open>py_isdecimal\<close>: the decimal digits \<open>0\<close>..\<open>9\<close> (what \<open>int()\<close> and the
    regular expression class \<open>\d\<close> accept);
  \<^item> \<open>py_isdigit\<close>: \<open>str.isdigit\<close>, the decimal digits and the superscripts
    U+00B2, U+00B3, U+00B9, which are digits but not decimal;
  \<^item> \<open>py_lower\<close>: \<open>str.lower\<close> on U+0041..U+005A and U+00C0..U+00DE except U+00D7.
\<close>

definition py_isspace :: "char \<Rightarrow> bool" where
  "py_isspace c \<longleftrightarrow>
     (let n = of_char c :: nat in
      (9 \<le> n \<and> n \<le> 13) \<or> (28 \<le> n \<and> n \<le> 32) \<or> n = 133 \<or> n = 160)"

definition py_isdecimal :: "char \<Rightarrow> bool" where
  "py_isdecimal c \<longleftrightarrow> (let n = of_char c :: nat in 48 \<le> n \<and> n \<le> 57)"

definition py_isdigit :: "char \<Rightarrow> bool" where
  "py_isdigit c \<longleftrightarrow>
     py_isdecimal c \<or> (let n = of_char c :: nat in n = 178 \<or> n = 179 \<or> n = 185)"

definition digit_value :: "char \<Rightarrow> nat" where
  "digit_value c = of_char c - 48"

text \<open>The value of a string of decimal digits, most significant first.\<close>

definition decimal_value :: "string \<Rightarrow> nat" where
  "decimal_value s = foldl (\<lambda>a c. 10 * a + digit_value c) 0 s"

definition py_lower_char :: "char \<Rightarrow> char" where
  "py_lower_char c =
     (let n = of_char c :: nat in
      if (65 \<le> n \<and> n \<le> 90) \<or> (192 \<le> n \<and> n \<le> 222 \<and> n \<noteq> 215)
      then char_of (n + 32) else c)"

definition py_lower :: "string \<Rightarrow> string" where
  "py_lower s = map py_lower_char s"

subsection \<open>Stripping\<close>

definition py_lstrip :: "string \<Rightarrow> string" where
  "py_lstrip s = dropWhile py_isspace s"

definition py_rstrip :: "string \<Rightarrow> string" where
  "py_rstrip s = rev (dropWhile py_isspace (rev s))"

text \<open>\<open>s.strip()\<close>.\<close>

definition py_strip :: "string \<Rightarrow> string" where
  "py_strip s = py_rstrip (py_lstrip s)"

subsection \<open>Prefixes, suffixes, splitting\<close>

text \<open>\<open>s.startswith(p)\<close> and \<open>s.endswith(p)\<close>.\<close>

definition py_startswith :: "string \<Rightarrow> string \<Rightarrow> bool" where
  "py_startswith s p \<longleftrightarrow> take (length p) s = p"

definition py_endswith :: "string \<Rightarrow> string \<Rightarrow> bool" where
  "py_endswith s p \<longleftrightarrow> length p \<le> length s \<and> drop (length s - length p) s = p"

text \<open>
  \<open>s.split(c)\<close> for a one-character separator: the pieces between the occurrences of
  \<open>c\<close>, always at least one. \<open>split_acc\<close> collects the current piece.
\<close>

fun split_acc :: "char \<Rightarrow> string \<Rightarrow> string \<Rightarrow> string list" where
  "split_acc c cur [] = [cur]"
| "split_acc c cur (x # xs) =
     (if x = c then cur # split_acc c [] xs else split_acc c (cur @ [x]) xs)"

definition py_split :: "char \<Rightarrow> string \<Rightarrow> string list" where
  "py_split c s = split_acc c [] s"

text \<open>\<open>s.split(c, 1)\<close>: at most one split, at the first occurrence.\<close>

definition py_split1 :: "char \<Rightarrow> string \<Rightarrow> string list" where
  "py_split1 c s =
     (if c \<in> set s then [takeWhile (\<lambda>x. x \<noteq> c) s, tl (dropWhile (\<lambda>x. x \<noteq> c) s)]
      else [s])"

declare py_isspace_def [model_eval] py_isdecimal_def [model_eval] py_isdigit_def [model_eval]
  digit_value_def [model_eval] py_lstrip_def [model_eval] py_rstrip_def [model_eval]
  py_strip_def [model_eval] py_startswith_def [model_eval] py_endswith_def [model_eval]
  py_split_def [model_eval] py_split1_def [model_eval] py_lower_def [model_eval]
  py_lower_char_def [model_eval]

subsection \<open>Lemmas\<close>

lemma py_isspace_simps [py_simps]:
  "py_isspace (CHR '' '')" "py_isspace (CHR 0x09)" "py_isspace (CHR 0x0A)"
  "py_isspace (CHR 0x0D)"
  by (simp_all add: py_isspace_def)

lemma py_isdigit_if_decimal: "py_isdecimal c \<Longrightarrow> py_isdigit c"
  by (simp add: py_isdigit_def)

lemma py_isdecimal_not_space [simp]: "py_isdecimal c \<Longrightarrow> \<not> py_isspace c"
  by (simp add: py_isdecimal_def py_isspace_def Let_def)

lemma digit_value_lt_10 [simp]: "py_isdecimal c \<Longrightarrow> digit_value c < 10"
  by (simp add: py_isdecimal_def digit_value_def Let_def) linarith

lemma split_acc_nonempty [simp]: "split_acc c cur s \<noteq> []"
  by (induction c cur s rule: split_acc.induct) simp_all

lemma split_acc_hd: "hd (split_acc c cur s) = cur @ takeWhile (\<lambda>x. x \<noteq> c) s"
  by (induction c cur s rule: split_acc.induct) simp_all

lemma py_split_nonempty [simp]: "py_split c s \<noteq> []"
  by (simp add: py_split_def)

lemma py_split_first: "py_split c s ! 0 = takeWhile (\<lambda>x. x \<noteq> c) s"
  using split_acc_hd [of c "[]" s] split_acc_nonempty [of c "[]" s]
  by (simp add: py_split_def hd_conv_nth)

lemma split_acc_no_sep: "w \<in> set (split_acc c cur s) \<Longrightarrow> c \<notin> set cur \<Longrightarrow> c \<notin> set w"
  by (induction c cur s rule: split_acc.induct) (auto split: if_splits)

lemma py_split_no_sep: "w \<in> set (py_split c s) \<Longrightarrow> c \<notin> set w"
  unfolding py_split_def by (erule split_acc_no_sep) simp

text \<open>Joining the pieces with the separator gives the string back.\<close>

lemma split_acc_join:
  "foldr (\<lambda>w acc. w @ c # acc) (butlast (split_acc c cur s)) (last (split_acc c cur s))
     = cur @ s"
  by (induction c cur s rule: split_acc.induct) auto

lemma py_split_join:
  "foldr (\<lambda>w acc. w @ c # acc) (butlast (py_split c s)) (last (py_split c s)) = s"
  using split_acc_join [of c "[]" s] by (simp add: py_split_def)

lemma py_split1_length: "length (py_split1 c s) = (if c \<in> set s then 2 else 1)"
  by (simp add: py_split1_def)

lemma py_split1_join:
  "c \<in> set s \<Longrightarrow> py_split1 c s ! 0 @ c # py_split1 c s ! 1 = s"
proof (induction s)
  case Nil
  then show ?case by simp
next
  case (Cons x xs)
  then show ?case by (cases "x = c") (auto simp: py_split1_def)
qed

lemma py_startswith_append [simp]: "py_startswith (p @ s) p"
  by (simp add: py_startswith_def)

lemma py_startswith_iff: "py_startswith s p \<longleftrightarrow> (\<exists>r. s = p @ r)"
  by (metis append_take_drop_id py_startswith_append py_startswith_def)

lemma py_lstrip_no_lead: "py_lstrip s \<noteq> [] \<Longrightarrow> \<not> py_isspace (hd (py_lstrip s))"
  unfolding py_lstrip_def using hd_dropWhile by blast

lemma py_strip_no_space: "\<forall>c \<in> set s. \<not> py_isspace c \<Longrightarrow> py_strip s = s"
proof -
  assume no_space: "\<forall>c \<in> set s. \<not> py_isspace c"
  then have "py_lstrip s = s"
    by (cases s) (simp_all add: py_lstrip_def)
  moreover from no_space have "dropWhile py_isspace (rev s) = rev s"
    by (cases s rule: rev_cases) simp_all
  ultimately show ?thesis
    by (simp add: py_strip_def py_rstrip_def)
qed

lemma foldl_decimal_shift:
  "foldl (\<lambda>a c. 10 * a + digit_value c) n s =
     n * 10 ^ length s + foldl (\<lambda>a c. 10 * a + digit_value c) 0 s"
proof (induction s arbitrary: n)
  case Nil
  then show ?case by simp
next
  case (Cons c s)
  have "foldl (\<lambda>a c. 10 * a + digit_value c) n (c # s) =
      (10 * n + digit_value c) * 10 ^ length s + foldl (\<lambda>a c. 10 * a + digit_value c) 0 s"
    using Cons.IH [of "10 * n + digit_value c"] by simp
  moreover have "foldl (\<lambda>a c. 10 * a + digit_value c) 0 (c # s) =
      digit_value c * 10 ^ length s + foldl (\<lambda>a c. 10 * a + digit_value c) 0 s"
    using Cons.IH [of "digit_value c"] by simp
  ultimately show ?case
    by (simp add: algebra_simps)
qed

lemma decimal_value_append:
  "decimal_value (xs @ ys) = decimal_value xs * 10 ^ length ys + decimal_value ys"
  unfolding decimal_value_def foldl_append by (rule foldl_decimal_shift)

lemma decimal_value_simps [simp]:
  "decimal_value [] = 0"
  "decimal_value (c # s) = digit_value c * 10 ^ length s + decimal_value s"
  using decimal_value_append [of "[c]" s] by (simp_all add: decimal_value_def)

lemma decimal_value_bound:
  "\<forall>c \<in> set s. py_isdecimal c \<Longrightarrow> decimal_value s < 10 ^ length s"
proof (induction s)
  case Nil
  then show ?case by simp
next
  case (Cons c s)
  then have "digit_value c \<le> 9" "decimal_value s < 10 ^ length s"
    using digit_value_lt_10 by fastforce+
  then have "digit_value c * 10 ^ length s \<le> 9 * 10 ^ length s"
    by (intro mult_le_mono1)
  with \<open>decimal_value s < 10 ^ length s\<close>
  have "digit_value c * 10 ^ length s + decimal_value s < 10 * 10 ^ length s"
    by linarith
  then show ?case by simp
qed

end
