(* ===== verification/Dates.thy ===== *)
theory Dates
  imports PyStr "HOL-Library.Product_Lexorder"
begin

text \<open>
  \<open>compare_dates\<close> of \<open>src/main.py\<close> (lines 11--17) and the part of Python's
  \<open>datetime.strptime(s, "%m/%d/%Y")\<close> it relies on. CPython's \<open>_strptime\<close>
  compiles the format to the regular expression
  \<^verbatim>\<open>(?P<m>1[0-2]|0[1-9]|[1-9])/(?P<d>3[01]|[12]\d|0[1-9]|[1-9]| [1-9])/(?P<Y>\d\d\d\d)\<close>,
  takes the first match that \<open>re.match\<close> finds (alternatives tried left to right,
  with backtracking), raises \<open>ValueError\<close> when there is none or when characters
  remain after it, converts the groups with \<open>int()\<close> and builds
  \<open>datetime.date(Y, m, d)\<close>, which raises \<open>ValueError\<close> for a year outside
  1..9999 or a day beyond the month's length (proleptic Gregorian calendar).
  \<^item> \<open>pydate\<close> is the date a \<open>datetime\<close> of that format denotes (its time is
    always midnight), ordered as \<open>datetime\<close> compares: by year, month, day;
  \<^item> \<open>match_re\<close> lists every match of a sequence of literals and groups in the
    order the backtracking matcher tries them; \<open>strptime_mdy\<close> takes the first;
  \<^item> \<open>compare_dates\<close> is the \<open>try\<close>/\<open>except\<close> of the source: any
    exception of either parse gives \<open>False\<close>.
  The lemmas show that \<open>compare_dates\<close> is the strict order of the parsed dates,
  that every parsed date is a valid calendar date, and that parsing the zero-padded
  spelling \<open>format_mdy\<close> of a valid date gives the date back.
\<close>

subsection \<open>Dates and their order\<close>

datatype pydate = Date (year: nat) (month: nat) (day: nat)

definition date_key :: "pydate \<Rightarrow> nat \<times> nat \<times> nat" where
  "date_key dt = (year dt, month dt, day dt)"

instantiation pydate :: linorder
begin

definition less_eq_pydate :: "pydate \<Rightarrow> pydate \<Rightarrow> bool" where
  "less_eq_pydate a b \<longleftrightarrow> date_key a \<le> date_key b"

definition less_pydate :: "pydate \<Rightarrow> pydate \<Rightarrow> bool" where
  "less_pydate a b \<longleftrightarrow> date_key a < date_key b"

instance
proof
  fix a b c :: pydate
  show "(a < b) = (a \<le> b \<and> \<not> b \<le> a)"
    by (simp add: less_eq_pydate_def less_pydate_def less_le_not_le)
  show "a \<le> a" by (simp add: less_eq_pydate_def)
  show "a \<le> b \<Longrightarrow> b \<le> c \<Longrightarrow> a \<le> c"
    unfolding less_eq_pydate_def by (rule order_trans)
  show "a \<le> b \<Longrightarrow> b \<le> a \<Longrightarrow> a = b"
    unfolding less_eq_pydate_def date_key_def by (cases a; cases b) auto
  show "a \<le> b \<or> b \<le> a"
    unfolding less_eq_pydate_def by (rule linear)
qed

end

subsection \<open>The calendar of \<open>datetime.date\<close>\<close>

definition is_leap :: "nat \<Rightarrow> bool" where
  "is_leap y \<longleftrightarrow> 4 dvd y \<and> (\<not> 100 dvd y \<or> 400 dvd y)"

definition days_in_month :: "nat \<Rightarrow> nat \<Rightarrow> nat" where
  "days_in_month y m =
     (if m = 2 then (if is_leap y then 29 else 28)
      else if m = 4 \<or> m = 6 \<or> m = 9 \<or> m = 11 then 30 else 31)"

definition valid_date :: "pydate \<Rightarrow> bool" where
  "valid_date dt \<longleftrightarrow>
     1 \<le> year dt \<and> year dt \<le> 9999 \<and> 1 \<le> month dt \<and> month dt \<le> 12 \<and>
     1 \<le> day dt \<and> day dt \<le> days_in_month (year dt) (month dt)"

definition datetime_date :: "nat \<Rightarrow> nat \<Rightarrow> nat \<Rightarrow> pydate result" where
  "datetime_date y m d = (if valid_date (Date y m d) then Inr (Date y m d) else Inl ValueError)"

subsection \<open>The regular expression of the format\<close>

type_synonym char_class = "char \<Rightarrow> bool"

definition is_char :: "char \<Rightarrow> char_class" where
  "is_char c x \<longleftrightarrow> x = c"

definition char_range :: "char \<Rightarrow> char \<Rightarrow> char_class" where
  "char_range a b x \<longleftrightarrow> (of_char a :: nat) \<le> of_char x \<and> (of_char x :: nat) \<le> of_char b"

fun match_seq :: "char_class list \<Rightarrow> string \<Rightarrow> (string \<times> string) option" where
  "match_seq [] s = Some ([], s)"
| "match_seq (p # ps) [] = None"
| "match_seq (p # ps) (x # xs) =
     (if p x then map_option (\<lambda>(m, r). (x # m, r)) (match_seq ps xs) else None)"

definition match_alts :: "char_class list list \<Rightarrow> string \<Rightarrow> (string \<times> string) list" where
  "match_alts alts s = List.map_filter (\<lambda>a. match_seq a s) alts"

datatype re_item = Lit char | Group "char_class list list"

fun match_re :: "re_item list \<Rightarrow> string \<Rightarrow> (string list \<times> string) list" where
  "match_re [] s = [([], s)]"
| "match_re (Lit c # ps) s =
     (case s of x # xs \<Rightarrow> if x = c then match_re ps xs else [] | [] \<Rightarrow> [])"
| "match_re (Group alts # ps) s =
     concat (map (\<lambda>(g, r). map (\<lambda>(gs, r'). (g # gs, r')) (match_re ps r)) (match_alts alts s))"

definition month_re :: "char_class list list" where
  "month_re =
     [[is_char CHR ''1'', char_range CHR ''0'' CHR ''2''],
      [is_char CHR ''0'', char_range CHR ''1'' CHR ''9''],
      [char_range CHR ''1'' CHR ''9'']]"

definition day_re :: "char_class list list" where
  "day_re =
     [[is_char CHR ''3'', char_range CHR ''0'' CHR ''1''],
      [char_range CHR ''1'' CHR ''2'', py_isdecimal],
      [is_char CHR ''0'', char_range CHR ''1'' CHR ''9''],
      [char_range CHR ''1'' CHR ''9''],
      [is_char CHR '' '', char_range CHR ''1'' CHR ''9'']]"

definition year_re :: "char_class list list" where
  "year_re = [[py_isdecimal, py_isdecimal, py_isdecimal, py_isdecimal]]"

definition mdy_format :: "re_item list" where
  "mdy_format = [Group month_re, Lit CHR ''/'', Group day_re, Lit CHR ''/'', Group year_re]"

subsection \<open>\<open>strptime\<close> and \<open>compare_dates\<close>\<close>

text \<open>\<open>int()\<close> of a captured group: surrounding whitespace is ignored.\<close>

definition py_int_str :: "string \<Rightarrow> nat" where
  "py_int_str g = decimal_value (py_strip g)"

definition strptime_mdy :: "string \<Rightarrow> pydate result" where
  "strptime_mdy s =
     (case match_re mdy_format s of
        [] \<Rightarrow> Inl ValueError
      | (gs, rest) # _ \<Rightarrow>
          if rest \<noteq> [] then Inl ValueError
          else (case gs of
                  [m, d, y] \<Rightarrow> datetime_date (py_int_str y) (py_int_str m) (py_int_str d)
                | _ \<Rightarrow> Inl ValueError))"

definition compare_dates :: "string \<Rightarrow> string \<Rightarrow> bool" where
  "compare_dates d1 d2 =
     (case bindE (strptime_mdy d1) (\<lambda>date1. bindE (strptime_mdy d2) (\<lambda>date2. Inr (date1 > date2))) of
        Inl _ \<Rightarrow> False
      | Inr r \<Rightarrow> r)"


declare less_eq_pydate_def [model_eval] less_pydate_def [model_eval] date_key_def [model_eval]
  is_leap_def [model_eval] days_in_month_def [model_eval] valid_date_def [model_eval]
  datetime_date_def [model_eval] is_char_def [model_eval] char_range_def [model_eval]
  match_alts_def [model_eval] map_filter_simps [model_eval] month_re_def [model_eval]
  day_re_def [model_eval] year_re_def [model_eval] mdy_format_def [model_eval]
  py_int_str_def [model_eval] strptime_mdy_def [model_eval] compare_dates_def [model_eval]

subsection \<open>The zero-padded spelling of a date\<close>

definition digit_char :: "nat \<Rightarrow> char" where
  "digit_char k = char_of (48 + k)"

definition fmt2 :: "nat \<Rightarrow> string" where
  "fmt2 k = [digit_char (k div 10), digit_char (k mod 10)]"

definition fmt4 :: "nat \<Rightarrow> string" where
  "fmt4 k = [digit_char (k div 1000), digit_char (k div 100 mod 10),
             digit_char (k div 10 mod 10), digit_char (k mod 10)]"

definition format_mdy :: "pydate \<Rightarrow> string" where
  "format_mdy dt = fmt2 (month dt) @ CHR ''/'' # fmt2 (day dt) @ CHR ''/'' # fmt4 (year dt)"

declare digit_char_def [model_eval] fmt2_def [model_eval] fmt4_def [model_eval]
  format_mdy_def [model_eval]

subsection \<open>Lemmas\<close>

lemma of_char_digit_char [simp]: "k < 10 \<Longrightarrow> of_char (digit_char k) = (48 + k :: nat)"
  by (simp add: digit_char_def)

lemma digit_char_eq_iff: "k < 10 \<Longrightarrow> digit_char k = c \<longleftrightarrow> of_char c = (48 + k :: nat)"
  by (metis of_char_digit_char of_char_eq_iff)

lemma digit_char_class [simp]:
  "k < 10 \<Longrightarrow> py_isdecimal (digit_char k)"
  "k < 10 \<Longrightarrow> digit_value (digit_char k) = k"
  "k < 10 \<Longrightarrow> is_char c (digit_char k) \<longleftrightarrow> of_char c = (48 + k :: nat)"
  "k < 10 \<Longrightarrow> char_range a b (digit_char k) \<longleftrightarrow> of_char a \<le> (48 + k :: nat) \<and> 48 + k \<le> (of_char b :: nat)"
  by (auto simp: py_isdecimal_def digit_value_def is_char_def char_range_def digit_char_eq_iff)

lemma py_strip_decimal: "\<forall>c \<in> set s. py_isdecimal c \<Longrightarrow> py_strip s = s"
proof -
  assume "\<forall>c \<in> set s. py_isdecimal c"
  then have "\<forall>c \<in> set s. \<not> py_isspace c" by auto
  then show ?thesis by (rule py_strip_no_space)
qed

lemma match_alts_Cons_Some:
  "match_seq a s = Some x \<Longrightarrow> match_alts (a # alts) s = x # match_alts alts s"
  by (simp add: match_alts_def map_filter_simps)

lemma match_alts_Cons_None:
  "match_seq a s = None \<Longrightarrow> match_alts (a # alts) s = match_alts alts s"
  by (simp add: match_alts_def map_filter_simps)

lemma month_first:
  assumes "1 \<le> m" "m \<le> 12"
  shows "\<exists>more. match_alts month_re (fmt2 m @ r) = (fmt2 m, r) # more"
proof -
  have "m < 10 \<or> m div 10 = 1 \<and> m mod 10 \<le> 2"
    using assms by presburger
  then show ?thesis
  proof
    assume "m < 10"
    with assms show ?thesis
      by (simp add: month_re_def fmt2_def match_alts_def map_filter_simps)
  next
    assume "m div 10 = 1 \<and> m mod 10 \<le> 2"
    then show ?thesis
      by (simp add: month_re_def fmt2_def match_alts_def map_filter_simps)
  qed
qed

lemma day_first:
  assumes "1 \<le> d" "d \<le> 31"
  shows "\<exists>more. match_alts day_re (fmt2 d @ r) = (fmt2 d, r) # more"
proof -
  have "d < 10 \<or> d div 10 = 1 \<or> d div 10 = 2 \<or> d div 10 = 3 \<and> d mod 10 \<le> 1"
    using assms by presburger
  then show ?thesis
    using assms by (elim disjE)
      (simp_all add: day_re_def fmt2_def match_alts_def map_filter_simps)
qed

lemma year_match:
  "y < 10000 \<Longrightarrow> match_alts year_re (fmt4 y @ r) = [(fmt4 y, r)]"
  by (simp add: year_re_def fmt4_def match_alts_Cons_Some match_alts_def)

lemma match_re_Group_Lit:
  assumes "match_alts alts s = (g, c # r) # more"
    and "match_re ps r = (gs, r') # xs"
  shows "\<exists>ys. match_re (Group alts # Lit c # ps) s = (g # gs, r') # ys"
  using assms by simp

lemma py_int_str_fmt2: "k < 100 \<Longrightarrow> py_int_str (fmt2 k) = k"
  by (simp add: py_int_str_def fmt2_def py_strip_no_space)

lemma py_int_str_fmt4:
  assumes "k < 10000"
  shows "py_int_str (fmt4 k) = k"
proof -
  have split10: "10 * (n div 10) + n mod 10 = n" for n :: nat
    by simp
  have "k div 1000 = k div 100 div 10" "k div 100 = k div 10 div 10"
    by (simp_all add: div_mult2_eq)
  then have "10 * (10 * (10 * (k div 1000) + k div 100 mod 10) + k div 10 mod 10) + k mod 10 = k"
    by (simp only: split10)
  then have val: "k div 1000 * 1000 + k div 100 mod 10 * 100 + k div 10 mod 10 * 10 + k mod 10 = k"
    by simp
  from assms have "k div 1000 < 10" by simp
  then have "decimal_value (fmt4 k) =
      k div 1000 * 1000 + k div 100 mod 10 * 100 + k div 10 mod 10 * 10 + k mod 10"
    by (simp add: fmt4_def)
  moreover have "py_strip (fmt4 k) = fmt4 k"
    using \<open>k div 1000 < 10\<close> by (intro py_strip_no_space) (auto simp: fmt4_def)
  ultimately show ?thesis
    using val by (simp add: py_int_str_def)
qed

lemma match_format_mdy:
  assumes "valid_date dt"
  shows "\<exists>rest. match_re mdy_format (format_mdy dt) =
           ([fmt2 (month dt), fmt2 (day dt), fmt4 (year dt)], []) # rest"
proof -
  let ?m = "fmt2 (month dt)" and ?d = "fmt2 (day dt)" and ?y = "fmt4 (year dt)"
  from assms have m: "1 \<le> month dt" "month dt \<le> 12"
    and d: "1 \<le> day dt" "day dt \<le> 31" and y: "year dt < 10000"
    by (auto simp: valid_date_def days_in_month_def split: if_splits)
  have "match_re [Group year_re] ?y = [([?y], [])]"
    using year_match [OF y, of "[]"] by simp
  moreover obtain more2 where "match_alts day_re (?d @ CHR ''/'' # ?y) = (?d, CHR ''/'' # ?y) # more2"
    using day_first [OF d, of "CHR ''/'' # ?y"] by blast
  ultimately obtain ys where
    "match_re [Group day_re, Lit CHR ''/'', Group year_re] (?d @ CHR ''/'' # ?y) = ([?d, ?y], []) # ys"
    using match_re_Group_Lit by blast
  moreover obtain more1 where
    "match_alts month_re (?m @ CHR ''/'' # ?d @ CHR ''/'' # ?y) = (?m, CHR ''/'' # ?d @ CHR ''/'' # ?y) # more1"
    using month_first [OF m, of "CHR ''/'' # ?d @ CHR ''/'' # ?y"] by blast
  ultimately show ?thesis
    unfolding mdy_format_def format_mdy_def using match_re_Group_Lit by blast
qed

text \<open>
  Round trip. The zero-padded spelling \<open>MM/DD/YYYY\<close> of any valid date (year
  1 to 9999, day within its month, leap years by the Gregorian rule) is parsed by
  \<open>datetime.strptime(_, "%m/%d/%Y")\<close> back to that date.
\<close>

theorem strptime_format_mdy:
  assumes "valid_date dt"
  shows "strptime_mdy (format_mdy dt) = Inr dt"
proof -
  from assms have "month dt < 100" "day dt < 100" "year dt < 10000"
    by (auto simp: valid_date_def days_in_month_def split: if_splits)
  moreover obtain rest where "match_re mdy_format (format_mdy dt) =
      ([fmt2 (month dt), fmt2 (day dt), fmt4 (year dt)], []) # rest"
    using match_format_mdy [OF assms] by blast
  ultimately show ?thesis
    using assms by (cases dt) (simp add: strptime_mdy_def py_int_str_fmt2 py_int_str_fmt4 datetime_date_def)
qed

lemma strptime_valid: "strptime_mdy s = Inr dt \<Longrightarrow> valid_date dt"
  unfolding strptime_mdy_def datetime_date_def
  by (simp split: list.splits prod.splits if_splits)

lemma compare_dates_iff:
  "compare_dates d1 d2 \<longleftrightarrow>
     (\<exists>a b. strptime_mdy d1 = Inr a \<and> strptime_mdy d2 = Inr b \<and> b < a)"
  by (cases "strptime_mdy d1"; cases "strptime_mdy d2") (simp_all add: compare_dates_def)

text \<open>
  C12: \<open>compare_dates\<close> is a strict order on strings: no string is later than itself,
  and the relation is transitive (strings that do not parse are later than nothing and
  nothing is later than them).
\<close>

theorem compare_dates_strict_order:
  "\<not> compare_dates a a \<and> (compare_dates a b \<and> compare_dates b c \<longrightarrow> compare_dates a c)"
  by (auto simp: compare_dates_iff)

theorem compare_dates_strict_order_witness:
  "\<not> compare_dates ''03/01/2024'' ''03/01/2024'' \<and> compare_dates ''03/01/2024'' ''12/31/2023''"
proof -
  have "compare_dates ''03/01/2024'' ''02/29/2024''" "compare_dates ''02/29/2024'' ''12/31/2023''"
    by (simp_all add: model_eval)
  then show ?thesis
    using compare_dates_strict_order [of "''03/01/2024''" "''02/29/2024''" "''12/31/2023''"]
    by blast
qed

theorem strptime_format_mdy_witness:
  "valid_date (Date 2024 2 29) \<and> strptime_mdy (format_mdy (Date 2024 2 29)) = Inr (Date 2024 2 29)"
proof -
  have "valid_date (Date 2024 2 29)"
    by (simp add: model_eval)
  then show ?thesis
    using strptime_format_mdy by blast
qed

end
