(* ===== verification/TripNumber.thy ===== *)
theory TripNumber
  imports PyStr
begin

text \<open>
  \<open>extract_trip_number\<close> of \<open>src/main.py\<close> (lines 19--23):
  \<open>int(''.join(filter(str.isdigit, trip_id)))\<close> inside a \<open>try\<close> whose
  \<open>except\<close> returns 0. The characters \<open>filter\<close> keeps are those of
  \<open>str.isdigit\<close>, which include the superscripts U+00B2, U+00B3, U+00B9; \<open>int()\<close>
  accepts only decimal digits, so it raises \<open>ValueError\<close> on a string holding a
  superscript, on the empty string, and (CPython 3.11 and later, default
  \<open>sys.get_int_max_str_digits()\<close>) on more than 4300 digits. \<open>py_int_digits\<close> is
  \<open>int()\<close> on a string of \<open>str.isdigit\<close> characters, the only strings the source
  passes to it here.
\<close>

definition int_max_str_digits :: nat where
  "int_max_str_digits = 4300"

definition py_int_digits :: "string \<Rightarrow> nat result" where
  "py_int_digits s =
     (if s = [] \<or> \<not> list_all py_isdecimal s \<or> int_max_str_digits < length s
      then Inl ValueError else Inr (decimal_value s))"

definition extract_trip_number :: "string \<Rightarrow> nat" where
  "extract_trip_number trip_id =
     (case py_int_digits (filter py_isdigit trip_id) of
        Inl _ \<Rightarrow> 0
      | Inr n \<Rightarrow> n)"

declare int_max_str_digits_def [model_eval] py_int_digits_def [model_eval]
  extract_trip_number_def [model_eval]

subsection \<open>Lemmas\<close>

lemma filter_isdigit_decimal:
  "\<forall>c \<in> set t. py_isdigit c \<longrightarrow> py_isdecimal c \<Longrightarrow> filter py_isdigit t = filter py_isdecimal t"
  by (rule filter_cong) (auto dest: py_isdigit_if_decimal)

lemma py_int_digits_Inr:
  "py_int_digits s = Inr n \<Longrightarrow> list_all py_isdecimal s \<and> n = decimal_value s"
  by (simp add: py_int_digits_def split: if_splits)

text \<open>
  C13: when the trip identifier has no digit that is not a decimal digit and at most
  4300 digits, its ordinal is the decimal value of its digits in order, all other
  characters ignored.
\<close>

theorem extract_trip_number_value:
  assumes "\<forall>c \<in> set t. py_isdigit c \<longrightarrow> py_isdecimal c"
    and "length (filter py_isdecimal t) \<le> 4300"
  shows "extract_trip_number t = decimal_value (filter py_isdecimal t)"
  using assms
  by (auto simp: extract_trip_number_def py_int_digits_def int_max_str_digits_def
      filter_isdigit_decimal list_all_iff)

text \<open>
  C36: a superscript digit (U+00B2, U+00B3, U+00B9) anywhere in the trip identifier
  makes its ordinal 0: \<open>str.isdigit\<close> keeps it, and \<open>int()\<close> rejects it.
\<close>

theorem extract_trip_number_superscript:
  assumes "c \<in> set t" "py_isdigit c" "\<not> py_isdecimal c"
  shows "extract_trip_number t = 0"
proof -
  from assms have "\<not> list_all py_isdecimal (filter py_isdigit t)"
    by (auto simp: list_all_iff)
  then show ?thesis
    by (simp add: extract_trip_number_def py_int_digits_def)
qed

text \<open>
  Bounds. The ordinal is below \<open>10\<close> to the power of the number of digits of the
  identifier; an identifier without digits has ordinal 0.
\<close>

theorem extract_trip_number_bound:
  "extract_trip_number t < 10 ^ length (filter py_isdigit t)"
proof (cases "py_int_digits (filter py_isdigit t)")
  case (Inl e)
  then show ?thesis by (simp add: extract_trip_number_def)
next
  case (Inr n)
  then have "list_all py_isdecimal (filter py_isdigit t)"
    and n: "n = decimal_value (filter py_isdigit t)"
    using py_int_digits_Inr by blast+
  then have "n < 10 ^ length (filter py_isdigit t)"
    by (simp add: decimal_value_bound list_all_iff)
  with Inr show ?thesis by (simp add: extract_trip_number_def)
qed

text \<open>
  C37: an identifier with more than 4300 digits has ordinal 0: \<open>int()\<close> refuses to
  convert a string of more digits than \<open>sys.get_int_max_str_digits()\<close> (default
  4300) and the bare \<open>except\<close> turns the \<open>ValueError\<close> into 0.
\<close>

theorem extract_trip_number_too_long:
  "int_max_str_digits < length (filter py_isdigit t) \<Longrightarrow> extract_trip_number t = 0"
  by (simp add: extract_trip_number_def py_int_digits_def)

theorem extract_trip_number_value_witness: "extract_trip_number ''TRIP-12'' = 12"
  using extract_trip_number_value [of "''TRIP-12''"]
  by (simp add: model_eval)

theorem extract_trip_number_superscript_witness: "extract_trip_number (''TRIP-1'' @ [CHR 0xB2]) = 0"
  using extract_trip_number_superscript [of "CHR 0xB2" "''TRIP-1'' @ [CHR 0xB2]"]
  by (simp add: model_eval)

theorem extract_trip_number_too_long_witness:
  "extract_trip_number (replicate 4301 (CHR ''7'')) = 0"
  using extract_trip_number_too_long [of "replicate 4301 (CHR ''7'')"]
  by (simp add: model_eval int_max_str_digits_def)

end
