(* ===== verification/Reducer.thy ===== *)
theory Reducer
  imports PyDict Dates TripNumber
begin

text \<open>
  The row loop of \<open>process_csv\<close> (\<open>src/main.py\<close>, lines 25--84). The loop keeps
  three local variables, the record \<open>scan\<close>: \<open>driver_data\<close> (a dict from driver
  name to a dict with keys \<open>trip_id\<close>, \<open>truck\<close>, \<open>paperwork_date\<close>, here the
  record \<open>driver_record\<close>), \<open>current_driver\<close> and \<open>latest_seen_truck\<close>
  (\<open>None\<close> or a string). One iteration is \<open>process_row\<close>: a blank row is skipped,
  a row whose first cell starts with \<open>Driver:\<close> is a header (\<open>header_row\<close>),
  and a row of at least 14 cells under a non-empty current driver is a data row
  (\<open>data_row\<close>); every subscript and dict access is modelled with the exception it
  can raise, so that the lemmas below can show that none is ever raised.
  \<open>process_rows\<close> is the \<open>for\<close> loop, \<open>process_csv\<close> the function from the
  rows produced by \<open>csv.reader\<close> to the DataFrame it returns.
\<close>

type_synonym row = "string list"

record driver_record =
  trip_id :: string
  truck :: string
  paperwork_date :: string

definition default_record :: driver_record where
  "default_record = \<lparr>trip_id = ''N/A'', truck = ''N/A'', paperwork_date = ''N/A''\<rparr>"

type_synonym driver_table = "(string, driver_record) dict"

record scan =
  driver_data :: driver_table
  current_driver :: "string option"
  latest_seen_truck :: "string option"

definition init_scan :: scan where
  "init_scan = \<lparr>driver_data = [], current_driver = None, latest_seen_truck = None\<rparr>"

subsection \<open>One row\<close>

text \<open>\<open>any(row)\<close>: some cell is a non-empty string.\<close>

definition py_any :: "row \<Rightarrow> bool" where
  "py_any row \<longleftrightarrow> list_ex (\<lambda>c. c \<noteq> []) row"

text \<open>\<open>row[0].split(":",1)[1].split(",")[0].strip()\<close> (line 37).\<close>

definition header_name :: "string \<Rightarrow> string result" where
  "header_name cell =
     bindE (py_getitem (py_split1 CHR '':'' cell) 1) (\<lambda>after.
     bindE (py_getitem (py_split CHR '','' after) 0) (\<lambda>name.
     Inr (py_strip name)))"

text \<open>Lines 36--44: a header row opens the block of a driver.\<close>

definition header_row :: "scan \<Rightarrow> string \<Rightarrow> scan result" where
  "header_row s cell =
     bindE (header_name cell) (\<lambda>d.
     Inr (s\<lparr>current_driver := Some d, latest_seen_truck := None,
            driver_data := dict_setdefault (driver_data s) d default_record\<rparr>))"

text \<open>\<open>latest_seen_truck or existing["truck"]\<close> (line 70).\<close>

definition truck_or :: "string option \<Rightarrow> string \<Rightarrow> string" where
  "truck_or latest fallback =
     (case latest of Some t \<Rightarrow> if t \<noteq> [] then t else fallback | None \<Rightarrow> fallback)"

text \<open>The recency test \<open>should\<close> of lines 61--66.\<close>

definition should_replace :: "driver_record \<Rightarrow> string \<Rightarrow> string \<Rightarrow> bool" where
  "should_replace existing t_id pdate \<longleftrightarrow>
     paperwork_date existing = ''N/A'' \<or>
     compare_dates pdate (paperwork_date existing) \<or>
     (pdate = paperwork_date existing \<and>
      extract_trip_number (trip_id existing) < extract_trip_number t_id)"

text \<open>Lines 52--54: a non-empty truck cell is noted at once, whatever follows.\<close>

definition note_truck :: "scan \<Rightarrow> string \<Rightarrow> string \<Rightarrow> scan result" where
  "note_truck s cur trk =
     (if trk \<noteq> [] then
        bindE (dict_getitem (driver_data s) cur) (\<lambda>r.
        Inr (s\<lparr>latest_seen_truck := Some trk,
               driver_data := dict_setitem (driver_data s) cur (r\<lparr>truck := trk\<rparr>)\<rparr>))
      else Inr s)"

text \<open>Lines 60--72: the stored record is replaced when the row is more recent.\<close>

definition update_best :: "scan \<Rightarrow> string \<Rightarrow> string \<Rightarrow> string \<Rightarrow> scan result" where
  "update_best s cur t_id pdate =
     bindE (dict_getitem (driver_data s) cur) (\<lambda>existing.
     if should_replace existing t_id pdate then
       Inr (s\<lparr>driver_data := dict_setitem (driver_data s) cur
                \<lparr>trip_id = t_id, truck = truck_or (latest_seen_truck s) (truck existing),
                 paperwork_date = pdate\<rparr>\<rparr>)
     else Inr s)"

text \<open>Lines 47--72: a data row of the current driver \<open>cur\<close>.\<close>

definition data_row :: "scan \<Rightarrow> string \<Rightarrow> row \<Rightarrow> scan result" where
  "data_row s cur row =
     bindE (py_getitem row 1) (\<lambda>c1.
     bindE (py_getitem row 4) (\<lambda>c4.
     bindE (py_getitem row 6) (\<lambda>c6.
     bindE (py_getitem row 13) (\<lambda>c13.
     let t_id = py_strip c1; trk = py_strip c4; dname = py_strip c6; pdate = py_strip c13 in
     bindE (note_truck s cur trk) (\<lambda>s1.
     if t_id = [] \<or> dname = [] \<or> pdate = [] then Inr s1
     else update_best s1 cur t_id pdate)))))"

text \<open>Lines 32--72: one iteration of the loop.\<close>

definition process_row :: "scan \<Rightarrow> row \<Rightarrow> scan result" where
  "process_row s row =
     (if \<not> py_any row then Inr s
      else bindE (py_getitem row 0) (\<lambda>c0.
        if py_startswith c0 ''Driver:'' then header_row s c0
        else (case current_driver s of
                Some cur \<Rightarrow> if cur \<noteq> [] \<and> 13 < length row then data_row s cur row else Inr s
              | None \<Rightarrow> Inr s)))"

text \<open>Line 31: the loop over the rows.\<close>

fun process_rows :: "scan \<Rightarrow> row list \<Rightarrow> scan result" where
  "process_rows s [] = Inr s"
| "process_rows s (r # rs) = bindE (process_row s r) (\<lambda>s'. process_rows s' rs)"

subsection \<open>The DataFrame\<close>

text \<open>
  Lines 75--84: \<open>pd.DataFrame\<close> of a list of dicts has the union of their keys as
  columns, in order of first appearance, and one row per dict (a missing key is
  \<open>NaN\<close>, here \<open>None\<close>). With no dicts it has no columns at all.
\<close>

record dataframe =
  df_columns :: "string list"
  df_rows :: "string option list list"

definition pd_DataFrame :: "(string, string) dict list \<Rightarrow> dataframe" where
  "pd_DataFrame recs =
     (let cols = remdups_first (concat (map keys recs)) in
      \<lparr>df_columns = cols, df_rows = map (\<lambda>r. map (map_of r) cols) recs\<rparr>)"

definition summary_dict :: "string \<Rightarrow> driver_record \<Rightarrow> (string, string) dict" where
  "summary_dict d info =
     [(''Driver'', d), (''Truck'', truck info), (''Last Paperwork Date'', paperwork_date info),
      (''Trip ID'', trip_id info)]"

definition process_csv :: "row list \<Rightarrow> dataframe result" where
  "process_csv rows =
     bindE (process_rows init_scan rows) (\<lambda>s.
     Inr (pd_DataFrame (map (\<lambda>(d, info). summary_dict d info) (driver_data s))))"

declare default_record_def [model_eval] init_scan_def [model_eval] py_any_def [model_eval]
  header_name_def [model_eval] header_row_def [model_eval] truck_or_def [model_eval]
  should_replace_def [model_eval] note_truck_def [model_eval] update_best_def [model_eval]
  data_row_def [model_eval] process_row_def [model_eval] pd_DataFrame_def [model_eval]
  summary_dict_def [model_eval] process_csv_def [model_eval] Let_def [model_eval]

subsection \<open>The invariant of the scan\<close>

text \<open>
  The current driver is always a key of the table, and a truck noted since the
  header is non-empty and is the truck stored for the current driver.
\<close>

definition scan_inv :: "scan \<Rightarrow> bool" where
  "scan_inv s \<longleftrightarrow>
     dict_inv (driver_data s) \<and>
     (case current_driver s of
        None \<Rightarrow> latest_seen_truck s = None
      | Some d \<Rightarrow> d \<in> set (keys (driver_data s)) \<and>
          (case latest_seen_truck s of
             None \<Rightarrow> True
           | Some t \<Rightarrow> t \<noteq> [] \<and> map_option truck (map_of (driver_data s) d) = Some t))"

lemma scan_inv_init: "scan_inv init_scan"
  by (simp add: scan_inv_def init_scan_def dict_inv_def)

lemma scan_inv_current:
  "scan_inv s \<Longrightarrow> current_driver s = Some cur \<Longrightarrow> \<exists>r. map_of (driver_data s) cur = Some r"
proof -
  assume "scan_inv s" "current_driver s = Some cur"
  then have "cur \<in> set (keys (driver_data s))" by (simp add: scan_inv_def)
  then show ?thesis by (rule map_of_present)
qed

lemma header_name_Inr:
  "py_startswith c ''Driver:'' \<Longrightarrow> \<exists>d. header_name c = Inr d"
  by (auto simp: header_name_def py_startswith_iff py_split1_def py_getitem_def)

lemma header_row_inv:
  assumes "scan_inv s" "header_name c = Inr d"
  shows "header_row s c = Inr (s\<lparr>current_driver := Some d, latest_seen_truck := None,
            driver_data := dict_setdefault (driver_data s) d default_record\<rparr>)"
    and "scan_inv (s\<lparr>current_driver := Some d, latest_seen_truck := None,
            driver_data := dict_setdefault (driver_data s) d default_record\<rparr>)"
  using assms by (auto simp: header_row_def scan_inv_def dict_inv_setdefault)

lemma note_truck_eq:
  "map_of (driver_data s) cur = Some r \<Longrightarrow>
   note_truck s cur trk =
     Inr (if trk = [] then s
          else s\<lparr>latest_seen_truck := Some trk,
                 driver_data := dict_setitem (driver_data s) cur (r\<lparr>truck := trk\<rparr>)\<rparr>)"
  by (simp add: note_truck_def dict_getitem_def)

lemma update_best_eq:
  "map_of (driver_data s) cur = Some ex \<Longrightarrow>
   update_best s cur t_id pdate =
     Inr (if should_replace ex t_id pdate
          then s\<lparr>driver_data := dict_setitem (driver_data s) cur
                  \<lparr>trip_id = t_id, truck = truck_or (latest_seen_truck s) (truck ex),
                   paperwork_date = pdate\<rparr>\<rparr>
          else s)"
  by (simp add: update_best_def dict_getitem_def)

lemma note_truck_inv:
  assumes "scan_inv s" "current_driver s = Some cur"
  shows "\<exists>s1. note_truck s cur trk = Inr s1 \<and> scan_inv s1 \<and> current_driver s1 = current_driver s"
proof -
  obtain r where r: "map_of (driver_data s) cur = Some r"
    using scan_inv_current [OF assms] by blast
  with assms show ?thesis
    by (auto simp: note_truck_eq scan_inv_def dict_inv_setitem)
qed

lemma update_best_inv:
  assumes "scan_inv s" "current_driver s = Some cur"
  shows "\<exists>s1. update_best s cur t_id pdate = Inr s1 \<and> scan_inv s1 \<and> current_driver s1 = current_driver s"
proof -
  obtain ex where ex: "map_of (driver_data s) cur = Some ex"
    using scan_inv_current [OF assms] by blast
  with assms show ?thesis
    by (auto simp: update_best_eq scan_inv_def dict_inv_setitem truck_or_def split: option.splits)
qed

lemma data_row_inv:
  assumes "scan_inv s" "current_driver s = Some cur" "13 < length row"
  shows "\<exists>s'. data_row s cur row = Inr s' \<and> scan_inv s'"
proof -
  let ?trk = "py_strip (row ! 4)"
  obtain s1 where s1: "note_truck s cur ?trk = Inr s1" "scan_inv s1" "current_driver s1 = Some cur"
    using note_truck_inv [OF assms(1,2)] assms(2) by metis
  then obtain s2 where "update_best s1 cur (py_strip (row ! 1)) (py_strip (row ! 13)) = Inr s2" "scan_inv s2"
    using update_best_inv by metis
  with s1 assms(3) show ?thesis
    by (auto simp: data_row_def Let_def)
qed

lemma process_row_inv:
  assumes "scan_inv s"
  shows "\<exists>s'. process_row s row = Inr s' \<and> scan_inv s'"
proof (cases "py_any row")
  case False
  with assms show ?thesis by (simp add: process_row_def)
next
  case True
  then have "row \<noteq> []" by (auto simp: py_any_def)
  show ?thesis
  proof (cases "py_startswith (row ! 0) ''Driver:''")
    case True
    then obtain d where "header_name (row ! 0) = Inr d"
      using header_name_Inr by blast
    with assms True \<open>py_any row\<close> \<open>row \<noteq> []\<close> show ?thesis
      using header_row_inv [OF assms] by (simp add: process_row_def)
  next
    case False
    with assms True \<open>row \<noteq> []\<close> show ?thesis
      by (auto simp: process_row_def dest: data_row_inv split: option.splits)
  qed
qed

lemma process_rows_inv:
  "scan_inv s \<Longrightarrow> \<exists>s'. process_rows s rows = Inr s' \<and> scan_inv s'"
proof (induction rows arbitrary: s)
  case Nil
  then show ?case by simp
next
  case (Cons r rs)
  then obtain s1 where "process_row s r = Inr s1" "scan_inv s1"
    using process_row_inv by blast
  with Cons.IH show ?case by simp
qed

subsection \<open>The reducer never raises\<close>

text \<open>
  C1: for every sequence of rows, \<open>process_csv\<close> returns a DataFrame: no row, however
  short, blank or malformed, makes the subscripts \<open>row[0]\<close>, \<open>row[1]\<close>,
  \<open>row[4]\<close>, \<open>row[6]\<close>, \<open>row[13]\<close>, the header split or the dict accesses
  \<open>driver_data[current_driver]\<close> raise.
\<close>

theorem process_csv_total: "\<exists>df. process_csv rows = Inr df"
proof -
  obtain s where "process_rows init_scan rows = Inr s"
    using process_rows_inv [OF scan_inv_init] by blast
  then show ?thesis by (simp add: process_csv_def)
qed

subsection \<open>The scan invariant\<close>

text \<open>
  C10: every row keeps the scan invariant: the driver table has distinct keys, the
  current driver (when there is one) is a key of the table, and a remembered
  \<open>latest_seen_truck\<close> is non-empty and is the truck stored for the current driver.
\<close>

theorem process_row_preserves_inv:
  "scan_inv s \<Longrightarrow> process_row s row = Inr s' \<Longrightarrow> scan_inv s'"
  using process_row_inv [of s row] by fastforce

theorem process_row_preserves_inv_witness:
  "scan_inv init_scan \<and>
   process_row init_scan [''Driver: Bob, 7''] =
     Inr \<lparr>driver_data = [(''Bob'', default_record)], current_driver = Some ''Bob'',
          latest_seen_truck = None\<rparr> \<and>
   scan_inv \<lparr>driver_data = [(''Bob'', default_record)], current_driver = Some ''Bob'',
             latest_seen_truck = None\<rparr>"
proof -
  have step: "process_row init_scan [''Driver: Bob, 7''] =
     Inr \<lparr>driver_data = [(''Bob'', default_record)], current_driver = Some ''Bob'',
          latest_seen_truck = None\<rparr>"
    by (simp add: model_eval dict_setdefault_def)
  then show ?thesis
    using process_row_preserves_inv [OF scan_inv_init step] scan_inv_init by simp
qed

end
