(* ===== verification/Summary_Spec.thy ===== *)
theory Summary_Spec
  imports Reducer
begin

text \<open>
  The reducer as the specification describes it (section 4.1), with none of the
  implementation's bookkeeping: no exceptions, no \<open>latest_seen_truck\<close>, the driver
  table a map together with the order in which drivers first appear. One data row
  changes only the record of the driver in scope, by \<open>driver_step\<close>: a non-empty
  truck is recorded, and a complete row that passes the recency test replaces the
  trip and the date. \<open>spec_run\<close> is the whole scan.
\<close>

record summary_state =
  scope :: "string option"
  best :: "string \<Rightarrow> driver_record option"
  order :: "string list"

definition spec_init :: summary_state where
  "spec_init = \<lparr>scope = None, best = Map.empty, order = []\<rparr>"

text \<open>Section 4.1, step 2: the name after the first colon, up to the first comma, trimmed.\<close>

definition spec_header_name :: "string \<Rightarrow> string" where
  "spec_header_name cell =
     py_strip (takeWhile (\<lambda>x. x \<noteq> CHR '','') (tl (dropWhile (\<lambda>x. x \<noteq> CHR '':'') cell)))"

definition is_header_row :: "row \<Rightarrow> bool" where
  "is_header_row r \<longleftrightarrow> py_any r \<and> py_startswith (hd r) ''Driver:''"

definition is_data_row :: "string option \<Rightarrow> row \<Rightarrow> bool" where
  "is_data_row sc r \<longleftrightarrow>
     py_any r \<and> \<not> py_startswith (hd r) ''Driver:'' \<and> 13 < length r \<and>
     (case sc of Some d \<Rightarrow> d \<noteq> [] | None \<Rightarrow> False)"

text \<open>Section 4.1, step 3, for the record of one driver.\<close>

definition driver_step :: "driver_record \<Rightarrow> row \<Rightarrow> driver_record" where
  "driver_step r row =
     (let t_id = py_strip (row ! 1); trk = py_strip (row ! 4); dname = py_strip (row ! 6);
          pdate = py_strip (row ! 13);
          r1 = (if trk \<noteq> [] then r\<lparr>truck := trk\<rparr> else r) in
      if t_id = [] \<or> dname = [] \<or> pdate = [] then r1
      else if should_replace r1 t_id pdate then r1\<lparr>trip_id := t_id, paperwork_date := pdate\<rparr>
      else r1)"

definition spec_step :: "summary_state \<Rightarrow> row \<Rightarrow> summary_state" where
  "spec_step st r =
     (if is_header_row r then
        (let d = spec_header_name (hd r) in
         st\<lparr>scope := Some d,
            best := (case best st d of None \<Rightarrow> (best st)(d \<mapsto> default_record) | Some _ \<Rightarrow> best st),
            order := (if d \<in> set (order st) then order st else order st @ [d])\<rparr>)
      else if is_data_row (scope st) r then
        (case scope st of
           Some d \<Rightarrow> st\<lparr>best := (best st)(d := map_option (\<lambda>x. driver_step x r) (best st d))\<rparr>
         | None \<Rightarrow> st)
      else st)"

definition spec_run :: "summary_state \<Rightarrow> row list \<Rightarrow> summary_state" where
  "spec_run st rows = foldl spec_step st rows"

text \<open>
  The names of the header rows in input order, and the data rows the scan
  attributes to driver \<open>d\<close> when it starts in scope \<open>sc\<close>.
\<close>

definition header_names :: "row list \<Rightarrow> string list" where
  "header_names rows = map (\<lambda>r. spec_header_name (hd r)) (filter is_header_row rows)"

fun rows_of :: "string \<Rightarrow> string option \<Rightarrow> row list \<Rightarrow> row list" where
  "rows_of d sc [] = []"
| "rows_of d sc (r # rs) =
     (if is_header_row r then rows_of d (Some (spec_header_name (hd r))) rs
      else if is_data_row sc r \<and> sc = Some d then r # rows_of d sc rs
      else rows_of d sc rs)"

text \<open>The abstraction of a scan state.\<close>

definition abs_scan :: "scan \<Rightarrow> summary_state" where
  "abs_scan s = \<lparr>scope = current_driver s, best = map_of (driver_data s), order = keys (driver_data s)\<rparr>"

subsection \<open>Refinement\<close>

lemma header_name_spec:
  "py_startswith c ''Driver:'' \<Longrightarrow> header_name c = Inr (spec_header_name c)"
  by (auto simp: header_name_def spec_header_name_def py_startswith_iff py_split1_def
      py_split_first)

lemma record_replace_trip_date:
  "\<lparr>trip_id = t, truck = truck r, paperwork_date = p\<rparr> = r\<lparr>trip_id := t, paperwork_date := p\<rparr>"
  by (cases r) simp

lemma record_full_update:
  "r\<lparr>truck := k, trip_id := t, paperwork_date := p\<rparr> = \<lparr>trip_id = t, truck = k, paperwork_date = p\<rparr>"
  by (cases r) simp

lemma truck_or_inv:
  assumes "scan_inv s" "current_driver s = Some cur" "map_of (driver_data s) cur = Some ex"
  shows "truck_or (latest_seen_truck s) (truck ex) = truck ex"
  using assms by (auto simp: scan_inv_def truck_or_def split: option.splits)

lemma data_row_abs:
  assumes inv: "scan_inv s" and cur: "current_driver s = Some cur" and len: "13 < length row"
    and ex: "map_of (driver_data s) cur = Some ex"
  shows "data_row s cur row =
           Inr (s\<lparr>driver_data := dict_setitem (driver_data s) cur (driver_step ex row),
                  latest_seen_truck := (if py_strip (row ! 4) = [] then latest_seen_truck s
                                        else Some (py_strip (row ! 4)))\<rparr>)"
proof (cases "py_strip (row ! 4) = []")
  case True
  with assms show ?thesis
    by (auto simp: data_row_def driver_step_def Let_def note_truck_eq update_best_eq
        truck_or_inv record_replace_trip_date dict_setitem_def update_triv)
next
  case False
  with assms show ?thesis
    by (auto simp: data_row_def driver_step_def Let_def note_truck_eq update_best_eq
        truck_or_def record_full_update dict_setitem_def update_conv')
qed

lemma header_row_eq:
  "header_row s c = Inr s' \<Longrightarrow> header_name c = Inr d \<Longrightarrow>
   s' = s\<lparr>current_driver := Some d, latest_seen_truck := None,
          driver_data := dict_setdefault (driver_data s) d default_record\<rparr>"
  by (simp add: header_row_def)

lemma header_row_refines:
  assumes "header_row s c = Inr s'" "header_name c = Inr d"
  shows "abs_scan s' =
           (abs_scan s)\<lparr>scope := Some d,
             best := (case best (abs_scan s) d of
                        None \<Rightarrow> (best (abs_scan s))(d \<mapsto> default_record)
                      | Some _ \<Rightarrow> best (abs_scan s)),
             order := (if d \<in> set (order (abs_scan s)) then order (abs_scan s)
                       else order (abs_scan s) @ [d])\<rparr>"
proof -
  let ?dd = "dict_setdefault (driver_data s) d default_record"
  from assms have s': "s' = s\<lparr>current_driver := Some d, latest_seen_truck := None,
      driver_data := ?dd\<rparr>" by (rule header_row_eq)
  show ?thesis
  proof (cases "d \<in> set (keys (driver_data s))")
    case True
    from map_of_present [OF True] obtain v where "map_of (driver_data s) d = Some v"
      by blast
    moreover have "map_of ?dd = map_of (driver_data s)" "keys ?dd = keys (driver_data s)"
      using True by (simp_all add: map_of_dict_setdefault)
    ultimately show ?thesis
      using s' True unfolding abs_scan_def by simp
  next
    case False
    then have "map_of (driver_data s) d = None"
      by (simp add: map_of_eq_None_iff)
    moreover have "map_of ?dd = (map_of (driver_data s))(d \<mapsto> default_record)"
      "keys ?dd = keys (driver_data s) @ [d]"
      using False by (simp_all add: map_of_dict_setdefault)
    ultimately show ?thesis
      using s' False unfolding abs_scan_def by simp
  qed
qed

lemma process_row_refines:
  assumes inv: "scan_inv s" and step: "process_row s r = Inr s'"
  shows "abs_scan s' = spec_step (abs_scan s) r"
proof (cases "py_any r")
  case False
  with step show ?thesis
    by (simp add: process_row_def spec_step_def is_header_row_def is_data_row_def)
next
  case any: True
  then have "r \<noteq> []" by (auto simp: py_any_def)
  then have hd: "r ! 0 = hd r" by (simp add: hd_conv_nth)
  show ?thesis
  proof (cases "py_startswith (hd r) ''Driver:''")
    case True
    then have "header_name (hd r) = Inr (spec_header_name (hd r))"
      by (rule header_name_spec)
    moreover from any True step \<open>r \<noteq> []\<close> hd
    have "header_row s (hd r) = Inr s'" by (simp add: process_row_def)
    ultimately show ?thesis
      using any True by (simp add: header_row_refines spec_step_def is_header_row_def Let_def)
  next
    case nohdr: False
    show ?thesis
    proof (cases "\<exists>cur. current_driver s = Some cur \<and> cur \<noteq> [] \<and> 13 < length r")
      case True
      then obtain cur where cur: "current_driver s = Some cur" "cur \<noteq> []" "13 < length r"
        by blast
      obtain ex where ex: "map_of (driver_data s) cur = Some ex"
        using scan_inv_current [OF inv cur(1)] by blast
      have "cur \<in> set (keys (driver_data s))"
        using inv cur(1) by (simp add: scan_inv_def)
      then have keys: "keys (dict_setitem (driver_data s) cur (driver_step ex r)) = keys (driver_data s)"
        by simp
      from any nohdr step cur hd \<open>r \<noteq> []\<close> have "data_row s cur r = Inr s'"
        by (simp add: process_row_def)
      with data_row_abs [OF inv cur(1) cur(3) ex] have "s' =
           s\<lparr>driver_data := dict_setitem (driver_data s) cur (driver_step ex r),
              latest_seen_truck := (if py_strip (r ! 4) = [] then latest_seen_truck s
                                    else Some (py_strip (r ! 4)))\<rparr>"
        by simp
      with any nohdr cur ex keys show ?thesis
        by (simp add: spec_step_def is_header_row_def is_data_row_def abs_scan_def)
    next
      case False
      with any nohdr step hd \<open>r \<noteq> []\<close> have "s' = s"
        by (auto simp: process_row_def split: option.splits)
      with False any nohdr show ?thesis
        by (auto simp: spec_step_def is_header_row_def is_data_row_def abs_scan_def
            split: option.splits)
    qed
  qed
qed

lemma process_rows_refines:
  "scan_inv s \<Longrightarrow> process_rows s rows = Inr s' \<Longrightarrow> abs_scan s' = spec_run (abs_scan s) rows"
proof (induction rows arbitrary: s)
  case Nil
  then show ?case by (simp add: spec_run_def)
next
  case (Cons r rs)
  then obtain s1 where s1: "process_row s r = Inr s1" "scan_inv s1"
    using process_row_inv by blast
  with Cons.prems have "process_rows s1 rs = Inr s'" by simp
  with Cons.IH s1 have "abs_scan s' = spec_run (abs_scan s1) rs" by blast
  with process_row_refines [OF Cons.prems(1) s1(1)] show ?case
    by (simp add: spec_run_def)
qed

subsection \<open>Properties of the specification\<close>

lemma spec_step_order:
  "order (spec_step st r) =
     (if is_header_row r \<and> spec_header_name (hd r) \<notin> set (order st)
      then order st @ [spec_header_name (hd r)] else order st)"
  by (auto simp: spec_step_def Let_def split: option.split)

lemma spec_run_order:
  "distinct (order st) \<Longrightarrow>
   order (spec_run st rows) = remdups_first (order st @ header_names rows)"
proof (induction rows arbitrary: st)
  case Nil
  then show ?case by (simp add: spec_run_def header_names_def remdups_first_id)
next
  case (Cons r rs)
  let ?st' = "spec_step st r"
  have "distinct (order ?st')"
    using Cons.prems by (simp add: spec_step_order)
  then have IH: "order (spec_run ?st' rs) = remdups_first (order ?st' @ header_names rs)"
    by (rule Cons.IH)
  have "remdups_first (order ?st' @ header_names rs) = remdups_first (order st @ header_names (r # rs))"
    using Cons.prems
    by (auto simp: spec_step_order header_names_def remdups_first_append remdups_first_id
        filter_filter conj_commute)
  with IH show ?case by (simp add: spec_run_def)
qed

definition spec_inv :: "summary_state \<Rightarrow> bool" where
  "spec_inv st \<longleftrightarrow> (\<forall>d. scope st = Some d \<longrightarrow> best st d \<noteq> None)"

lemma spec_inv_init: "spec_inv spec_init"
  by (simp add: spec_inv_def spec_init_def)

lemma spec_inv_step: "spec_inv st \<Longrightarrow> spec_inv (spec_step st r)"
  by (auto simp: spec_inv_def spec_step_def Let_def split: option.splits)

lemma rows_of_header:
  "is_header_row r \<Longrightarrow> rows_of d sc (r # rs) = rows_of d (Some (spec_header_name (hd r))) rs"
  by simp

lemma header_names_Cons:
  "header_names (r # rs) =
     (if is_header_row r then spec_header_name (hd r) # header_names rs else header_names rs)"
  by (simp add: header_names_def)

lemma spec_run_best:
  "spec_inv st \<Longrightarrow>
   best (spec_run st rows) d =
     (case best st d of
        Some x \<Rightarrow> Some (foldl driver_step x (rows_of d (scope st) rows))
      | None \<Rightarrow> if d \<in> set (header_names rows)
                then Some (foldl driver_step default_record (rows_of d (scope st) rows))
                else None)"
proof (induction rows arbitrary: st)
  case Nil
  then show ?case by (simp add: spec_run_def header_names_def split: option.split)
next
  case (Cons r rs)
  let ?st' = "spec_step st r"
  have IH: "best (spec_run ?st' rs) d =
     (case best ?st' d of
        Some x \<Rightarrow> Some (foldl driver_step x (rows_of d (scope ?st') rs))
      | None \<Rightarrow> if d \<in> set (header_names rs)
                then Some (foldl driver_step default_record (rows_of d (scope ?st') rs))
                else None)"
    using Cons.IH [OF spec_inv_step [OF Cons.prems]] .
  have run: "spec_run st (r # rs) = spec_run ?st' rs" by (simp add: spec_run_def)
  show ?case
  proof (cases "is_header_row r")
    case True
    with IH show ?thesis
      by (auto simp: run spec_step_def Let_def header_names_Cons split: option.splits)
  next
    case nohdr: False
    show ?thesis
    proof (cases "is_data_row (scope st) r")
      case True
      then obtain c where c: "scope st = Some c"
        by (auto simp: is_data_row_def split: option.splits)
      with Cons.prems obtain x where x: "best st c = Some x"
        by (auto simp: spec_inv_def)
      from nohdr True c x IH show ?thesis
        by (auto simp: run spec_step_def header_names_Cons split: option.splits)
    next
      case False
      have st': "spec_step st r = st"
        using nohdr False by (simp add: spec_step_def)
      have ro: "rows_of d (scope st) (r # rs) = rows_of d (scope st) rs"
        using nohdr False by simp
      show ?thesis
        using IH unfolding run st' ro by (simp add: header_names_Cons nohdr)
    qed
  qed
qed

subsection \<open>The implementation meets the specification\<close>

lemma abs_scan_init: "abs_scan init_scan = spec_init"
  by (simp add: abs_scan_def init_scan_def spec_init_def)

text \<open>The record the specification computes for driver \<open>d\<close> from the whole input.\<close>

definition driver_summary :: "row list \<Rightarrow> string \<Rightarrow> driver_record" where
  "driver_summary rows d = foldl driver_step default_record (rows_of d None rows)"

declare spec_header_name_def [model_eval] is_header_row_def [model_eval]
  is_data_row_def [model_eval] driver_step_def [model_eval] driver_summary_def [model_eval]

lemma process_rows_summary:
  assumes "process_rows init_scan rows = Inr s"
  shows "keys (driver_data s) = remdups_first (header_names rows)"
    and "map_of (driver_data s) d =
           (if d \<in> set (header_names rows) then Some (driver_summary rows d) else None)"
proof -
  have e: "abs_scan s = spec_run spec_init rows"
    using process_rows_refines [OF scan_inv_init assms] by (simp add: abs_scan_init)
  have "order (abs_scan s) = order (spec_run spec_init rows)"
    "best (abs_scan s) = best (spec_run spec_init rows)"
    by (simp_all only: e)
  then have ord: "keys (driver_data s) = order (spec_run spec_init rows)"
    and bst: "map_of (driver_data s) = best (spec_run spec_init rows)"
    by (simp_all add: abs_scan_def)
  show "keys (driver_data s) = remdups_first (header_names rows)"
    using spec_run_order [of spec_init rows] by (simp add: ord spec_init_def)
  show "map_of (driver_data s) d =
           (if d \<in> set (header_names rows) then Some (driver_summary rows d) else None)"
    using spec_run_best [OF spec_inv_init, of rows d]
    by (simp add: bst spec_init_def driver_summary_def)
qed

lemma process_rows_table:
  assumes "process_rows init_scan rows = Inr s" "scan_inv s"
  shows "driver_data s = map (\<lambda>d. (d, driver_summary rows d)) (remdups_first (header_names rows))"
proof -
  have inv: "dict_inv (driver_data s)"
    using assms(2) by (simp add: scan_inv_def)
  have "driver_data s = map (\<lambda>k. (k, the (map_of (driver_data s) k))) (keys (driver_data s))"
    by (rule dict_eq_map_of [OF inv, symmetric])
  also have "\<dots> = map (\<lambda>d. (d, driver_summary rows d)) (remdups_first (header_names rows))"
    by (rule map_cong) (simp_all add: process_rows_summary [OF assms(1)])
  finally show ?thesis .
qed

subsection \<open>The reducer computes the specification\<close>

text \<open>
  \<open>process_csv\<close> computes the specification: one summary row per driver, in order
  of the first header row naming the driver, holding the record obtained by applying
  the single-driver step \<open>driver_step\<close>, from the default record, to the data rows
  the scan attributes to that driver, in input order.
\<close>

lemma process_csv_spec:
  "process_csv rows =
     Inr (pd_DataFrame (map (\<lambda>d. summary_dict d (driver_summary rows d))
                            (remdups_first (header_names rows))))"
proof -
  obtain s where s: "process_rows init_scan rows = Inr s" "scan_inv s"
    using process_rows_inv [OF scan_inv_init] by blast
  then show ?thesis
    by (simp add: process_csv_def process_rows_table comp_def)
qed

text \<open>
  C2: forward simulation. From the initial scan, the row loop of \<open>process_csv\<close>
  succeeds on every input, ends in a state satisfying the scan invariant, and that
  state abstracts (driver in scope, best record per driver, order of the drivers) to
  the state the abstract reducer \<open>spec_run\<close> of the specification reaches on the same
  rows.
\<close>

theorem process_rows_simulation:
  "\<exists>s. process_rows init_scan rows = Inr s \<and> scan_inv s \<and> abs_scan s = spec_run spec_init rows"
proof -
  obtain s where s: "process_rows init_scan rows = Inr s" "scan_inv s"
    using process_rows_inv [OF scan_inv_init] by blast
  with process_rows_refines [OF scan_inv_init s(1)] show ?thesis
    by (simp add: abs_scan_init)
qed

end
