(* ===== verification/Output.thy ===== *)
theory Output
  imports Summary_Spec
begin

text \<open>
  The table \<open>process_csv\<close> returns (lines 74--84 of \<open>src/main.py\<close>): its columns
  and rows in terms of the per-driver summary of \<open>Summary_Spec\<close>, the input with no
  header row, the name a header row gives, and the header row that names the empty
  driver.
\<close>

lemma remdups_first_concat_const:
  "remdups_first (concat (map (\<lambda>_. xs) ds)) = (if ds = [] then [] else remdups_first xs)"
proof (cases ds)
  case Nil
  then show ?thesis by simp
next
  case (Cons d ds')
  have "filter (\<lambda>y. y \<notin> set xs) (concat (map (\<lambda>_. xs) ds')) = []"
    by (rule filter_False) auto
  with Cons show ?thesis
    by (simp add: remdups_first_append)
qed

lemma pd_DataFrame_summary:
  "pd_DataFrame (map (\<lambda>d. summary_dict d (f d)) ds) =
     \<lparr>df_columns = (if ds = [] then [] else [''Driver'', ''Truck'', ''Last Paperwork Date'', ''Trip ID'']),
      df_rows = map (\<lambda>d. [Some d, Some (truck (f d)), Some (paperwork_date (f d)), Some (trip_id (f d))]) ds\<rparr>"
proof -
  have "map keys (map (\<lambda>d. summary_dict d (f d)) ds) =
        map (\<lambda>_. [''Driver'', ''Truck'', ''Last Paperwork Date'', ''Trip ID'']) ds"
    by (simp add: summary_dict_def)
  then have cols: "remdups_first (concat (map keys (map (\<lambda>d. summary_dict d (f d)) ds))) =
      (if ds = [] then [] else [''Driver'', ''Truck'', ''Last Paperwork Date'', ''Trip ID''])"
    by (simp only: remdups_first_concat_const) simp
  show ?thesis
    unfolding pd_DataFrame_def Let_def cols
    by (cases "ds = []") (simp_all add: summary_dict_def)
qed

text \<open>
  C3: the table has the four columns \<open>Driver\<close>, \<open>Truck\<close>, \<open>Last Paperwork Date\<close>,
  \<open>Trip ID\<close> (none at all when no header row occurs), and one row per driver named by a
  header row, in order of first appearance, with every cell filled from the driver's
  summary record.
\<close>

theorem process_csv_table:
  "process_csv rows =
     Inr \<lparr>df_columns = (if header_names rows = [] then []
                        else [''Driver'', ''Truck'', ''Last Paperwork Date'', ''Trip ID'']),
          df_rows = map (\<lambda>d. [Some d, Some (truck (driver_summary rows d)),
                              Some (paperwork_date (driver_summary rows d)),
                              Some (trip_id (driver_summary rows d))])
                        (remdups_first (header_names rows))\<rparr>"
  by (simp add: process_csv_spec pd_DataFrame_summary)

text \<open>
  With no header row in the input, every data row is ignored and the table is
  empty, without columns (\<open>pd.DataFrame([])\<close>); in particular the empty input gives
  the empty table.
\<close>

theorem process_csv_no_header:
  "header_names rows = [] \<Longrightarrow> process_csv rows = Inr \<lparr>df_columns = [], df_rows = []\<rparr>"
  by (simp add: process_csv_spec pd_DataFrame_def)

theorem process_csv_no_header_witness:
  "header_names [[''1'', ''T100'', '''', '''', ''TRK9'', '''', ''Jane'', '''', '''', '''', '''', '''', '''',
                  ''01/01/2024'']] = [] \<and>
   process_csv [[''1'', ''T100'', '''', '''', ''TRK9'', '''', ''Jane'', '''', '''', '''', '''', '''', '''',
                  ''01/01/2024'']] = Inr \<lparr>df_columns = [], df_rows = []\<rparr>"
proof -
  have "header_names [[''1'', ''T100'', '''', '''', ''TRK9'', '''', ''Jane'', '''', '''', '''', '''', '''', '''',
                  ''01/01/2024'']] = []"
    by (simp add: header_names_def model_eval)
  then show ?thesis
    using process_csv_no_header by simp
qed

text \<open>
  C35: a header row with nothing between \<open>Driver:\<close> and the first comma names the
  empty driver: whatever the other rows, the table has a row with the empty driver
  name and \<open>N/A\<close> everywhere else, since the data rows under such a header are
  ignored (the empty name is falsy in \<open>if current_driver and len(row) > 13\<close>).
\<close>

lemma rows_of_empty_name: "rows_of [] sc rs = []"
  by (induction "[] :: string" sc rs rule: rows_of.induct) (auto simp: is_data_row_def)

theorem empty_driver_name:
  assumes "[] \<in> set (header_names rows)"
  shows "\<exists>df. process_csv rows = Inr df \<and>
           [Some [], Some ''N/A'', Some ''N/A'', Some ''N/A''] \<in> set (df_rows df)"
proof -
  have "driver_summary rows [] = default_record"
    by (simp add: driver_summary_def rows_of_empty_name)
  with assms show ?thesis
    by (force simp: process_csv_spec pd_DataFrame_summary default_record_def)
qed

theorem empty_driver_name_witness:
  "\<exists>df. process_csv
          [[''Driver: , ID9''],
           [''1'', ''T100'', [], [], ''TRK9'', [], ''Jane'', [], [], [], [], [], [], ''01/01/2024'']] = Inr df \<and>
        [Some [], Some ''N/A'', Some ''N/A'', Some ''N/A''] \<in> set (df_rows df)"
proof -
  have "[] \<in> set (header_names
      [[''Driver: , ID9''],
       [''1'', ''T100'', [], [], ''TRK9'', [], ''Jane'', [], [], [], [], [], [], ''01/01/2024'']])"
    by (simp add: model_eval header_names_def)
  then show ?thesis
    by (rule empty_driver_name)
qed

text \<open>
  C9: the name of a header row \<open>Driver:<name>,<rest>\<close> is \<open>name\<close> without surrounding
  whitespace, whatever \<open>rest\<close> holds, when \<open>name\<close> has no comma.
\<close>

theorem header_name_extract:
  "CHR '','' \<notin> set name \<Longrightarrow>
   header_name (''Driver:'' @ name @ CHR '','' # rest) = Inr (py_strip name)"
proof -
  assume "CHR '','' \<notin> set name"
  then have "takeWhile (\<lambda>x. x \<noteq> CHR '','') (name @ CHR '','' # rest) = name"
    by (induction name) auto
  moreover have "header_name (''Driver:'' @ name @ CHR '','' # rest) =
      Inr (spec_header_name (''Driver:'' @ name @ CHR '','' # rest))"
    by (rule header_name_spec [OF py_startswith_append])
  ultimately show ?thesis
    by (simp add: spec_header_name_def)
qed

theorem header_name_extract_witness:
  "CHR '','' \<notin> set '' Jane Doe'' \<and>
   header_name (''Driver:'' @ '' Jane Doe'' @ CHR '','' # '' ID123'') = Inr ''Jane Doe''"
proof -
  have "CHR '','' \<notin> set '' Jane Doe''" "py_strip '' Jane Doe'' = ''Jane Doe''"
    by (simp_all add: model_eval)
  then show ?thesis
    using header_name_extract [of "'' Jane Doe''" "'' ID123''"] by simp
qed

end
