(* ===== verification/Selection.thy ===== *)
theory Selection
  imports Output "HOL-Library.Multiset"
begin

text \<open>
  What the single-driver step \<open>driver_step\<close> of the specification computes. The
  truck field and the (trip, date) pair evolve independently: the truck is the last
  non-empty truck cell seen, and the (trip, date) pair is chosen among the complete
  rows by the recency test \<open>should_replace\<close> alone. When every date involved is
  written in the zero-padded form \<open>MM/DD/YYYY\<close> of a valid date, the test is the
  strict lexicographic order on (date, trip ordinal), and the chosen row is the first
  complete row whose (date, ordinal) is maximal.
\<close>

definition truck_cells :: "row list \<Rightarrow> string list" where
  "truck_cells rows = filter (\<lambda>t. t \<noteq> []) (map (\<lambda>row. py_strip (row ! 4)) rows)"

definition complete_row :: "row \<Rightarrow> bool" where
  "complete_row row \<longleftrightarrow>
     py_strip (row ! 1) \<noteq> [] \<and> py_strip (row ! 6) \<noteq> [] \<and> py_strip (row ! 13) \<noteq> []"

definition entry :: "row \<Rightarrow> string \<times> string" where
  "entry row = (py_strip (row ! 1), py_strip (row ! 13))"

definition pick :: "string \<times> string \<Rightarrow> string \<times> string \<Rightarrow> string \<times> string" where
  "pick cur new =
     (if should_replace \<lparr>trip_id = fst cur, truck = [], paperwork_date = snd cur\<rparr> (fst new) (snd new)
      then new else cur)"

definition canonical_date :: "string \<Rightarrow> bool" where
  "canonical_date p \<longleftrightarrow> (case strptime_mdy p of Inr dt \<Rightarrow> format_mdy dt = p | Inl _ \<Rightarrow> False)"

definition date_of :: "string \<Rightarrow> pydate" where
  "date_of p = (case strptime_mdy p of Inr dt \<Rightarrow> dt | Inl _ \<Rightarrow> Date 0 0 0)"

definition entry_key :: "string \<times> string \<Rightarrow> pydate \<times> nat" where
  "entry_key e = (date_of (snd e), extract_trip_number (fst e))"

text \<open>The rows of the tie-break example of the specification (section 8).\<close>

definition tie_rows :: "row list" where
  "tie_rows =
     [[''Driver: Ann, 1''],
      [''1'', ''TRIP-7'', '''', '''', ''K1'', '''', ''Ann'', '''', '''', '''', '''', '''', '''', ''03/01/2024''],
      [''2'', ''TRIP-12'', '''', '''', '''', '''', ''Ann'', '''', '''', '''', '''', '''', '''', ''03/01/2024'']]"

subsection \<open>The recency test\<close>

lemma should_replace_truck [simp]: "should_replace (r\<lparr>truck := k\<rparr>) = should_replace r"
  by (simp add: should_replace_def fun_eq_iff)

lemma na_not_date: "strptime_mdy ''N/A'' = Inl ValueError"
  by (simp add: model_eval)

lemma should_replace_fields:
  "should_replace r = should_replace \<lparr>trip_id = trip_id r, truck = [], paperwork_date = paperwork_date r\<rparr>"
  by (simp add: should_replace_def fun_eq_iff)

lemma truck_driver_step:
  "truck (driver_step r row) = (if py_strip (row ! 4) \<noteq> [] then py_strip (row ! 4) else truck r)"
  by (simp add: driver_step_def Let_def)

lemma entry_driver_step:
  "(trip_id (driver_step r row), paperwork_date (driver_step r row)) =
     (if complete_row row then pick (trip_id r, paperwork_date r) (entry row)
      else (trip_id r, paperwork_date r))"
  by (auto simp: driver_step_def Let_def complete_row_def pick_def entry_def
      should_replace_fields [of "r\<lparr>truck := py_strip (row ! 4)\<rparr>"] should_replace_fields [of r])

subsection \<open>The truck is the last non-empty truck cell\<close>

lemma truck_foldl:
  "truck (foldl driver_step r rows) =
     (if truck_cells rows = [] then truck r else last (truck_cells rows))"
proof (induction rows rule: rev_induct)
  case Nil
  then show ?case by (simp add: truck_cells_def)
next
  case (snoc row rows)
  then show ?case
    by (simp add: truck_driver_step truck_cells_def)
qed

subsection \<open>The trip and the date are chosen among the complete rows\<close>

definition complete_entries :: "row list \<Rightarrow> (string \<times> string) list" where
  "complete_entries rows = map entry (filter complete_row rows)"

lemma entry_foldl:
  "(trip_id (foldl driver_step r rows), paperwork_date (foldl driver_step r rows)) =
     foldl pick (trip_id r, paperwork_date r) (complete_entries rows)"
proof (induction rows arbitrary: r)
  case Nil
  then show ?case by (simp add: complete_entries_def)
next
  case (Cons row rows)
  have "(trip_id (foldl driver_step r (row # rows)), paperwork_date (foldl driver_step r (row # rows))) =
        foldl pick (trip_id (driver_step r row), paperwork_date (driver_step r row)) (complete_entries rows)"
    using Cons.IH [of "driver_step r row"] by simp
  also have "\<dots> = foldl pick (trip_id r, paperwork_date r) (complete_entries (row # rows))"
    by (simp add: entry_driver_step complete_entries_def)
  finally show ?case .
qed

subsection \<open>Canonical dates\<close>

lemma canonical_date_of:
  "canonical_date p \<Longrightarrow> strptime_mdy p = Inr (date_of p) \<and> format_mdy (date_of p) = p"
  by (simp add: canonical_date_def date_of_def split: sum.splits)

lemma canonical_date_eq:
  "canonical_date p \<Longrightarrow> canonical_date q \<Longrightarrow> p = q \<longleftrightarrow> date_of p = date_of q"
  by (metis canonical_date_of)

lemma canonical_not_na: "canonical_date p \<Longrightarrow> p \<noteq> ''N/A''"
  using canonical_date_of na_not_date by fastforce

lemma should_replace_canonical:
  assumes "canonical_date (paperwork_date r)" "canonical_date p"
  shows "should_replace r t p \<longleftrightarrow>
           (date_of (paperwork_date r), extract_trip_number (trip_id r)) < (date_of p, extract_trip_number t)"
proof -
  have "compare_dates p (paperwork_date r) \<longleftrightarrow> date_of (paperwork_date r) < date_of p"
    using assms by (simp add: compare_dates_iff canonical_date_of)
  with assms show ?thesis
    by (auto simp: should_replace_def canonical_not_na canonical_date_eq)
qed

lemma pick_canonical:
  "canonical_date (snd a) \<Longrightarrow> canonical_date (snd b) \<Longrightarrow>
     pick a b = (if entry_key a < entry_key b then b else a)"
  using should_replace_canonical [of "\<lparr>trip_id = fst a, truck = [], paperwork_date = snd a\<rparr>"]
  by (simp add: pick_def entry_key_def)

lemma pick_na [simp]: "pick (''N/A'', ''N/A'') b = b"
  by (simp add: pick_def should_replace_def)

lemma foldl_pick_canonical:
  "canonical_date (snd a) \<Longrightarrow> \<forall>x\<in>set xs. canonical_date (snd x) \<Longrightarrow>
     foldl pick a xs = foldl (\<lambda>a y. if entry_key a < entry_key y then y else a) a xs"
proof (induction xs arbitrary: a)
  case Nil
  then show ?case by simp
next
  case (Cons x xs)
  then have "canonical_date (snd (pick a x))"
    by (simp add: pick_canonical)
  with Cons show ?case
    by (simp add: pick_canonical)
qed

subsection \<open>Selection of the first maximal entry\<close>

lemma foldl_first_max:
  fixes key :: "'a \<Rightarrow> 'b::linorder"
  shows "\<exists>i<length (x # xs).
           foldl (\<lambda>a y. if key a < key y then y else a) x xs = (x # xs) ! i \<and>
           (\<forall>j<length (x # xs). key ((x # xs) ! j) \<le> key ((x # xs) ! i)) \<and>
           (\<forall>j<i. key ((x # xs) ! j) < key ((x # xs) ! i))"
proof (induction xs rule: rev_induct)
  case Nil
  then show ?case by simp
next
  case (snoc y xs)
  let ?L = "x # xs" and ?f = "\<lambda>a y. if key a < key y then y else a"
  from snoc obtain i where i: "i < length ?L" "foldl ?f x xs = ?L ! i"
    "\<forall>j<length ?L. key (?L ! j) \<le> key (?L ! i)" "\<forall>j<i. key (?L ! j) < key (?L ! i)"
    by blast
  note nth_Cons_pos [simp del]
  have nth: "(x # xs @ [y]) ! j = (if j < length ?L then ?L ! j else y)"
    if "j < Suc (length ?L)" for j
    using that nth_append [of ?L "[y]" j] by (auto simp: less_Suc_eq)
  show ?case
  proof (cases "key (?L ! i) < key y")
    case True
    then show ?thesis
      using i nth by (intro exI [of _ "length ?L"]) (auto simp: less_Suc_eq order.strict_trans1)
  next
    case False
    then show ?thesis
      using i nth by (intro exI [of _ i]) (auto simp: less_Suc_eq)
  qed
qed

lemma pick_first_max:
  assumes "E \<noteq> []" "\<forall>e\<in>set E. canonical_date (snd e)"
  shows "\<exists>i<length E. foldl pick (''N/A'', ''N/A'') E = E ! i \<and>
           (\<forall>j<length E. entry_key (E ! j) \<le> entry_key (E ! i)) \<and>
           (\<forall>j<i. entry_key (E ! j) < entry_key (E ! i))"
proof -
  from assms(1) obtain e es where E: "E = e # es"
    by (cases E) auto
  with assms(2) have "foldl pick (''N/A'', ''N/A'') E =
      foldl (\<lambda>a y. if entry_key a < entry_key y then y else a) e es"
    by (simp add: foldl_pick_canonical)
  with foldl_first_max [where key = entry_key and x = e and xs = es] E show ?thesis
    by simp
qed

lemma pick_max:
  assumes "E \<noteq> []" "\<forall>e\<in>set E. canonical_date (snd e)"
  shows "foldl pick (''N/A'', ''N/A'') E \<in> set E \<and>
         (\<forall>e\<in>set E. entry_key e \<le> entry_key (foldl pick (''N/A'', ''N/A'') E))"
proof -
  from pick_first_max [OF assms] obtain i where
    "i < length E" "foldl pick (''N/A'', ''N/A'') E = E ! i"
    "\<forall>j<length E. entry_key (E ! j) \<le> entry_key (E ! i)"
    by blast
  then show ?thesis
    by (metis in_set_conv_nth)
qed

subsection \<open>Properties of the per-driver summary\<close>

text \<open>
  The truck of a driver's summary is the last non-empty (stripped) truck cell among
  the data rows attributed to that driver, whether or not those rows were complete,
  and \<open>N/A\<close> when there is none.
\<close>

theorem driver_summary_truck:
  "truck (driver_summary rows d) =
     (if truck_cells (rows_of d None rows) = [] then ''N/A''
      else last (truck_cells (rows_of d None rows)))"
  using truck_foldl [of default_record "rows_of d None rows"]
  by (simp add: driver_summary_def default_record_def)

text \<open>
  C7: the Truck column of the table \<open>process_csv\<close> returns lists, for each driver in
  order of first header, the last non-empty (stripped) truck cell \<open>row[4]\<close> among the
  data rows under the driver's headers, complete or not, and \<open>N/A\<close> when there is
  none.
\<close>

theorem process_csv_trucks:
  "\<exists>df. process_csv rows = Inr df \<and>
     map (\<lambda>r. r ! 1) (df_rows df) =
       map (\<lambda>d. Some (if truck_cells (rows_of d None rows) = [] then ''N/A''
                      else last (truck_cells (rows_of d None rows))))
           (remdups_first (header_names rows))"
  by (simp add: process_csv_spec pd_DataFrame_summary driver_summary_truck)

text \<open>
  C4: when every complete data row of a driver carries a date written as
  \<open>MM/DD/YYYY\<close> of a valid calendar date, the trip and date of the driver's summary
  are those of the first complete row whose (date, trip ordinal) is maximal.
\<close>

theorem driver_summary_first_max:
  assumes "complete_entries (rows_of d None rows) \<noteq> []"
    and "\<forall>e\<in>set (complete_entries (rows_of d None rows)). canonical_date (snd e)"
  shows "\<exists>i<length (complete_entries (rows_of d None rows)).
           (trip_id (driver_summary rows d), paperwork_date (driver_summary rows d)) =
             complete_entries (rows_of d None rows) ! i \<and>
           (\<forall>j<length (complete_entries (rows_of d None rows)).
              entry_key (complete_entries (rows_of d None rows) ! j) \<le>
              entry_key (complete_entries (rows_of d None rows) ! i)) \<and>
           (\<forall>j<i. entry_key (complete_entries (rows_of d None rows) ! j) <
                  entry_key (complete_entries (rows_of d None rows) ! i))"
  using pick_first_max [OF assms] entry_foldl [of default_record "rows_of d None rows"]
  by (simp add: driver_summary_def default_record_def)

theorem driver_summary_first_max_witness:
  "complete_entries (rows_of ''Ann'' None tie_rows) =
     [(''TRIP-7'', ''03/01/2024''), (''TRIP-12'', ''03/01/2024'')] \<and>
   canonical_date ''03/01/2024'' \<and>
   (\<exists>i<length (complete_entries (rows_of ''Ann'' None tie_rows)).
      (trip_id (driver_summary tie_rows ''Ann''), paperwork_date (driver_summary tie_rows ''Ann'')) =
        complete_entries (rows_of ''Ann'' None tie_rows) ! i \<and>
      (\<forall>j<length (complete_entries (rows_of ''Ann'' None tie_rows)).
         entry_key (complete_entries (rows_of ''Ann'' None tie_rows) ! j) \<le>
         entry_key (complete_entries (rows_of ''Ann'' None tie_rows) ! i)) \<and>
      (\<forall>j<i. entry_key (complete_entries (rows_of ''Ann'' None tie_rows) ! j) <
             entry_key (complete_entries (rows_of ''Ann'' None tie_rows) ! i)))"
proof -
  have h: "complete_entries (rows_of ''Ann'' None tie_rows) =
             [(''TRIP-7'', ''03/01/2024''), (''TRIP-12'', ''03/01/2024'')]"
    by (simp add: model_eval tie_rows_def complete_entries_def complete_row_def entry_def)
  have c: "canonical_date ''03/01/2024''"
    by (simp add: model_eval canonical_date_def char_of_def bit_simps)
  show ?thesis
    using driver_summary_first_max [of "''Ann''" tie_rows] h c by simp
qed

lemma foldl_pick_fixed: "\<forall>e\<in>set E. pick a e = a \<Longrightarrow> foldl pick a E = a"
  by (induction E) simp_all

lemma complete_entries_mset:
  "mset rows' = mset rows \<Longrightarrow> set (complete_entries rows') = set (complete_entries rows)"
  by (drule mset_eq_setD) (simp add: complete_entries_def)

lemma entry_foldl_default:
  "(trip_id (foldl driver_step default_record rows), paperwork_date (foldl driver_step default_record rows)) =
     foldl pick (''N/A'', ''N/A'') (complete_entries rows)"
  using entry_foldl [of default_record rows] by (simp add: default_record_def)

text \<open>
  C6: when the complete rows carry valid zero-padded dates and no two of them have the
  same (date, trip ordinal), the trip and date selected for a driver do not depend on
  the order in which the rows arrive.
\<close>

theorem selection_order_independent:
  assumes "mset rows' = mset rows"
    and "inj_on entry_key (set (complete_entries rows))"
    and "\<forall>e\<in>set (complete_entries rows). canonical_date (snd e)"
  shows "(trip_id (foldl driver_step default_record rows'),
          paperwork_date (foldl driver_step default_record rows')) =
         (trip_id (foldl driver_step default_record rows),
          paperwork_date (foldl driver_step default_record rows))"
proof (cases "complete_entries rows = []")
  case True
  with complete_entries_mset [OF assms(1)] show ?thesis
    by (simp add: entry_foldl_default)
next
  case False
  let ?E = "complete_entries rows" and ?E' = "complete_entries rows'"
  have set: "set ?E' = set ?E"
    by (rule complete_entries_mset [OF assms(1)])
  with False have "?E' \<noteq> []" by auto
  with set assms(3) have m': "foldl pick (''N/A'', ''N/A'') ?E' \<in> set ?E"
    "\<forall>e\<in>set ?E. entry_key e \<le> entry_key (foldl pick (''N/A'', ''N/A'') ?E')"
    using pick_max [of ?E'] by auto
  from False assms(3) have m: "foldl pick (''N/A'', ''N/A'') ?E \<in> set ?E"
    "\<forall>e\<in>set ?E. entry_key e \<le> entry_key (foldl pick (''N/A'', ''N/A'') ?E)"
    using pick_max [of ?E] by auto
  from m m' have "entry_key (foldl pick (''N/A'', ''N/A'') ?E') = entry_key (foldl pick (''N/A'', ''N/A'') ?E)"
    by (meson order_antisym)
  with m(1) m'(1) assms(2) have "foldl pick (''N/A'', ''N/A'') ?E' = foldl pick (''N/A'', ''N/A'') ?E"
    by (meson inj_onD)
  then show ?thesis
    by (simp only: entry_foldl_default)
qed

theorem selection_order_independent_witness:
  "mset (rev (tl tie_rows)) = mset (tl tie_rows) \<and>
   inj_on entry_key (set (complete_entries (tl tie_rows))) \<and>
   complete_entries (tl tie_rows) = [(''TRIP-7'', ''03/01/2024''), (''TRIP-12'', ''03/01/2024'')] \<and>
   canonical_date ''03/01/2024'' \<and>
   (trip_id (foldl driver_step default_record (rev (tl tie_rows))),
    paperwork_date (foldl driver_step default_record (rev (tl tie_rows)))) =
   (trip_id (foldl driver_step default_record (tl tie_rows)),
    paperwork_date (foldl driver_step default_record (tl tie_rows)))"
proof -
  have h: "complete_entries (tl tie_rows) =
             [(''TRIP-7'', ''03/01/2024''), (''TRIP-12'', ''03/01/2024'')]"
    by (simp add: model_eval tie_rows_def complete_entries_def complete_row_def entry_def)
  have c: "canonical_date ''03/01/2024''"
    by (simp add: model_eval canonical_date_def char_of_def bit_simps)
  have i: "entry_key (''TRIP-7'', ''03/01/2024'') \<noteq> entry_key (''TRIP-12'', ''03/01/2024'')"
    by (simp add: model_eval entry_key_def extract_trip_number_def py_int_digits_def)
  show ?thesis
    using selection_order_independent [of "rev (tl tie_rows)" "tl tie_rows"] h c i by simp
qed

text \<open>
  C5: date precedence. When both the stored date and the row's date are valid and
  differ, the row replaces the stored record exactly when its date is later.
\<close>

theorem should_replace_valid_dates:
  assumes "strptime_mdy pdate = Inr a" "strptime_mdy (paperwork_date r) = Inr b" "a \<noteq> b"
  shows "should_replace r t pdate \<longleftrightarrow> b < a"
proof -
  have "paperwork_date r \<noteq> ''N/A''" "pdate \<noteq> paperwork_date r"
    using assms na_not_date by auto
  then show ?thesis
    by (simp add: should_replace_def compare_dates_iff assms)
qed

theorem should_replace_valid_dates_witness:
  "strptime_mdy ''01/20/2024'' = Inr (Date 2024 1 20) \<and>
   strptime_mdy (paperwork_date \<lparr>trip_id = ''T1'', truck = ''K'', paperwork_date = ''01/05/2024''\<rparr>) =
     Inr (Date 2024 1 5) \<and>
   Date 2024 1 20 \<noteq> Date 2024 1 5 \<and>
   (should_replace \<lparr>trip_id = ''T1'', truck = ''K'', paperwork_date = ''01/05/2024''\<rparr> ''T2'' ''01/20/2024''
      \<longleftrightarrow> Date 2024 1 5 < Date 2024 1 20)"
proof -
  have "strptime_mdy ''01/20/2024'' = Inr (Date 2024 1 20)" "strptime_mdy ''01/05/2024'' = Inr (Date 2024 1 5)"
    by (simp_all add: model_eval)
  then show ?thesis
    using should_replace_valid_dates [of "''01/20/2024''" "Date 2024 1 20"
        "\<lparr>trip_id = ''T1'', truck = ''K'', paperwork_date = ''01/05/2024''\<rparr>" "Date 2024 1 5" "''T2''"]
    by simp
qed

text \<open>
  C8: a row whose date does not parse never replaces a stored record whose date
  parses, and the comparison of the two dates does not raise.
\<close>

theorem malformed_never_replaces:
  assumes "isl (strptime_mdy pdate)" "\<not> isl (strptime_mdy (paperwork_date r))"
  shows "\<not> should_replace r t pdate"
proof -
  have "paperwork_date r \<noteq> ''N/A''" "pdate \<noteq> paperwork_date r"
    using assms na_not_date by auto
  with assms show ?thesis
    by (auto simp: should_replace_def compare_dates_iff)
qed

theorem malformed_never_replaces_witness:
  "isl (strptime_mdy ''not-a-date'') \<and>
   \<not> isl (strptime_mdy (paperwork_date \<lparr>trip_id = ''T1'', truck = ''K'', paperwork_date = ''01/05/2024''\<rparr>)) \<and>
   \<not> should_replace \<lparr>trip_id = ''T1'', truck = ''K'', paperwork_date = ''01/05/2024''\<rparr> ''T9'' ''not-a-date''"
proof -
  have "isl (strptime_mdy ''not-a-date'')" "\<not> isl (strptime_mdy ''01/05/2024'')"
    by (simp_all add: model_eval)
  then show ?thesis
    using malformed_never_replaces [of "''not-a-date''"
        "\<lparr>trip_id = ''T1'', truck = ''K'', paperwork_date = ''01/05/2024''\<rparr>" "''T9''"]
    by simp
qed

text \<open>
  C33: once a date that does not parse (other than the default \<open>N/A\<close>) is stored for a
  driver, no later complete row replaces it unless it repeats that same string: a valid
  later date never displaces a malformed earlier one.
\<close>

theorem malformed_date_sticks:
  assumes "isl (strptime_mdy (paperwork_date r))" "paperwork_date r \<noteq> ''N/A''"
    and "\<forall>e\<in>set (complete_entries rows). snd e \<noteq> paperwork_date r"
  shows "trip_id (foldl driver_step r rows) = trip_id r \<and>
         paperwork_date (foldl driver_step r rows) = paperwork_date r"
proof -
  have "\<forall>e\<in>set (complete_entries rows). pick (trip_id r, paperwork_date r) e = (trip_id r, paperwork_date r)"
    using assms by (auto simp: pick_def should_replace_def compare_dates_iff)
  then have "foldl pick (trip_id r, paperwork_date r) (complete_entries rows) = (trip_id r, paperwork_date r)"
    by (rule foldl_pick_fixed)
  then show ?thesis
    using entry_foldl [of r rows] by simp
qed

theorem malformed_date_sticks_witness:
  "isl (strptime_mdy (paperwork_date \<lparr>trip_id = ''T1'', truck = ''K'', paperwork_date = ''2024-01-05''\<rparr>)) \<and>
   paperwork_date \<lparr>trip_id = ''T1'', truck = ''K'', paperwork_date = ''2024-01-05''\<rparr> \<noteq> ''N/A'' \<and>
   complete_entries (tl tie_rows) = [(''TRIP-7'', ''03/01/2024''), (''TRIP-12'', ''03/01/2024'')] \<and>
   trip_id (foldl driver_step \<lparr>trip_id = ''T1'', truck = ''K'', paperwork_date = ''2024-01-05''\<rparr> (tl tie_rows)) = ''T1'' \<and>
   paperwork_date (foldl driver_step \<lparr>trip_id = ''T1'', truck = ''K'', paperwork_date = ''2024-01-05''\<rparr> (tl tie_rows)) =
     ''2024-01-05''"
proof -
  have h: "complete_entries (tl tie_rows) =
             [(''TRIP-7'', ''03/01/2024''), (''TRIP-12'', ''03/01/2024'')]"
    by (simp add: model_eval tie_rows_def complete_entries_def complete_row_def entry_def)
  have "isl (strptime_mdy ''2024-01-05'')"
    by (simp add: model_eval)
  then show ?thesis
    using malformed_date_sticks [of "\<lparr>trip_id = ''T1'', truck = ''K'', paperwork_date = ''2024-01-05''\<rparr>"
        "tl tie_rows"] h
    by simp
qed

text \<open>
  C34: two spellings of the same calendar date (\<open>1/5/2024\<close> and \<open>01/05/2024\<close>) are
  neither later than one another nor equal as strings, so a row whose date is another
  spelling of the stored date never replaces it, whatever its trip ordinal.
\<close>

theorem respelled_date_never_replaces:
  assumes "strptime_mdy pdate = Inr dt" "strptime_mdy (paperwork_date r) = Inr dt"
    and "pdate \<noteq> paperwork_date r"
  shows "\<not> should_replace r t pdate"
  using assms na_not_date by (auto simp: should_replace_def compare_dates_iff)

theorem respelled_date_never_replaces_witness:
  "strptime_mdy ''1/5/2024'' = Inr (Date 2024 1 5) \<and>
   strptime_mdy (paperwork_date \<lparr>trip_id = ''TRIP-1'', truck = ''K'', paperwork_date = ''01/05/2024''\<rparr>) =
     Inr (Date 2024 1 5) \<and>
   ''1/5/2024'' \<noteq> paperwork_date \<lparr>trip_id = ''TRIP-1'', truck = ''K'', paperwork_date = ''01/05/2024''\<rparr> \<and>
   \<not> should_replace \<lparr>trip_id = ''TRIP-1'', truck = ''K'', paperwork_date = ''01/05/2024''\<rparr> ''TRIP-99'' ''1/5/2024''"
proof -
  have "strptime_mdy ''1/5/2024'' = Inr (Date 2024 1 5)" "strptime_mdy ''01/05/2024'' = Inr (Date 2024 1 5)"
    by (simp_all add: model_eval)
  then show ?thesis
    using respelled_date_never_replaces [of "''1/5/2024''" "Date 2024 1 5"
        "\<lparr>trip_id = ''TRIP-1'', truck = ''K'', paperwork_date = ''01/05/2024''\<rparr>" "''TRIP-99''"]
    by simp
qed

end
