(* ===== verification/Excel.thy ===== *)
theory Excel
  imports Reducer
begin

text \<open>
  Writing the table (lines 95--98 of \<open>src/main.py\<close>):
  \<open>df.to_excel(writer, index=False, sheet_name="Summary")\<close> with the openpyxl engine.
  pandas' \<open>ExcelFormatter.write\<close> first refuses a DataFrame of more than 1048576 rows or
  16384 columns (\<open>ValueError\<close>). \<open>get_formatted_cells\<close> yields the header cells (row 0,
  one per column) and then the body cells, column by column (row \<open>i + 1\<close> for the
  \<open>i\<close>-th row), each value formatted with \<open>na_rep\<close> for a missing one. The openpyxl
  writer assigns each cell, in that order, to the one-based position
  \<open>(r + 1, c + 1)\<close> of the sheet; the assignment (\<open>Cell._bind_value\<close>) runs
  \<open>check_string\<close>, which cuts the string to 32767 characters and raises
  \<open>IllegalCharacterError\<close> on a control character U+0000..U+0008, U+000B, U+000C or
  U+000E..U+001F, and then types the cell: a string of two or more characters starting
  with \<open>=\<close> is a formula, one of Excel's error codes an error value, any other string a
  string. The first cell that raises ends the write. The sheet is the partial map from
  positions to the typed values written there; the bytes of the file (the zip archive,
  its XML parts, the styles) are not modelled.
\<close>

record excel_cell =
  cell_row :: nat
  cell_col :: nat
  cell_val :: string

datatype xl_value = XlString string | XlFormula string | XlError string

type_synonym sheet = "(nat \<times> nat) \<rightharpoonup> xl_value"

definition max_rows :: nat where
  "max_rows = 1048576"

definition max_cols :: nat where
  "max_cols = 16384"

definition na_rep :: string where
  "na_rep = ''''"

definition format_value :: "string option \<Rightarrow> string" where
  "format_value v = (case v of None \<Rightarrow> na_rep | Some s \<Rightarrow> s)"

definition format_header :: "dataframe \<Rightarrow> excel_cell list" where
  "format_header df =
     map (\<lambda>(j, c). \<lparr>cell_row = 0, cell_col = j, cell_val = c\<rparr>) (enumerate 0 (df_columns df))"

definition generate_body :: "dataframe \<Rightarrow> excel_cell list" where
  "generate_body df =
     concat (map (\<lambda>j. map (\<lambda>(i, r). \<lparr>cell_row = Suc i, cell_col = j, cell_val = format_value (r ! j)\<rparr>)
                         (enumerate 0 (df_rows df)))
                 [0..<length (df_columns df)])"

definition get_formatted_cells :: "dataframe \<Rightarrow> excel_cell list" where
  "get_formatted_cells df = format_header df @ generate_body df"

definition string_limit :: nat where
  "string_limit = 32767"

definition illegal_char :: "char \<Rightarrow> bool" where
  "illegal_char c \<longleftrightarrow>
     (let n = of_char c :: nat in n \<le> 8 \<or> n = 11 \<or> n = 12 \<or> (14 \<le> n \<and> n \<le> 31))"

definition check_string :: "string \<Rightarrow> string result" where
  "check_string s =
     (let v = take string_limit s in if list_ex illegal_char v then Inl IllegalCharacterError else Inr v)"

definition error_codes :: "string list" where
  "error_codes = [''#NULL!'', ''#DIV/0!'', ''#VALUE!'', ''#REF!'', ''#NAME?'', ''#NUM!'', ''#N/A'']"

definition xl_type :: "string \<Rightarrow> xl_value" where
  "xl_type v =
     (if 1 < length v \<and> hd v = CHR ''='' then XlFormula v
      else if v \<in> set error_codes then XlError v else XlString v)"

definition bind_value :: "string \<Rightarrow> xl_value result" where
  "bind_value s = bindE (check_string s) (\<lambda>v. Inr (xl_type v))"

definition cell_pos :: "excel_cell \<Rightarrow> nat \<times> nat" where
  "cell_pos c = (Suc (cell_row c), Suc (cell_col c))"

fun write_cells_acc :: "sheet \<Rightarrow> excel_cell list \<Rightarrow> sheet result" where
  "write_cells_acc sh [] = Inr sh"
| "write_cells_acc sh (c # cs) =
     bindE (bind_value (cell_val c)) (\<lambda>x. write_cells_acc (sh(cell_pos c \<mapsto> x)) cs)"

definition write_cells :: "excel_cell list \<Rightarrow> sheet result" where
  "write_cells cs = write_cells_acc Map.empty cs"

definition to_excel :: "dataframe \<Rightarrow> sheet result" where
  "to_excel df =
     (if max_rows < length (df_rows df) \<or> max_cols < length (df_columns df) then Inl ValueError
      else write_cells (get_formatted_cells df))"



subsection \<open>Lemmas\<close>

lemma map_enumerate_0:
  "map (\<lambda>(j, x). f j x) (enumerate 0 xs) = map (\<lambda>j. f j (xs ! j)) [0..<length xs]"
  by (rule nth_equalityI) (simp_all add: nth_enumerate_eq)

lemma format_header_eq:
  "format_header df =
     map (\<lambda>j. \<lparr>cell_row = 0, cell_col = j, cell_val = df_columns df ! j\<rparr>) [0..<length (df_columns df)]"
  by (simp add: format_header_def map_enumerate_0)

lemma generate_body_eq:
  "generate_body df =
     concat (map (\<lambda>j. map (\<lambda>i. \<lparr>cell_row = Suc i, cell_col = j,
                                  cell_val = format_value (df_rows df ! i ! j)\<rparr>)
                         [0..<length (df_rows df)])
                 [0..<length (df_columns df)])"
  by (simp add: generate_body_def map_enumerate_0)









lemma write_cells_acc_illegal:
  "\<exists>c\<in>set cs. list_ex illegal_char (take string_limit (cell_val c)) \<Longrightarrow>
   write_cells_acc sh cs = Inl IllegalCharacterError"
proof (induction cs arbitrary: sh)
  case Nil
  then show ?case by simp
next
  case (Cons c cs)
  then show ?case
    by (cases "list_ex illegal_char (take string_limit (cell_val c))")
       (auto simp: bind_value_def check_string_def)
qed

lemma cell_values:
  assumes "\<forall>r\<in>set (df_rows df). length r = length (df_columns df)"
  shows "set (map cell_val (get_formatted_cells df)) =
         set (df_columns df @ concat (map (map format_value) (df_rows df)))"
proof (intro equalityI subsetI)
  fix s
  assume "s \<in> set (map cell_val (get_formatted_cells df))"
  then show "s \<in> set (df_columns df @ concat (map (map format_value) (df_rows df)))"
    using assms by (auto simp: get_formatted_cells_def format_header_eq generate_body_eq)
      (metis imageI nth_mem)
next
  fix s
  assume "s \<in> set (df_columns df @ concat (map (map format_value) (df_rows df)))"
  then consider j where "j < length (df_columns df)" "s = df_columns df ! j"
    | i j where "i < length (df_rows df)" "j < length (df_columns df)" "s = format_value (df_rows df ! i ! j)"
    using assms by (auto simp: in_set_conv_nth)
  then show "s \<in> set (map cell_val (get_formatted_cells df))"
    by cases (force simp: get_formatted_cells_def format_header_eq generate_body_eq)+
qed




text \<open>
  A control character in the first 32767 characters of a cell, a column name or a
  value of the table, makes \<open>to_excel\<close> raise \<open>IllegalCharacterError\<close>.
\<close>

lemma to_excel_illegal:
  assumes "\<forall>r\<in>set (df_rows df). length r = length (df_columns df)"
    and "length (df_rows df) \<le> max_rows" "length (df_columns df) \<le> max_cols"
    and "s \<in> set (df_columns df @ concat (map (map format_value) (df_rows df)))"
    and "list_ex illegal_char (take string_limit s)"
  shows "to_excel df = Inl IllegalCharacterError"
proof -
  have "\<exists>c\<in>set (get_formatted_cells df). list_ex illegal_char (take string_limit (cell_val c))"
    using assms(4,5) cell_values [OF assms(1)] by (metis (no_types, lifting) imageE set_map)
  then show ?thesis
    using assms(2,3) by (simp add: to_excel_def write_cells_def write_cells_acc_illegal)
qed

text \<open>A DataFrame without columns, the one \<open>pd.DataFrame([])\<close> gives, writes no cell at all.\<close>

lemma to_excel_no_columns:
  "df_columns df = [] \<Longrightarrow> length (df_rows df) \<le> max_rows \<Longrightarrow> to_excel df = Inr Map.empty"
  by (simp add: to_excel_def write_cells_def get_formatted_cells_def format_header_def
      generate_body_def max_cols_def not_less)

end
