(* ===== verification/Endpoint.thy ===== *)
theory Endpoint
  imports Output Excel
begin

text \<open>
  The route \<open>POST /api/process\<close> (function \<open>process\<close>, lines 86--104 of
  \<open>src/main.py\<close>). The request's uploaded files are an association list from form
  field names to uploads, searched from the front as werkzeug's \<open>MultiDict\<close> does
  for \<open>request.files["file"]\<close>. Reading the upload (\<open>stream.read().decode("utf-8")\<close>
  and \<open>csv.reader\<close>, line 26) is the parameter \<open>read_rows\<close> here, a function from
  the upload's contents (a type variable) to the CSV rows or an exception; theory
  \<open>Upload\<close> instantiates it with the model of those library calls. The
  response is either an HTTP error raised by \<open>abort\<close>, the 500 response
  Flask sends for an exception the handler does not catch, or the file download built by
  \<open>send_file\<close>. The workbook is its sheet name and the sheet \<open>to_excel\<close>
  (theory \<open>Excel\<close>) writes from the table; when that write raises, Flask answers 500.
\<close>

record 'b upload =
  filename :: string
  stream :: 'b

record 'b request =
  files :: "(string, 'b upload) dict"

record xlsx_download =
  download_name :: string
  mimetype :: string
  as_attachment :: bool
  sheet_name :: string
  sheet :: sheet

datatype response =
    Abort nat string
  | InternalServerError
  | SendFile xlsx_download

text \<open>Line 91: the upload is accepted when its name ends in \<open>.csv\<close>, in any case.\<close>

definition valid_filename :: "string \<Rightarrow> bool" where
  "valid_filename fn \<longleftrightarrow> \<not> (fn = [] \<or> \<not> py_endswith (py_lower fn) ''.csv'')"

text \<open>Lines 95--104: the workbook with the single sheet \<open>Summary\<close>, sent as a download.\<close>

definition summary_download :: "sheet \<Rightarrow> xlsx_download" where
  "summary_download sh =
     \<lparr>download_name = ''Driver_Paperwork_Summary.xlsx'',
      mimetype = ''application/vnd.openxmlformats-officedocument.spreadsheetml.sheet'',
      as_attachment = True, sheet_name = ''Summary'', sheet = sh\<rparr>"

definition process :: "('b \<Rightarrow> row list result) \<Rightarrow> 'b request \<Rightarrow> response" where
  "process read_rows req =
     (case map_of (files req) ''file'' of
        None \<Rightarrow> Abort 400 ''No file part''
      | Some f \<Rightarrow>
          if \<not> valid_filename (filename f) then Abort 400 ''Invalid file''
          else (case bindE (bindE (read_rows (stream f)) process_csv) to_excel of
                  Inl _ \<Rightarrow> InternalServerError
                | Inr sh \<Rightarrow> SendFile (summary_download sh)))"

declare valid_filename_def [model_eval] summary_download_def [model_eval] process_def [model_eval]

subsection \<open>Lemmas\<close>

lemma valid_filename_iff: "valid_filename fn \<longleftrightarrow> py_endswith (py_lower fn) ''.csv''"
  by (auto simp: valid_filename_def py_endswith_def py_lower_def)

text \<open>
  C14: a request without a \<open>file\<close> part is rejected with 400 \<open>No file part\<close>, whatever
  else it carries.
\<close>

theorem process_missing_file:
  "map_of (files req) ''file'' = None \<Longrightarrow> process read_rows req = Abort 400 ''No file part''"
  by (simp add: process_def)

theorem process_missing_file_witness:
  "map_of (files \<lparr>files = [(''upload'', \<lparr>filename = ''a.csv'', stream = (0::nat)\<rparr>)]\<rparr>) ''file'' = None \<and>
   process (\<lambda>_. Inr []) \<lparr>files = [(''upload'', \<lparr>filename = ''a.csv'', stream = (0::nat)\<rparr>)]\<rparr> =
     Abort 400 ''No file part''"
  using process_missing_file [of "\<lparr>files = [(''upload'', \<lparr>filename = ''a.csv'', stream = (0::nat)\<rparr>)]\<rparr>"
      "\<lambda>_. Inr []"]
  by simp

text \<open>
  C15: an upload whose name, lower-cased, does not end in \<open>.csv\<close> (the empty name
  included) is rejected with 400 \<open>Invalid file\<close> before its contents are read.
\<close>

theorem process_invalid_filename:
  "map_of (files req) ''file'' = Some f \<Longrightarrow> \<not> py_endswith (py_lower (filename f)) ''.csv'' \<Longrightarrow>
   process read_rows req = Abort 400 ''Invalid file''"
  by (simp add: process_def valid_filename_iff)

theorem process_invalid_filename_witness:
  "map_of (files \<lparr>files = [(''file'', \<lparr>filename = ''report.xlsx'', stream = (0::nat)\<rparr>)]\<rparr>) ''file'' =
     Some \<lparr>filename = ''report.xlsx'', stream = 0\<rparr> \<and>
   \<not> py_endswith (py_lower (filename \<lparr>filename = ''report.xlsx'', stream = (0::nat)\<rparr>)) ''.csv'' \<and>
   process (\<lambda>_. undefined) \<lparr>files = [(''file'', \<lparr>filename = ''report.xlsx'', stream = (0::nat)\<rparr>)]\<rparr> =
     Abort 400 ''Invalid file''"
proof -
  have "\<not> py_endswith (py_lower ''report.xlsx'') ''.csv''"
    by (simp add: model_eval)
  then show ?thesis
    using process_invalid_filename [of "\<lparr>files = [(''file'', \<lparr>filename = ''report.xlsx'', stream = (0::nat)\<rparr>)]\<rparr>"
        "\<lparr>filename = ''report.xlsx'', stream = 0\<rparr>" "\<lambda>_. undefined"]
    by simp
qed



lemma length_remdups_first: "length (remdups_first xs) \<le> length xs"
  by (metis distinct_card distinct_remdups_first set_remdups_first card_length)

text \<open>
  C18: an accepted upload whose rows name a driver containing a control character
  (U+0000..U+0008, U+000B, U+000C, U+000E..U+001F) is answered with 500: the name is a
  cell of the table, openpyxl refuses to store it and the handler does not catch the
  error.
\<close>

theorem process_illegal_driver_name:
  assumes "map_of (files req) ''file'' = Some f" "py_endswith (py_lower (filename f)) ''.csv''"
    and "read_rows (stream f) = Inr rows" "d \<in> set (header_names rows)"
    and "list_ex illegal_char (take string_limit d)" "length rows \<le> max_rows"
  shows "process read_rows req = InternalServerError"
proof -
  let ?ds = "remdups_first (header_names rows)"
  let ?df = "pd_DataFrame (map (\<lambda>d. summary_dict d (driver_summary rows d)) ?ds)"
  have df: "?df = \<lparr>df_columns = (if ?ds = [] then [] else [''Driver'', ''Truck'', ''Last Paperwork Date'', ''Trip ID'']),
      df_rows = map (\<lambda>d. [Some d, Some (truck (driver_summary rows d)), Some (paperwork_date (driver_summary rows d)),
                          Some (trip_id (driver_summary rows d))]) ?ds\<rparr>"
    by (rule pd_DataFrame_summary)
  have "length ?ds \<le> max_rows"
    using length_remdups_first [of "header_names rows"] assms(6)
    by (simp add: header_names_def) (meson le_trans length_filter_le)
  moreover have "d \<in> set (df_columns ?df @ concat (map (map format_value) (df_rows ?df)))"
    using assms(4) by (force simp: df format_value_def)
  ultimately have "to_excel ?df = Inl IllegalCharacterError"
    using assms(5) by (intro to_excel_illegal [of ?df d]) (simp_all add: df max_cols_def)
  with assms(1-3) show ?thesis
    by (simp add: process_def valid_filename_iff process_csv_spec)
qed

theorem process_illegal_driver_name_witness:
  "process (\<lambda>_. Inr [[''Driver: '' @ [CHR ''A'', CHR 0x01]]])
     \<lparr>files = [(''file'', \<lparr>filename = ''a.csv'', stream = (0::nat)\<rparr>)]\<rparr> = InternalServerError"
proof -
  have "py_endswith (py_lower ''a.csv'') ''.csv''"
    by (simp add: model_eval)
  moreover have "[CHR ''A'', CHR 0x01] \<in> set (header_names [[''Driver: '' @ [CHR ''A'', CHR 0x01]]])"
    by (simp add: model_eval header_names_def py_isspace_def)
  ultimately show ?thesis
    using process_illegal_driver_name [of "\<lparr>files = [(''file'', \<lparr>filename = ''a.csv'', stream = (0::nat)\<rparr>)]\<rparr>"
        "\<lparr>filename = ''a.csv'', stream = 0\<rparr>" "\<lambda>_. Inr [[''Driver: '' @ [CHR ''A'', CHR 0x01]]]"
        "[[''Driver: '' @ [CHR ''A'', CHR 0x01]]]" "[CHR ''A'', CHR 0x01]"]
    by (simp add: illegal_char_def string_limit_def max_rows_def)
qed

text \<open>
  An accepted upload whose contents cannot be read (bytes that are not UTF-8, a
  malformed CSV field) is answered with 500, not with one of the two 400 errors: the
  handler does not catch the exception.
\<close>

theorem process_read_error:
  "map_of (files req) ''file'' = Some f \<Longrightarrow> py_endswith (py_lower (filename f)) ''.csv'' \<Longrightarrow>
   read_rows (stream f) = Inl e \<Longrightarrow> process read_rows req = InternalServerError"
  by (simp add: process_def valid_filename_iff)

theorem process_read_error_witness:
  "map_of (files \<lparr>files = [(''file'', \<lparr>filename = ''a.csv'', stream = (0::nat)\<rparr>)]\<rparr>) ''file'' =
     Some \<lparr>filename = ''a.csv'', stream = 0\<rparr> \<and>
   py_endswith (py_lower (filename \<lparr>filename = ''a.csv'', stream = (0::nat)\<rparr>)) ''.csv'' \<and>
   (\<lambda>_. Inl ValueError) (stream \<lparr>filename = ''a.csv'', stream = (0::nat)\<rparr>) = (Inl ValueError :: row list result) \<and>
   process (\<lambda>_. Inl ValueError) \<lparr>files = [(''file'', \<lparr>filename = ''a.csv'', stream = (0::nat)\<rparr>)]\<rparr> =
     InternalServerError"
proof -
  have "py_endswith (py_lower ''a.csv'') ''.csv''"
    by (simp add: model_eval)
  then show ?thesis
    using process_read_error [of "\<lparr>files = [(''file'', \<lparr>filename = ''a.csv'', stream = (0::nat)\<rparr>)]\<rparr>"
        "\<lparr>filename = ''a.csv'', stream = 0\<rparr>" "\<lambda>_. Inl ValueError" ValueError]
    by simp
qed

end
