(* ===== verification/Strptime.thy ===== *)
theory Strptime
  imports Dates
begin

text \<open>
  The strings \<open>datetime.strptime(_, "%m/%d/%Y")\<close> accepts, described without the
  regular expression: a month written with two digits or, below 10, with one; a day
  written with two digits or, below 10, with one digit or a space and one digit; a
  year written with four digits; the three separated by slashes, nothing around them,
  and the date valid. The regular-expression matcher \<open>strptime_mdy\<close> of \<open>Dates\<close> is
  equivalent to this description.
\<close>

definition month_spellings :: "nat \<Rightarrow> string list" where
  "month_spellings m = fmt2 m # (if m < 10 then [[digit_char m]] else [])"

definition day_spellings :: "nat \<Rightarrow> string list" where
  "day_spellings d =
     fmt2 d # (if d < 10 then [[digit_char d], [CHR '' '', digit_char d]] else [])"

definition mdy_spellings :: "pydate \<Rightarrow> string list" where
  "mdy_spellings dt =
     concat (map (\<lambda>ms. map (\<lambda>ds. ms @ CHR ''/'' # ds @ CHR ''/'' # fmt4 (year dt))
                           (day_spellings (day dt)))
                 (month_spellings (month dt)))"

subsection \<open>Every spelling is parsed\<close>

lemma month_spelling_first:
  assumes "ms \<in> set (month_spellings m)" "1 \<le> m" "m \<le> 12"
  shows "\<exists>more. match_alts month_re (ms @ CHR ''/'' # r) = (ms, CHR ''/'' # r) # more"
proof (cases "ms = fmt2 m")
  case True
  then show ?thesis
    using month_first [OF assms(2,3)] by simp
next
  case False
  with assms have "ms = [digit_char m]" "m < 10"
    by (auto simp: month_spellings_def split: if_splits)
  with assms(2) show ?thesis
    by (simp add: month_re_def match_alts_def map_filter_simps char_range_def)
qed

lemma day_spelling_first:
  assumes "ds \<in> set (day_spellings d)" "1 \<le> d" "d \<le> 31"
  shows "\<exists>more. match_alts day_re (ds @ CHR ''/'' # r) = (ds, CHR ''/'' # r) # more"
proof (cases "ds = fmt2 d")
  case True
  then show ?thesis
    using day_first [OF assms(2,3)] by simp
next
  case False
  with assms have "ds = [digit_char d] \<or> ds = [CHR '' '', digit_char d]" "d < 10"
    by (auto simp: day_spellings_def split: if_splits)
  with assms(2) show ?thesis
    by (auto simp: day_re_def match_alts_def map_filter_simps char_range_def is_char_def
        py_isdecimal_def digit_char_eq_iff)
qed

lemma py_int_str_digit: "k < 10 \<Longrightarrow> py_int_str [digit_char k] = k"
  by (simp add: py_int_str_def py_strip_decimal)

lemma py_int_str_space_digit: "k < 10 \<Longrightarrow> py_int_str [CHR '' '', digit_char k] = k"
  by (simp add: py_int_str_def py_strip_def py_lstrip_def py_rstrip_def py_isspace_def)

lemma py_int_str_month_spelling:
  "m < 100 \<Longrightarrow> ms \<in> set (month_spellings m) \<Longrightarrow> py_int_str ms = m"
  by (auto simp: month_spellings_def py_int_str_fmt2 py_int_str_digit split: if_splits)

lemma py_int_str_day_spelling:
  "d < 100 \<Longrightarrow> ds \<in> set (day_spellings d) \<Longrightarrow> py_int_str ds = d"
  by (auto simp: day_spellings_def py_int_str_fmt2 py_int_str_digit py_int_str_space_digit
      split: if_splits)

lemma match_spelling_mdy:
  assumes "valid_date dt" "ms \<in> set (month_spellings (month dt))" "ds \<in> set (day_spellings (day dt))"
  shows "\<exists>rest. match_re mdy_format (ms @ CHR ''/'' # ds @ CHR ''/'' # fmt4 (year dt)) =
           ([ms, ds, fmt4 (year dt)], []) # rest"
proof -
  let ?y = "fmt4 (year dt)"
  from assms(1) have m: "1 \<le> month dt" "month dt \<le> 12"
    and d: "1 \<le> day dt" "day dt \<le> 31" and y: "year dt < 10000"
    by (auto simp: valid_date_def days_in_month_def split: if_splits)
  have "match_re [Group year_re] ?y = [([?y], [])]"
    using year_match [OF y, of "[]"] by simp
  moreover obtain more2 where "match_alts day_re (ds @ CHR ''/'' # ?y) = (ds, CHR ''/'' # ?y) # more2"
    using day_spelling_first [OF assms(3) d] by blast
  ultimately obtain ys where
    "match_re [Group day_re, Lit CHR ''/'', Group year_re] (ds @ CHR ''/'' # ?y) = ([ds, ?y], []) # ys"
    using match_re_Group_Lit by blast
  moreover obtain more1 where
    "match_alts month_re (ms @ CHR ''/'' # ds @ CHR ''/'' # ?y) = (ms, CHR ''/'' # ds @ CHR ''/'' # ?y) # more1"
    using month_spelling_first [OF assms(2) m] by blast
  ultimately show ?thesis
    unfolding mdy_format_def using match_re_Group_Lit by blast
qed

lemma strptime_spelling:
  assumes "valid_date dt" "s \<in> set (mdy_spellings dt)"
  shows "strptime_mdy s = Inr dt"
proof -
  from assms(2) obtain ms ds where sp: "ms \<in> set (month_spellings (month dt))"
    "ds \<in> set (day_spellings (day dt))" "s = ms @ CHR ''/'' # ds @ CHR ''/'' # fmt4 (year dt)"
    by (auto simp: mdy_spellings_def)
  from assms(1) have "month dt < 100" "day dt < 100" "year dt < 10000"
    by (auto simp: valid_date_def days_in_month_def split: if_splits)
  with sp have "py_int_str ms = month dt" "py_int_str ds = day dt" "py_int_str (fmt4 (year dt)) = year dt"
    by (simp_all add: py_int_str_month_spelling py_int_str_day_spelling py_int_str_fmt4)
  moreover obtain rest where "match_re mdy_format s = ([ms, ds, fmt4 (year dt)], []) # rest"
    using match_spelling_mdy [OF assms(1) sp(1,2)] sp(3) by blast
  ultimately show ?thesis
    using assms(1) by (cases dt) (simp add: strptime_mdy_def datetime_date_def)
qed

subsection \<open>Every parsed string is a spelling\<close>

lemma match_seq_Some:
  "match_seq ps s = Some (g, r) \<Longrightarrow> s = g @ r \<and> list_all2 (\<lambda>p c. p c) ps g"
  by (induction ps s arbitrary: g r rule: match_seq.induct) (auto split: if_splits)

lemma match_alts_group:
  "(g, r) \<in> set (match_alts alts s) \<Longrightarrow>
     s = g @ r \<and> (\<exists>a\<in>set alts. list_all2 (\<lambda>p c. p c) a g)"
proof -
  assume "(g, r) \<in> set (match_alts alts s)"
  then obtain a where "a \<in> set alts" "match_seq a s = Some (g, r)"
    by (auto simp: match_alts_def map_filter_def)
  with match_seq_Some show ?thesis
    by blast
qed

lemma match_re_mdy:
  assumes "(gs, r) \<in> set (match_re mdy_format s)"
  shows "\<exists>gm gd gy. gs = [gm, gd, gy] \<and> s = gm @ CHR ''/'' # gd @ CHR ''/'' # gy @ r \<and>
           (\<exists>a\<in>set month_re. list_all2 (\<lambda>p c. p c) a gm) \<and>
           (\<exists>a\<in>set day_re. list_all2 (\<lambda>p c. p c) a gd) \<and>
           (\<exists>a\<in>set year_re. list_all2 (\<lambda>p c. p c) a gy)"
  using assms
  by (fastforce simp: mdy_format_def split: list.splits if_splits dest!: match_alts_group)

lemma digit_char_value [simp]: "py_isdecimal c \<Longrightarrow> digit_char (digit_value c) = c"
proof -
  assume "py_isdecimal c"
  then have "of_char c - 48 < (10::nat)" "48 + (of_char c - 48) = (of_char c :: nat)"
    unfolding py_isdecimal_def Let_def by arith+
  then show ?thesis
    by (simp add: digit_value_def digit_char_eq_iff)
qed

lemma decimal_range: "char_range CHR ''1'' CHR ''9'' c \<Longrightarrow> py_isdecimal c"
  by (simp add: char_range_def py_isdecimal_def)

lemma fmt2_two_digits:
  assumes "py_isdecimal a" "py_isdecimal b"
  shows "fmt2 (py_int_str [a, b]) = [a, b]"
proof -
  have "py_int_str [a, b] = 10 * digit_value a + digit_value b"
    using assms by (simp add: py_int_str_def py_strip_decimal)
  with assms show ?thesis
    by (simp add: fmt2_def)
qed

lemma div_mod_10:
  "d < 10 \<Longrightarrow> (10 * q + d) div 10 = (q::nat)" "d < 10 \<Longrightarrow> (10 * q + d) mod 10 = (d::nat)"
  by simp_all

lemma fmt4_four_digits:
  assumes "py_isdecimal a" "py_isdecimal b" "py_isdecimal c" "py_isdecimal d"
  shows "fmt4 (py_int_str [a, b, c, d]) = [a, b, c, d]"
proof -
  define A B C D where "A = digit_value a" "B = digit_value b" "C = digit_value c" "D = digit_value d"
  have n: "py_int_str [a, b, c, d] = 10 * (10 * (10 * A + B) + C) + D"
    using assms by (simp add: A_B_C_D_def py_int_str_def py_strip_decimal)
  from assms have lt: "B < 10" "C < 10" "D < 10"
    by (simp_all add: A_B_C_D_def)
  have h100: "m div 100 = m div 10 div 10" and h1000: "m div 1000 = m div 10 div 10 div 10" for m :: nat
    using div_mult2_eq [of m 10 10] div_mult2_eq [of m 100 10] by simp_all
  have "fmt4 (py_int_str [a, b, c, d]) = [digit_char A, digit_char B, digit_char C, digit_char D]"
    unfolding fmt4_def n h100 h1000 by (simp only: div_mod_10 lt)
  with assms show ?thesis
    by (simp add: A_B_C_D_def)
qed

text \<open>The characters the classes of the format's regular expression admit are decimal digits.\<close>

lemma char_range_decimal:
  "char_range CHR ''0'' CHR ''1'' x \<Longrightarrow> py_isdecimal x"
  "char_range CHR ''0'' CHR ''2'' x \<Longrightarrow> py_isdecimal x"
  "char_range CHR ''1'' CHR ''2'' x \<Longrightarrow> py_isdecimal x"
  "char_range CHR ''1'' CHR ''9'' x \<Longrightarrow> py_isdecimal x"
  "py_isdecimal CHR ''0''" "py_isdecimal CHR ''1''" "py_isdecimal CHR ''3''"
  by (simp_all add: char_range_def py_isdecimal_def)

lemma single_digit_spelling:
  assumes "char_range CHR ''1'' CHR ''9'' x"
  shows "py_int_str [x] < 10" "digit_char (py_int_str [x]) = x"
    "py_int_str [CHR '' '', x] = py_int_str [x]"
proof -
  have x: "py_isdecimal x"
    using assms by (rule char_range_decimal)
  then have v: "py_int_str [x] = digit_value x"
    by (simp add: py_int_str_def py_strip_decimal)
  with x show "py_int_str [x] < 10" "digit_char (py_int_str [x]) = x"
    by simp_all
  from x have "py_strip [CHR '' '', x] = [x]"
    by (simp add: py_strip_def py_lstrip_def py_rstrip_def py_isspace_simps)
  then show "py_int_str [CHR '' '', x] = py_int_str [x]"
    using v by (simp add: py_int_str_def)
qed

lemma month_group_spelling:
  "\<exists>a\<in>set month_re. list_all2 (\<lambda>p c. p c) a g \<Longrightarrow> g \<in> set (month_spellings (py_int_str g))"
  by (auto simp: month_re_def month_spellings_def list_all2_Cons1 is_char_def
      char_range_decimal fmt2_two_digits single_digit_spelling)

lemma day_group_spelling:
  "\<exists>a\<in>set day_re. list_all2 (\<lambda>p c. p c) a g \<Longrightarrow> g \<in> set (day_spellings (py_int_str g))"
  by (auto simp: day_re_def day_spellings_def list_all2_Cons1 is_char_def
      char_range_decimal fmt2_two_digits single_digit_spelling)

lemma year_group_spelling:
  "\<exists>a\<in>set year_re. list_all2 (\<lambda>p c. p c) a g \<Longrightarrow> fmt4 (py_int_str g) = g"
  by (auto simp: year_re_def list_all2_Cons1 fmt4_four_digits)

lemma strptime_spelling_of:
  assumes "strptime_mdy s = Inr dt"
  shows "s \<in> set (mdy_spellings dt)"
proof -
  obtain gs more where m: "match_re mdy_format s = (gs, []) # more"
    and dt: "(case gs of [m, d, y] \<Rightarrow> datetime_date (py_int_str y) (py_int_str m) (py_int_str d)
                       | _ \<Rightarrow> Inl ValueError) = Inr dt"
    using assms by (auto simp: strptime_mdy_def split: list.splits if_splits)
  then have "(gs, []) \<in> set (match_re mdy_format s)"
    by simp
  then obtain gm gd gy where g: "gs = [gm, gd, gy]" "s = gm @ CHR ''/'' # gd @ CHR ''/'' # gy"
    and gm: "\<exists>a\<in>set month_re. list_all2 (\<lambda>p c. p c) a gm"
    and gd: "\<exists>a\<in>set day_re. list_all2 (\<lambda>p c. p c) a gd"
    and gy: "\<exists>a\<in>set year_re. list_all2 (\<lambda>p c. p c) a gy"
    using match_re_mdy by fastforce
  from dt g have "dt = Date (py_int_str gy) (py_int_str gm) (py_int_str gd)"
    by (simp add: datetime_date_def split: if_splits)
  with g month_group_spelling [OF gm] day_group_spelling [OF gd] year_group_spelling [OF gy]
  show ?thesis
    by (auto simp: mdy_spellings_def)
qed

text \<open>
  C11: \<open>datetime.strptime(s, "%m/%d/%Y")\<close> returns a date exactly when that date is
  valid and \<open>s\<close> spells it as month, slash, day, slash, four-digit year, where the month
  below 10 may drop its leading zero and the day below 10 may drop it or replace it by
  a space: the first match of the backtracking matcher, the unconverted-data check and
  the range checks together accept these strings and no other.
\<close>

theorem strptime_mdy_spellings:
  "strptime_mdy s = Inr dt \<longleftrightarrow> valid_date dt \<and> s \<in> set (mdy_spellings dt)"
  using strptime_valid strptime_spelling strptime_spelling_of by blast

end
