(* ===== verification/Utf8.thy ===== *)
theory Utf8
  imports Prelude "HOL-Library.Word"
begin

text \<open>
  \<open>bytes.decode("utf-8")\<close> (line 26 of \<open>src/main.py\<close>), with the default error
  handler \<open>strict\<close>: the bytes are \<open>8 word\<close>s, the text is the list of its code
  points, and a byte sequence that is not well-formed UTF-8 (a byte that cannot start a
  character, a missing or out-of-range continuation byte, an overlong form, a
  surrogate, a code point above U+10FFFF) raises \<open>UnicodeDecodeError\<close>. The ranges
  are those of the Unicode standard's table of well-formed byte sequences, which
  CPython's decoder checks. A byte-order mark is an ordinary character for the codec
  \<open>utf-8\<close> (only \<open>utf-8-sig\<close> removes it).
\<close>

definition in_range :: "nat \<Rightarrow> nat \<Rightarrow> 8 word \<Rightarrow> bool" where
  "in_range lo hi b \<longleftrightarrow> lo \<le> unat b \<and> unat b \<le> hi"

definition cont_value :: "8 word \<Rightarrow> nat" where
  "cont_value b = unat b - 0x80"

text \<open>One character: its code point and the bytes after it.\<close>

definition utf8_char :: "8 word \<Rightarrow> 8 word list \<Rightarrow> (nat \<times> 8 word list) result" where
  "utf8_char b bs =
     (let n = unat b in
      if n < 0x80 then Inr (n, bs)
      else if n < 0xC2 then Inl UnicodeDecodeError
      else if n \<le> 0xDF then
        (case bs of
           c1 # r \<Rightarrow> if in_range 0x80 0xBF c1 then Inr ((n - 0xC0) * 64 + cont_value c1, r)
                     else Inl UnicodeDecodeError
         | [] \<Rightarrow> Inl UnicodeDecodeError)
      else if n \<le> 0xEF then
        (case bs of
           c1 # c2 # r \<Rightarrow>
             if in_range (if n = 0xE0 then 0xA0 else 0x80) (if n = 0xED then 0x9F else 0xBF) c1 \<and>
                in_range 0x80 0xBF c2
             then Inr ((n - 0xE0) * 4096 + cont_value c1 * 64 + cont_value c2, r)
             else Inl UnicodeDecodeError
         | _ \<Rightarrow> Inl UnicodeDecodeError)
      else if n \<le> 0xF4 then
        (case bs of
           c1 # c2 # c3 # r \<Rightarrow>
             if in_range (if n = 0xF0 then 0x90 else 0x80) (if n = 0xF4 then 0x8F else 0xBF) c1 \<and>
                in_range 0x80 0xBF c2 \<and> in_range 0x80 0xBF c3
             then Inr ((n - 0xF0) * 262144 + cont_value c1 * 4096 + cont_value c2 * 64 +
                       cont_value c3, r)
             else Inl UnicodeDecodeError
         | _ \<Rightarrow> Inl UnicodeDecodeError)
      else Inl UnicodeDecodeError)"

lemma utf8_char_rest: "utf8_char b bs = Inr (c, r) \<Longrightarrow> length r \<le> length bs"
  by (auto simp: utf8_char_def Let_def split: if_splits list.splits)

function utf8_decode :: "8 word list \<Rightarrow> nat list result" where
  "utf8_decode [] = Inr []"
| "utf8_decode (b # bs) =
     (case utf8_char b bs of
        Inl e \<Rightarrow> Inl e
      | Inr (c, r) \<Rightarrow> bindE (utf8_decode r) (\<lambda>cs. Inr (c # cs)))"
  by pat_completeness auto
termination
  by (relation "measure length") (auto dest: utf8_char_rest)

subsection \<open>The decoded text consists of Unicode scalar values\<close>

definition is_scalar :: "nat \<Rightarrow> bool" where
  "is_scalar c \<longleftrightarrow> c < 0x110000 \<and> \<not> (0xD800 \<le> c \<and> c \<le> 0xDFFF)"

lemma unat_byte_lt: "unat (b :: 8 word) < 256"
  using unsigned_less [of b] by simp

lemma utf8_char_scalar:
  assumes "utf8_char b bs = Inr (c, r)"
  shows "is_scalar c"
proof -
  have b: "unat b < 256" by (rule unat_byte_lt)
  from assms b show ?thesis
    by (auto simp: utf8_char_def Let_def in_range_def cont_value_def is_scalar_def
        split: if_splits list.splits)
qed

lemma utf8_decode_Cons:
  "utf8_decode (b # bs) = Inr cps \<longleftrightarrow>
     (\<exists>c r cs. utf8_char b bs = Inr (c, r) \<and> utf8_decode r = Inr cs \<and> cps = c # cs)"
  by (auto simp: bindE_eq_Inr split: sum.splits)

text \<open>
  C27: every code point of a successfully decoded text is a Unicode scalar value: below
  U+110000 and not a surrogate. These are the values a Python \<open>str\<close> produced by
  the strict UTF-8 codec holds.
\<close>

theorem utf8_decode_scalar:
  "utf8_decode bs = Inr cps \<Longrightarrow> \<forall>c\<in>set cps. is_scalar c"
proof (induction bs arbitrary: cps rule: utf8_decode.induct)
  case 1
  then show ?case by simp
next
  case (2 b bs)
  from "2.prems" utf8_decode_Cons [of b bs cps] obtain c r cs
    where "utf8_char b bs = Inr (c, r)" "utf8_decode r = Inr cs" "cps = c # cs"
    by blast
  with "2.IH" show ?case
    using utf8_char_scalar by fastforce
qed

subsection \<open>Encoding and decoding\<close>


theorem utf8_decode_scalar_witness:
  "utf8_decode [74, 0xC3, 0xA9] = Inr [74, 233] \<and> is_scalar 74 \<and> is_scalar 233"
proof -
  have d: "utf8_decode [74, 0xC3, 0xA9] = Inr [74, 233]"
    by (simp add: utf8_decode_Cons utf8_char_def Let_def in_range_def cont_value_def)
  then show ?thesis
    using utf8_decode_scalar [OF d] by simp
qed
text \<open>The encoder of the standard, as the reference the decoder inverts.\<close>

definition utf8_encode_char :: "nat \<Rightarrow> 8 word list" where
  "utf8_encode_char c =
     (if c < 0x80 then [of_nat c]
      else if c < 0x800 then [of_nat (0xC0 + c div 64), of_nat (0x80 + c mod 64)]
      else if c < 0x10000 then
        [of_nat (0xE0 + c div 4096), of_nat (0x80 + c div 64 mod 64), of_nat (0x80 + c mod 64)]
      else [of_nat (0xF0 + c div 262144), of_nat (0x80 + c div 4096 mod 64),
            of_nat (0x80 + c div 64 mod 64), of_nat (0x80 + c mod 64)])"

definition utf8_encode :: "nat list \<Rightarrow> 8 word list" where
  "utf8_encode cps = concat (map utf8_encode_char cps)"

lemma unat_of_nat_byte [simp]: "n < 256 \<Longrightarrow> unat (of_nat n :: 8 word) = n"
  by (simp add: unat_of_nat)

lemma utf8_char_encode_1:
  "c < 0x80 \<Longrightarrow> utf8_char (of_nat c) rest = Inr (c, rest)"
  by (simp add: utf8_char_def)

lemma utf8_char_encode_2:
  assumes "0x80 \<le> c" "c < 0x800"
  shows "utf8_char (of_nat (0xC0 + c div 64)) (of_nat (0x80 + c mod 64) # rest) = Inr (c, rest)"
proof -
  have "2 \<le> c div 64" "c div 64 < 32"
    using assms by linarith+
  moreover have "unat (of_nat (0xC0 + c div 64) :: 8 word) = 0xC0 + c div 64"
    "unat (of_nat (0x80 + c mod 64) :: 8 word) = 0x80 + c mod 64"
    using \<open>c div 64 < 32\<close> by (intro unat_of_nat_byte; simp)+
  ultimately show ?thesis
    unfolding utf8_char_def Let_def in_range_def cont_value_def by simp
qed

lemma utf8_char_encode_3:
  assumes "0x800 \<le> c" "c < 0x10000" "is_scalar c"
  shows "utf8_char (of_nat (0xE0 + c div 4096))
           (of_nat (0x80 + c div 64 mod 64) # of_nat (0x80 + c mod 64) # rest) = Inr (c, rest)"
proof -
  define q where "q = c div 64"
  have c: "c = q * 64 + c mod 64" and q: "q = q div 64 * 64 + q mod 64"
    by (simp_all add: q_def)
  have d: "c div 4096 = q div 64"
    using div_mult2_eq [of c 64 64] by (simp add: q_def)
  have a: "q div 64 < 16" "32 \<le> q" "q < 1024"
    using assms(1,2) by (simp_all add: q_def)
  have v: "q div 64 * 4096 + q mod 64 * 64 + c mod 64 = c"
    using c q by linarith
  have lo: "q div 64 = 0 \<Longrightarrow> 32 \<le> q mod 64"
    using q a(2) by linarith
  have "c < 0xD800 \<or> 0xE000 \<le> c"
    using assms(3) by (auto simp: is_scalar_def)
  then have "q < 864 \<or> 896 \<le> q"
    by (auto simp: q_def)
  then have hi: "q div 64 = 13 \<Longrightarrow> q mod 64 < 32"
    using q by linarith
  have "unat (of_nat (0xE0 + q div 64) :: 8 word) = 0xE0 + q div 64"
    "unat (of_nat (0x80 + q mod 64) :: 8 word) = 0x80 + q mod 64"
    "unat (of_nat (0x80 + c mod 64) :: 8 word) = 0x80 + c mod 64"
    using a by (intro unat_of_nat_byte; simp)+
  moreover have "q mod 64 \<le> 63" "c mod 64 \<le> 63"
    using mod_less_divisor [of 64 q] mod_less_divisor [of 64 c] by linarith+
  ultimately show ?thesis
    using a v lo hi
    unfolding utf8_char_def Let_def in_range_def cont_value_def d q_def [symmetric] by auto
qed

lemma utf8_char_encode_4:
  assumes "0x10000 \<le> c" "is_scalar c"
  shows "utf8_char (of_nat (0xF0 + c div 262144))
           (of_nat (0x80 + c div 4096 mod 64) # of_nat (0x80 + c div 64 mod 64) #
            of_nat (0x80 + c mod 64) # rest) = Inr (c, rest)"
proof -
  define q p where "q = c div 64" and "p = c div 64 div 64"
  have c: "c = q * 64 + c mod 64" and q: "q = p * 64 + q mod 64" and p: "p = p div 64 * 64 + p mod 64"
    by (simp_all add: q_def p_def)
  have d: "c div 4096 = p" "c div 262144 = p div 64"
    using div_mult2_eq [of c 64 64] div_mult2_eq [of "c div 64" 64 64] div_mult2_eq [of c 4096 64]
    by (simp_all add: p_def)
  have "c < 0x110000"
    using assms(2) by (simp add: is_scalar_def)
  with assms(1) have a: "16 \<le> p" "p < 272"
    by (simp_all add: p_def)
  have v: "p div 64 * 262144 + p mod 64 * 4096 + q mod 64 * 64 + c mod 64 = c"
    using c q p by linarith
  have lo: "p div 64 = 0 \<Longrightarrow> 16 \<le> p mod 64" and hi: "p div 64 = 4 \<Longrightarrow> p mod 64 < 16"
    and top: "p div 64 \<le> 4"
    using p a by linarith+
  have m: "p mod 64 \<le> 63" "q mod 64 \<le> 63" "c mod 64 \<le> 63"
    using mod_less_divisor [of 64 p] mod_less_divisor [of 64 q] mod_less_divisor [of 64 c]
    by linarith+
  have "unat (of_nat (0xF0 + p div 64) :: 8 word) = 0xF0 + p div 64"
    "unat (of_nat (0x80 + p mod 64) :: 8 word) = 0x80 + p mod 64"
    "unat (of_nat (0x80 + q mod 64) :: 8 word) = 0x80 + q mod 64"
    "unat (of_nat (0x80 + c mod 64) :: 8 word) = 0x80 + c mod 64"
    using top m by (intro unat_of_nat_byte; simp)+
  then show ?thesis
    using v lo hi top m
    unfolding utf8_char_def Let_def in_range_def cont_value_def d q_def [symmetric]
      p_def [symmetric] by auto
qed

lemma utf8_char_encode:
  assumes "is_scalar c"
  shows "\<exists>b bs. utf8_encode_char c = b # bs \<and> utf8_char b (bs @ rest) = Inr (c, rest)"
proof -
  have "c < 0x80 \<or> 0x80 \<le> c \<and> c < 0x800 \<or> 0x800 \<le> c \<and> c < 0x10000 \<or> 0x10000 \<le> c"
    by linarith
  then show ?thesis
    using assms utf8_char_encode_1 utf8_char_encode_2 utf8_char_encode_3 utf8_char_encode_4
    by (elim disjE) (auto simp: utf8_encode_char_def)
qed

lemma utf8_decode_encode_append:
  "\<forall>c\<in>set cps. is_scalar c \<Longrightarrow>
   utf8_decode (utf8_encode cps @ rest) = bindE (utf8_decode rest) (\<lambda>cs. Inr (cps @ cs))"
proof (induction cps)
  case Nil
  then show ?case
    by (cases "utf8_decode rest") (simp_all add: utf8_encode_def)
next
  case (Cons c cps)
  then obtain b bs where e: "utf8_encode_char c = b # bs"
    and d: "utf8_char b (bs @ utf8_encode cps @ rest) = Inr (c, utf8_encode cps @ rest)"
    using utf8_char_encode [of c "utf8_encode cps @ rest"] by auto
  have "utf8_encode (c # cps) @ rest = b # bs @ utf8_encode cps @ rest"
    by (simp add: utf8_encode_def e)
  with d Cons show ?case
    by (cases "utf8_decode rest") simp_all
qed

text \<open>
  C21: round trip. Decoding the UTF-8 encoding of a sequence of Unicode scalar values
  gives the sequence back.
\<close>

theorem utf8_decode_encode:
  "\<forall>c\<in>set cps. is_scalar c \<Longrightarrow> utf8_decode (utf8_encode cps) = Inr cps"
  using utf8_decode_encode_append [of cps "[]"] by simp


theorem utf8_decode_encode_witness:
  "utf8_decode (utf8_encode [74, 233, 0x20AC]) = Inr [74, 233, 0x20AC]"
  by (rule utf8_decode_encode) (simp add: is_scalar_def)
text \<open>
  C26: after well-formed text, a byte of 0x80 or above followed by an ASCII byte makes
  the whole decoding raise \<open>UnicodeDecodeError\<close>: such a byte either cannot start a
  character or starts one whose continuation is missing. This is what every accented
  letter of a Latin-1 or Windows-1252 export (0xE9 for \<open>e\<close> with acute accent)
  followed by an ASCII character leads to.
\<close>

theorem utf8_decode_high_then_ascii:
  assumes "\<forall>x\<in>set cps. is_scalar x" "0x80 \<le> unat b" "unat c < 0x80"
  shows "utf8_decode (utf8_encode cps @ b # c # bs) = Inl UnicodeDecodeError"
  using assms by (auto simp: utf8_decode_encode_append utf8_char_def Let_def in_range_def
      split: list.splits)


theorem utf8_decode_high_then_ascii_witness:
  "utf8_decode [74, 111, 115, 0xE9, 0x73] = Inl UnicodeDecodeError"
  using utf8_decode_high_then_ascii [of "[74, 111, 115]" "0xE9" "0x73" "[]"]
  by (simp add: is_scalar_def utf8_encode_def utf8_encode_char_def)
text \<open>
  The codec \<open>utf-8\<close> keeps a byte-order mark: the bytes EF BB BF at the start
  decode to the code point U+FEFF in front of the rest of the text.
\<close>

theorem utf8_decode_bom:
  "utf8_decode (0xEF # 0xBB # 0xBF # bs) = bindE (utf8_decode bs) (\<lambda>cs. Inr (0xFEFF # cs))"
  by (simp add: utf8_char_def in_range_def cont_value_def)

end
