(* ===== verification/Csv.thy ===== *)
theory Csv
  imports Prelude
begin

text \<open>
  \<open>csv.reader(io.StringIO(text))\<close> (line 26 of \<open>src/main.py\<close>) with the default
  dialect \<open>excel\<close>: delimiter \<open>,\<close>, quote character \<open>"\<close> with doubling, no escape
  character, \<open>skipinitialspace\<close> and \<open>strict\<close> off, quoting \<open>QUOTE_MINIMAL\<close>. The
  text is a list of code points. \<open>io.StringIO\<close> with its default \<open>newline="\n"\<close>
  hands the reader lines ending in a line feed and translates nothing
  (\<open>lines_of\<close>). The reader is the state machine of CPython's \<open>Modules/_csv.c\<close>
  (Python 3.11 and later, where a NUL character is an ordinary character):
  \<open>parse_process_char\<close> is its function of that name for one character or the
  end-of-line marker \<open>EOL\<close> sent after each line, \<open>read_record\<close> is
  \<open>Reader_iternext\<close>, which reads lines until a record is complete, and \<open>csv_rows\<close>
  is the iteration \<open>for row in reader\<close>. The states \<open>ESCAPED_CHAR\<close>,
  \<open>ESCAPE_IN_QUOTED_FIELD\<close> and \<open>AFTER_ESCAPED_CRNL\<close> are reached only through an
  escape character, which this dialect does not have. \<open>csv.Error\<close> is \<open>CsvError\<close>.
\<close>

datatype pstate =
    START_RECORD | START_FIELD | IN_FIELD | IN_QUOTED_FIELD | QUOTE_IN_QUOTED_FIELD | EAT_CRNL

datatype pchar = Chr nat | EOL

record parser =
  pstate :: pstate
  pfields :: "nat list list"
  pfield :: "nat list"

text \<open>\<open>csv.field_size_limit()\<close>, 128 KiB by default.\<close>

definition field_limit :: nat where
  "field_limit = 131072"

definition parse_reset :: parser where
  "parse_reset = \<lparr>pstate = START_RECORD, pfields = [], pfield = []\<rparr>"

definition parse_save_field :: "parser \<Rightarrow> parser" where
  "parse_save_field p = p\<lparr>pfields := pfields p @ [pfield p], pfield := []\<rparr>"

definition parse_add_char :: "parser \<Rightarrow> nat \<Rightarrow> parser result" where
  "parse_add_char p c =
     (if field_limit \<le> length (pfield p) then Inl CsvError else Inr (p\<lparr>pfield := pfield p @ [c]\<rparr>))"

definition is_crlf :: "pchar \<Rightarrow> bool" where
  "is_crlf c \<longleftrightarrow> c = Chr 10 \<or> c = Chr 13"

definition end_state :: "pchar \<Rightarrow> pstate" where
  "end_state c = (if c = EOL then START_RECORD else EAT_CRNL)"

text \<open>The case \<open>START_FIELD\<close>, also reached by falling through from \<open>START_RECORD\<close>.\<close>

definition start_field :: "parser \<Rightarrow> pchar \<Rightarrow> parser result" where
  "start_field p c =
     (if is_crlf c \<or> c = EOL then Inr ((parse_save_field p)\<lparr>pstate := end_state c\<rparr>)
      else if c = Chr 34 then Inr (p\<lparr>pstate := IN_QUOTED_FIELD\<rparr>)
      else if c = Chr 44 then Inr (parse_save_field p)
      else (case c of
              Chr x \<Rightarrow> bindE (parse_add_char p x) (\<lambda>p'. Inr (p'\<lparr>pstate := IN_FIELD\<rparr>))
            | EOL \<Rightarrow> Inr p))"

fun parse_process_char :: "parser \<Rightarrow> pchar \<Rightarrow> parser result" where
  "parse_process_char p c =
     (case pstate p of
        START_RECORD \<Rightarrow>
          if c = EOL then Inr p
          else if is_crlf c then Inr (p\<lparr>pstate := EAT_CRNL\<rparr>)
          else start_field (p\<lparr>pstate := START_FIELD\<rparr>) c
      | START_FIELD \<Rightarrow> start_field p c
      | IN_FIELD \<Rightarrow>
          if is_crlf c \<or> c = EOL then Inr ((parse_save_field p)\<lparr>pstate := end_state c\<rparr>)
          else if c = Chr 44 then Inr ((parse_save_field p)\<lparr>pstate := START_FIELD\<rparr>)
          else (case c of Chr x \<Rightarrow> parse_add_char p x | EOL \<Rightarrow> Inr p)
      | IN_QUOTED_FIELD \<Rightarrow>
          if c = EOL then Inr p
          else if c = Chr 34 then Inr (p\<lparr>pstate := QUOTE_IN_QUOTED_FIELD\<rparr>)
          else (case c of Chr x \<Rightarrow> parse_add_char p x | EOL \<Rightarrow> Inr p)
      | QUOTE_IN_QUOTED_FIELD \<Rightarrow>
          if c = Chr 34 then bindE (parse_add_char p 34) (\<lambda>p'. Inr (p'\<lparr>pstate := IN_QUOTED_FIELD\<rparr>))
          else if c = Chr 44 then Inr ((parse_save_field p)\<lparr>pstate := START_FIELD\<rparr>)
          else if is_crlf c \<or> c = EOL then Inr ((parse_save_field p)\<lparr>pstate := end_state c\<rparr>)
          else (case c of
                  Chr x \<Rightarrow> bindE (parse_add_char p x) (\<lambda>p'. Inr (p'\<lparr>pstate := IN_FIELD\<rparr>))
                | EOL \<Rightarrow> Inr p)
      | EAT_CRNL \<Rightarrow>
          if is_crlf c then Inr p
          else if c = EOL then Inr (p\<lparr>pstate := START_RECORD\<rparr>)
          else Inl CsvError)"

fun process_chars :: "parser \<Rightarrow> pchar list \<Rightarrow> parser result" where
  "process_chars p [] = Inr p"
| "process_chars p (c # cs) = bindE (parse_process_char p c) (\<lambda>p'. process_chars p' cs)"

text \<open>One line of the input: its characters, then \<open>EOL\<close>.\<close>

definition process_line :: "parser \<Rightarrow> nat list \<Rightarrow> parser result" where
  "process_line p l = process_chars p (map Chr l @ [EOL])"

text \<open>
  \<open>Reader_iternext\<close>: lines are read until the parser is back in \<open>START_RECORD\<close>;
  at the end of the input a pending field (a non-empty one, or an open quoted one) is
  saved and its record returned, and otherwise the iteration stops (\<open>None\<close>).
\<close>

fun read_record :: "parser \<Rightarrow> nat list list \<Rightarrow> (nat list list \<times> nat list list) option result" where
  "read_record p [] =
     (if pfield p \<noteq> [] \<or> pstate p = IN_QUOTED_FIELD then Inr (Some (pfields (parse_save_field p), []))
      else Inr None)"
| "read_record p (l # ls) =
     bindE (process_line p l) (\<lambda>p'.
       if pstate p' = START_RECORD then Inr (Some (pfields p', ls)) else read_record p' ls)"

text \<open>\<open>io.StringIO(text)\<close> read line by line: each line ends after a line feed.\<close>

fun lines_acc :: "nat list \<Rightarrow> nat list \<Rightarrow> nat list list" where
  "lines_acc cur [] = (if cur = [] then [] else [cur])"
| "lines_acc cur (c # cs) = (if c = 10 then (cur @ [c]) # lines_acc [] cs else lines_acc (cur @ [c]) cs)"

definition lines_of :: "nat list \<Rightarrow> nat list list" where
  "lines_of text = lines_acc [] text"

lemma read_record_rest:
  "read_record p (l # ls) = Inr (Some (row, ls')) \<Longrightarrow> length ls' \<le> length ls"
proof (induction ls arbitrary: p l)
  case Nil
  then show ?case by (auto simp: bindE_eq_Inr split: if_splits)
next
  case (Cons l' ls)
  then show ?case
    by (fastforce simp: bindE_eq_Inr split: if_splits)
qed

lemma read_record_reset_rest:
  "read_record parse_reset ls = Inr (Some (row, ls')) \<Longrightarrow> length ls' < length ls"
proof (cases ls)
  case Nil
  moreover assume "read_record parse_reset ls = Inr (Some (row, ls'))"
  ultimately show ?thesis
    by (simp add: parse_reset_def)
next
  case (Cons l ls0)
  moreover assume "read_record parse_reset ls = Inr (Some (row, ls'))"
  ultimately show ?thesis
    using read_record_rest [of parse_reset l ls0 row ls'] by simp
qed

function csv_rows :: "nat list list \<Rightarrow> nat list list list result" where
  "csv_rows ls =
     bindE (read_record parse_reset ls) (\<lambda>r.
       case r of
         None \<Rightarrow> Inr []
       | Some (row, ls') \<Rightarrow> bindE (csv_rows ls') (\<lambda>rows. Inr (row # rows)))"
  by pat_completeness auto
termination
  by (relation "measure length") (auto dest: read_record_reset_rest)

definition csv_reader :: "nat list \<Rightarrow> nat list list list result" where
  "csv_reader text = csv_rows (lines_of text)"

declare csv_rows.simps [simp del] parse_process_char.simps [simp del]

subsection \<open>Lines\<close>

lemma lines_acc_no_lf:
  "10 \<notin> set xs \<Longrightarrow> lines_acc cur (xs @ ys) = lines_acc (cur @ xs) ys"
  by (induction xs arbitrary: cur) auto

lemma lines_acc_line:
  "10 \<notin> set xs \<Longrightarrow> lines_acc cur (xs @ 10 # ys) = (cur @ xs @ [10]) # lines_acc [] ys"
  by (simp add: lines_acc_no_lf)

lemma lines_acc_nonempty: "cur \<noteq> [] \<Longrightarrow> \<exists>m ls. lines_acc cur ys = (cur @ m) # ls"
proof (induction ys arbitrary: cur)
  case Nil
  then show ?case by simp
next
  case (Cons y ys)
  show ?case
  proof (cases "y = 10")
    case True
    then show ?thesis by simp
  next
    case False
    obtain m ls where "lines_acc (cur @ [y]) ys = (cur @ [y] @ m) # ls"
      using Cons.IH [of "cur @ [y]"] by auto
    with False show ?thesis by auto
  qed
qed

subsection \<open>Plain fields\<close>

text \<open>A code point with no role in the dialect: not a line feed, carriage return, quote or comma.\<close>

definition plain :: "nat \<Rightarrow> bool" where
  "plain c \<longleftrightarrow> c \<noteq> 10 \<and> c \<noteq> 13 \<and> c \<noteq> 34 \<and> c \<noteq> 44"

lemma process_chars_append:
  "process_chars p (xs @ ys) = bindE (process_chars p xs) (\<lambda>p'. process_chars p' ys)"
proof (induction xs arbitrary: p)
  case Nil
  then show ?case by simp
next
  case (Cons x xs)
  then show ?case
    by (cases "parse_process_char p x") simp_all
qed

lemma in_field_plain:
  assumes "pstate p = IN_FIELD" "\<forall>c\<in>set xs. plain c" "length (pfield p) + length xs \<le> field_limit"
  shows "process_chars p (map Chr xs @ cs) = process_chars (p\<lparr>pfield := pfield p @ xs\<rparr>) cs"
  using assms
proof (induction xs arbitrary: p)
  case Nil
  then show ?case by simp
next
  case (Cons x xs)
  then have "parse_process_char p (Chr x) = Inr (p\<lparr>pfield := pfield p @ [x]\<rparr>)"
    by (simp add: parse_process_char.simps plain_def is_crlf_def parse_add_char_def)
  with Cons.IH [of "p\<lparr>pfield := pfield p @ [x]\<rparr>"] Cons.prems show ?case
    by simp
qed

lemma in_field_plain_limit:
  assumes "pstate p = IN_FIELD" "\<forall>c\<in>set xs. plain c" "length (pfield p) \<le> field_limit"
    "field_limit < length (pfield p) + length xs"
  shows "process_chars p (map Chr xs @ cs) = Inl CsvError"
  using assms
proof (induction xs arbitrary: p)
  case Nil
  then show ?case by simp
next
  case (Cons x xs)
  show ?case
  proof (cases "field_limit \<le> length (pfield p)")
    case True
    with Cons.prems show ?thesis
      by (simp add: parse_process_char.simps plain_def is_crlf_def parse_add_char_def)
  next
    case False
    with Cons.prems have "parse_process_char p (Chr x) = Inr (p\<lparr>pfield := pfield p @ [x]\<rparr>)"
      by (simp add: parse_process_char.simps plain_def is_crlf_def parse_add_char_def)
    with False Cons.IH [of "p\<lparr>pfield := pfield p @ [x]\<rparr>"] Cons.prems show ?thesis
      by simp
  qed
qed

subsection \<open>Rows of plain fields\<close>

definition plain_field :: "nat list \<Rightarrow> bool" where
  "plain_field f \<longleftrightarrow> (\<forall>c\<in>set f. plain c) \<and> length f \<le> field_limit"

text \<open>A row written as its fields joined by commas and ended by a line feed.\<close>

fun join_fields :: "nat list list \<Rightarrow> nat list" where
  "join_fields [] = []"
| "join_fields [f] = f"
| "join_fields (f # g # fs) = f @ 44 # join_fields (g # fs)"

definition render_row :: "nat list list \<Rightarrow> nat list" where
  "render_row r = join_fields r @ [10]"

lemma field_then_comma:
  assumes "pstate p = START_FIELD" "pfield p = []" "plain_field f"
  shows "process_chars p (map Chr f @ Chr 44 # cs) =
           process_chars (p\<lparr>pfields := pfields p @ [f]\<rparr>) cs"
proof (cases f)
  case Nil
  with assms show ?thesis
    by (cases p) (simp add: parse_process_char.simps start_field_def is_crlf_def parse_save_field_def)
next
  case (Cons x f')
  with assms have x: "parse_process_char p (Chr x) = Inr (p\<lparr>pfield := [x], pstate := IN_FIELD\<rparr>)"
    by (simp add: parse_process_char.simps start_field_def is_crlf_def plain_field_def plain_def
        parse_add_char_def field_limit_def)
  then have "process_chars p (map Chr f @ Chr 44 # cs) =
      process_chars (p\<lparr>pfield := [x], pstate := IN_FIELD\<rparr>) (map Chr f' @ Chr 44 # cs)"
    using Cons by simp
  also have "\<dots> = process_chars (p\<lparr>pstate := IN_FIELD, pfield := x # f'\<rparr>) (Chr 44 # cs)"
    using Cons assms by (subst in_field_plain) (simp_all add: plain_field_def)
  also have "\<dots> = process_chars (p\<lparr>pfields := pfields p @ [f]\<rparr>) cs"
    using Cons assms by (cases p) (simp add: parse_process_char.simps is_crlf_def parse_save_field_def)
  finally show ?thesis .
qed

lemma field_then_eol:
  assumes "pstate p = START_FIELD" "pfield p = []" "plain_field f"
  shows "process_chars p (map Chr f @ [Chr 10, EOL]) =
           Inr (p\<lparr>pstate := START_RECORD, pfields := pfields p @ [f]\<rparr>)"
proof (cases f)
  case Nil
  with assms show ?thesis
    by (cases p) (simp add: parse_process_char.simps start_field_def is_crlf_def parse_save_field_def
        end_state_def)
next
  case (Cons x f')
  with assms have x: "parse_process_char p (Chr x) = Inr (p\<lparr>pfield := [x], pstate := IN_FIELD\<rparr>)"
    by (simp add: parse_process_char.simps start_field_def is_crlf_def plain_field_def plain_def
        parse_add_char_def field_limit_def)
  then have "process_chars p (map Chr f @ [Chr 10, EOL]) =
      process_chars (p\<lparr>pfield := [x], pstate := IN_FIELD\<rparr>) (map Chr f' @ [Chr 10, EOL])"
    using Cons by simp
  also have "\<dots> = process_chars (p\<lparr>pstate := IN_FIELD, pfield := x # f'\<rparr>) [Chr 10, EOL]"
    using Cons assms by (subst in_field_plain) (simp_all add: plain_field_def)
  also have "\<dots> = Inr (p\<lparr>pstate := START_RECORD, pfields := pfields p @ [f]\<rparr>)"
    using Cons assms
    by (cases p) (simp add: parse_process_char.simps is_crlf_def parse_save_field_def end_state_def)
  finally show ?thesis .
qed

lemma fields_then_eol:
  assumes "pstate p = START_FIELD" "pfield p = []" "r \<noteq> []" "\<forall>f\<in>set r. plain_field f"
  shows "process_chars p (map Chr (join_fields r) @ [Chr 10, EOL]) =
           Inr (p\<lparr>pstate := START_RECORD, pfields := pfields p @ r\<rparr>)"
  using assms
proof (induction r arbitrary: p rule: join_fields.induct)
  case 1
  then show ?case by simp
next
  case (2 f)
  then show ?case by (simp add: field_then_eol)
next
  case (3 f g fs)
  then have "process_chars p (map Chr (join_fields (f # g # fs)) @ [Chr 10, EOL]) =
      process_chars (p\<lparr>pfields := pfields p @ [f]\<rparr>) (map Chr (join_fields (g # fs)) @ [Chr 10, EOL])"
    using field_then_comma [of p f] by simp
  with "3.IH" [of "p\<lparr>pfields := pfields p @ [f]\<rparr>"] "3.prems" show ?case
    by simp
qed

lemma start_record_as_field:
  "pstate p = START_RECORD \<Longrightarrow> c \<noteq> EOL \<Longrightarrow> \<not> is_crlf c \<Longrightarrow>
   parse_process_char p c = parse_process_char (p\<lparr>pstate := START_FIELD\<rparr>) c"
  by (simp add: parse_process_char.simps)

lemma read_record_reset_Nil: "read_record parse_reset [] = Inr None"
  by (simp add: parse_reset_def)

lemma join_fields_first:
  assumes "r \<noteq> []" "r \<noteq> [[]]" "\<forall>f\<in>set r. plain_field f"
  shows "\<exists>c cs. join_fields r = c # cs \<and> c \<noteq> 10 \<and> c \<noteq> 13"
proof -
  obtain f rs where r: "r = f # rs"
    using assms(1) by (cases r) auto
  show ?thesis
  proof (cases f)
    case Nil
    with r assms(2) obtain g gs where "rs = g # gs"
      by (cases rs) auto
    with r Nil show ?thesis by simp
  next
    case (Cons x f')
    with r assms(3) have "plain x"
      by (simp add: plain_field_def)
    with r Cons show ?thesis
      by (cases rs) (auto simp: plain_def)
  qed
qed

lemma process_line_render:
  assumes "r \<noteq> [[]]" "\<forall>f\<in>set r. plain_field f"
  shows "process_line parse_reset (render_row r) = Inr \<lparr>pstate = START_RECORD, pfields = r, pfield = []\<rparr>"
proof (cases "r = []")
  case True
  then show ?thesis
    by (simp add: process_line_def render_row_def parse_reset_def parse_process_char.simps is_crlf_def)
next
  case False
  with assms obtain c cs where j: "join_fields r = c # cs" "c \<noteq> 10" "c \<noteq> 13"
    using join_fields_first by blast
  have "process_line parse_reset (render_row r) =
      process_chars parse_reset (Chr c # map Chr cs @ [Chr 10, EOL])"
    by (simp add: process_line_def render_row_def j)
  also have "\<dots> = process_chars (parse_reset\<lparr>pstate := START_FIELD\<rparr>) (Chr c # map Chr cs @ [Chr 10, EOL])"
    using j start_record_as_field [of parse_reset "Chr c"]
    by (simp add: parse_reset_def is_crlf_def)
  also have "\<dots> = Inr \<lparr>pstate = START_RECORD, pfields = r, pfield = []\<rparr>"
    using fields_then_eol [of "parse_reset\<lparr>pstate := START_FIELD\<rparr>" r] False assms j
    by (simp add: parse_reset_def)
  finally show ?thesis .
qed

lemma csv_rows_Nil: "csv_rows [] = Inr []"
  by (subst csv_rows.simps) (simp only: read_record_reset_Nil bindE_Inr option.case)

lemma csv_rows_step:
  "read_record parse_reset ls = Inr (Some (r, ls')) \<Longrightarrow>
   csv_rows ls = bindE (csv_rows ls') (\<lambda>rows. Inr (r # rows))"
  by (subst csv_rows.simps) (simp only: bindE_Inr option.case prod.case)

lemma csv_rows_render:
  assumes "\<forall>r\<in>set rows. r \<noteq> [[]] \<and> (\<forall>f\<in>set r. plain_field f)"
  shows "csv_rows (map render_row rows) = Inr rows"
  using assms
proof (induction rows)
  case Nil
  then show ?case by (simp add: csv_rows_Nil)
next
  case (Cons r rows)
  then have "read_record parse_reset (render_row r # map render_row rows) = Inr (Some (r, map render_row rows))"
    by (simp add: process_line_render)
  with Cons show ?case
    by (simp add: csv_rows_step)
qed

lemma set_join_fields: "set (join_fields r) \<subseteq> insert 44 (\<Union>f\<in>set r. set f)"
  by (induction r rule: join_fields.induct) auto

lemma render_row_no_lf:
  "\<forall>f\<in>set r. plain_field f \<Longrightarrow> 10 \<notin> set (join_fields r)"
  by (induction r rule: join_fields.induct) (auto simp: plain_field_def plain_def)

lemma lines_of_render:
  "\<forall>r\<in>set rows. \<forall>f\<in>set r. plain_field f \<Longrightarrow>
   lines_of (concat (map render_row rows)) = map render_row rows"
proof (induction rows)
  case Nil
  then show ?case by (simp add: lines_of_def)
next
  case (Cons r rows)
  then have "10 \<notin> set (join_fields r)"
    by (simp add: render_row_no_lf)
  with Cons show ?case
    by (simp add: lines_of_def render_row_def lines_acc_line)
qed

text \<open>
  C20: round trip. A text of lines, each the fields of a row joined by commas and ended
  by a line feed, where no field holds a comma, quote, carriage return or line feed or
  exceeds the field size limit, is read back by \<open>csv.reader\<close> as exactly those rows
  (a row with one empty field excepted: its line is blank, and a blank line is read as
  the empty row).
\<close>

theorem csv_reader_render:
  "\<forall>r\<in>set rows. r \<noteq> [[]] \<and> (\<forall>f\<in>set r. plain_field f) \<Longrightarrow>
   csv_reader (concat (map render_row rows)) = Inr rows"
  by (simp add: csv_reader_def lines_of_render csv_rows_render)

subsection \<open>Errors\<close>


theorem csv_reader_render_witness:
  "csv_reader [68, 44, 49, 10, 69, 10] = Inr [[[68], [49]], [[69]]]"
  using csv_reader_render [of "[[[68], [49]], [[69]]]"]
  by (simp add: plain_field_def plain_def field_limit_def render_row_def)
lemma csv_rows_Inl: "read_record parse_reset ls = Inl e \<Longrightarrow> csv_rows ls = Inl e"
  by (subst csv_rows.simps) simp

lemma read_record_Inl: "process_line p l = Inl e \<Longrightarrow> read_record p (l # ls) = Inl e"
  by simp

lemma reset_plain:
  "plain x \<Longrightarrow> parse_process_char parse_reset (Chr x) =
     Inr \<lparr>pstate = IN_FIELD, pfields = [], pfield = [x]\<rparr>"
  by (simp add: parse_process_char.simps parse_reset_def start_field_def is_crlf_def plain_def
      parse_add_char_def field_limit_def)

lemma first_line:
  assumes "xs \<noteq> []" "10 \<notin> set xs"
  obtains m ls where "lines_of (xs @ rest) = (xs @ m) # ls"
  using assms lines_acc_nonempty [of xs rest] by (auto simp: lines_of_def lines_acc_no_lf)

text \<open>
  C24: a carriage return inside a line that is not the end of the line (a file with
  classic Mac line ends, or a stray carriage return in an unquoted cell) makes
  \<open>csv.reader\<close> raise \<open>csv.Error\<close> ("new-line character seen in unquoted field"), since
  \<open>io.StringIO\<close> splits lines at line feeds only.
\<close>

theorem csv_reader_stray_cr:
  assumes "\<forall>x\<in>set f. plain x" "length f \<le> field_limit" "c \<noteq> 10" "c \<noteq> 13"
  shows "csv_reader (f @ 13 # c # rest) = Inl CsvError"
proof -
  have "f @ [13, c] \<noteq> []" "10 \<notin> set (f @ [13, c])"
    using assms(1,3) by (auto simp: plain_def)
  then obtain m ls where l: "lines_of ((f @ [13, c]) @ rest) = (f @ [13, c] @ m) # ls"
    by (rule first_line) simp
  have e: "process_chars p (Chr c # cs) = Inl CsvError" if "pstate p = EAT_CRNL" for p cs
    using that assms(3,4) by (simp add: parse_process_char.simps is_crlf_def)
  have "process_line parse_reset (f @ [13, c] @ m) = Inl CsvError"
  proof (cases f)
    case Nil
    then show ?thesis
      using e by (simp add: process_line_def parse_process_char.simps parse_reset_def is_crlf_def)
  next
    case (Cons x f')
    with assms have "process_line parse_reset (f @ [13, c] @ m) =
        process_chars \<lparr>pstate = IN_FIELD, pfields = [], pfield = [x]\<rparr>
          (map Chr f' @ Chr 13 # Chr c # map Chr m @ [EOL])"
      by (simp add: process_line_def reset_plain)
    also have "\<dots> = process_chars \<lparr>pstate = IN_FIELD, pfields = [], pfield = x # f'\<rparr>
          (Chr 13 # Chr c # map Chr m @ [EOL])"
      using Cons assms(1,2) by (subst in_field_plain) simp_all
    also have "\<dots> = Inl CsvError"
      using e by (simp add: parse_process_char.simps is_crlf_def parse_save_field_def end_state_def)
    finally show ?thesis .
  qed
  then show ?thesis
    using l by (simp add: csv_reader_def csv_rows_Inl read_record_Inl)
qed


theorem csv_reader_stray_cr_witness:
  "csv_reader [65, 13, 66] = Inl CsvError"
  using csv_reader_stray_cr [of "[65]" 66 "[]"]
  by (simp add: plain_def field_limit_def)
text \<open>
  C25: a field longer than \<open>csv.field_size_limit()\<close> (131072 characters) makes
  \<open>csv.reader\<close> raise \<open>csv.Error\<close> ("field larger than field limit").
\<close>

theorem csv_reader_field_limit:
  assumes "\<forall>x\<in>set f. plain x" "field_limit < length f"
  shows "csv_reader (f @ rest) = Inl CsvError"
proof -
  obtain x f' where f: "f = x # f'"
    using assms(2) by (cases f) auto
  have "f \<noteq> []" "10 \<notin> set f"
    using assms(1) f by (auto simp: plain_def)
  then obtain m ls where l: "lines_of (f @ rest) = (f @ m) # ls"
    by (rule first_line)
  from assms f have "process_line parse_reset (f @ m) =
      process_chars \<lparr>pstate = IN_FIELD, pfields = [], pfield = [x]\<rparr> (map Chr f' @ map Chr m @ [EOL])"
    by (simp add: process_line_def reset_plain)
  also have "\<dots> = Inl CsvError"
    using assms f by (intro in_field_plain_limit) (simp_all add: field_limit_def)
  finally show ?thesis
    using l by (simp add: csv_reader_def csv_rows_Inl read_record_Inl)
qed

subsection \<open>Progress of the record loop\<close>


theorem csv_reader_field_limit_witness:
  "csv_reader (replicate (Suc field_limit) 65) = Inl CsvError"
  using csv_reader_field_limit [of "replicate (Suc field_limit) 65" "[]"]
  by (simp add: plain_def)
lemma csv_rows_length:
  "csv_rows ls = Inr rows \<Longrightarrow> length rows \<le> length ls"
proof (induction ls arbitrary: rows rule: csv_rows.induct)
  case (1 ls)
  show ?case
  proof (cases "read_record parse_reset ls")
    case (Inl e)
    with "1.prems" show ?thesis by (simp add: csv_rows_Inl)
  next
    case (Inr r)
    show ?thesis
    proof (cases r)
      case None
      with Inr "1.prems" show ?thesis
        by (subst (asm) csv_rows.simps) simp
    next
      case (Some x)
      obtain row ls' where x: "x = (row, ls')" by (cases x)
      with Some Inr "1.prems" obtain rows' where "csv_rows ls' = Inr rows'" "rows = row # rows'"
        by (auto simp: csv_rows_step bindE_eq_Inr)
      with "1.IH" [OF Inr Some x [symmetric]] read_record_reset_rest [of ls row ls'] Inr Some x
      show ?thesis
        by simp
    qed
  qed
qed

text \<open>
  C28: termination of the reader's loop. Every record \<open>Reader_iternext\<close> returns
  consumes at least one line of the input, so \<open>for row in reader\<close> ends after at
  most as many rows as the text has lines.
\<close>

theorem csv_reader_rows_bound:
  "csv_reader text = Inr rows \<Longrightarrow> length rows \<le> length (lines_of text)"
  by (simp add: csv_reader_def csv_rows_length)


theorem csv_reader_rows_bound_witness:
  "csv_reader [34, 97, 10, 98, 34, 10] = Inr [[[97, 10, 98]]] \<and>
   length [[[97::nat, 10, 98]]] \<le> length (lines_of [34, 97, 10, 98, 34, 10])"
proof -
  have l: "lines_of [34, 97, 10, 98, 34, 10] = [[34, 97, 10], [98, 34, 10]]"
    by (simp add: lines_of_def)
  have "read_record parse_reset [[34, 97, 10], [98, 34, 10]] = Inr (Some ([[97, 10, 98]], []))"
    by (simp add: process_line_def parse_process_char.simps parse_reset_def parse_save_field_def
        parse_add_char_def start_field_def end_state_def is_crlf_def field_limit_def)
  then have r: "csv_reader [34, 97, 10, 98, 34, 10] = Inr [[[97, 10, 98]]]"
    by (simp add: csv_reader_def l csv_rows_step csv_rows_Nil)
  show ?thesis
    using csv_reader_rows_bound [OF r] r by simp
qed

subsection \<open>Records end at the end of their line\<close>

text \<open>The states outside a quoted field: from them an end of line ends the record.\<close>

definition unquoted :: "pstate \<Rightarrow> bool" where
  "unquoted s \<longleftrightarrow> s \<noteq> IN_QUOTED_FIELD \<and> s \<noteq> QUOTE_IN_QUOTED_FIELD"

lemma unquoted_step:
  assumes "unquoted (pstate p)" "x \<noteq> 34" "parse_process_char p (Chr x) = Inr p'"
  shows "unquoted (pstate p')"
  using assms
  by (cases "pstate p")
     (auto simp: unquoted_def parse_process_char.simps start_field_def parse_save_field_def
        parse_add_char_def is_crlf_def end_state_def bindE_eq_Inr split: if_splits)

lemma unquoted_eol:
  assumes "unquoted (pstate p)" "parse_process_char p EOL = Inr p'"
  shows "pstate p' = START_RECORD"
  using assms
  by (cases "pstate p")
     (auto simp: unquoted_def parse_process_char.simps start_field_def parse_save_field_def
        is_crlf_def end_state_def split: if_splits)

lemma unquoted_chars:
  "unquoted (pstate p) \<Longrightarrow> 34 \<notin> set l \<Longrightarrow> process_chars p (map Chr l) = Inr p' \<Longrightarrow>
   unquoted (pstate p')"
proof (induction l arbitrary: p)
  case Nil
  then show ?case by simp
next
  case (Cons x l)
  then obtain q where "parse_process_char p (Chr x) = Inr q" "process_chars q (map Chr l) = Inr p'"
    by (auto simp: bindE_eq_Inr)
  with Cons show ?case
    using unquoted_step [of p x q] by simp
qed

lemma process_line_unquoted:
  assumes "unquoted (pstate p)" "34 \<notin> set l" "process_line p l = Inr p'"
  shows "pstate p' = START_RECORD"
proof -
  from assms(3) obtain q where "process_chars p (map Chr l) = Inr q" "parse_process_char q EOL = Inr p'"
    by (auto simp: process_line_def process_chars_append bindE_eq_Inr)
  with assms(1,2) show ?thesis
    using unquoted_chars unquoted_eol by blast
qed

lemma csv_rows_unquoted:
  "\<forall>l\<in>set ls. 34 \<notin> set l \<Longrightarrow> csv_rows ls = Inr rows \<Longrightarrow> length rows = length ls"
proof (induction ls arbitrary: rows)
  case Nil
  then show ?case by (simp add: csv_rows_Nil)
next
  case (Cons l ls)
  show ?case
  proof (cases "process_line parse_reset l")
    case (Inl e)
    with Cons.prems show ?thesis by (simp add: csv_rows_Inl)
  next
    case (Inr p')
    have "pstate p' = START_RECORD"
      using process_line_unquoted [OF _ _ Inr] Cons.prems(1) by (simp add: unquoted_def parse_reset_def)
    with Inr have "read_record parse_reset (l # ls) = Inr (Some (pfields p', ls))"
      by simp
    with Cons.prems obtain rows' where "csv_rows ls = Inr rows'" "rows = pfields p' # rows'"
      by (auto simp: csv_rows_step bindE_eq_Inr)
    with Cons show ?thesis by simp
  qed
qed

lemma set_lines_acc: "l \<in> set (lines_acc cur cs) \<Longrightarrow> set l \<subseteq> set cur \<union> set cs"
  by (induction cur cs rule: lines_acc.induct) (auto split: if_splits)

text \<open>
  C29: progress of the reader. A line without a double quote brings the parser back to
  \<open>START_RECORD\<close> at its end, so every such line ends its record: a quote-free text
  that is read without error gives exactly one row per line (an empty row for an
  empty line).
\<close>

theorem csv_reader_one_row_per_line:
  "34 \<notin> set text \<Longrightarrow> csv_reader text = Inr rows \<Longrightarrow> length rows = length (lines_of text)"
  unfolding csv_reader_def lines_of_def
  by (erule csv_rows_unquoted [rotated]) (auto dest!: set_lines_acc)

theorem csv_reader_one_row_per_line_witness:
  "csv_reader [65, 10, 10, 66, 44, 67] = Inr [[[65]], [], [[66], [67]]] \<and>
   length [[[65::nat]], [], [[66], [67]]] = length (lines_of [65, 10, 10, 66, 44, 67])"
proof -
  have l: "lines_of [65, 10, 10, 66, 44, 67] = [[65, 10], [10], [66, 44, 67]]"
    by (simp add: lines_of_def)
  have r1: "read_record parse_reset [[65, 10], [10], [66, 44, 67]] = Inr (Some ([[65]], [[10], [66, 44, 67]]))"
    by (simp add: process_line_def parse_process_char.simps parse_reset_def parse_save_field_def
        parse_add_char_def start_field_def end_state_def is_crlf_def field_limit_def)
  have r2: "read_record parse_reset [[10], [66, 44, 67]] = Inr (Some ([], [[66, 44, 67]]))"
    by (simp add: process_line_def parse_process_char.simps parse_reset_def parse_save_field_def
        parse_add_char_def start_field_def end_state_def is_crlf_def field_limit_def)
  have r3: "read_record parse_reset [[66, 44, 67]] = Inr (Some ([[66], [67]], []))"
    by (simp add: process_line_def parse_process_char.simps parse_reset_def parse_save_field_def
        parse_add_char_def start_field_def end_state_def is_crlf_def field_limit_def)
  have r: "csv_reader [65, 10, 10, 66, 44, 67] = Inr [[[65]], [], [[66], [67]]]"
    by (simp add: csv_reader_def l csv_rows_step [OF r1] csv_rows_step [OF r2] csv_rows_step [OF r3]
        csv_rows_Nil)
  show ?thesis
    using csv_reader_one_row_per_line [OF _ r] r by simp
qed

end
