(* ===== verification/Upload.thy ===== *)
theory Upload
  imports Utf8 Csv Endpoint
begin

text \<open>
  The upload as the handler reads it: \<open>csv.reader(io.StringIO(stream.read().decode("utf-8")))\<close>
  (line 26 of \<open>src/main.py\<close>), the composition of \<open>Utf8\<close> and \<open>Csv\<close>, and its use as
  the reader of the route \<open>process\<close> of \<open>Endpoint\<close>. The reducer works on strings of
  the characters U+0000..U+00FF; \<open>model_text\<close> turns a cell of code points into such
  a string, exactly for cells in that range, which the theorems below that go through
  the reducer assume.
\<close>

definition read_upload :: "8 word list \<Rightarrow> nat list list list result" where
  "read_upload bs = bindE (utf8_decode bs) csv_reader"

definition model_text :: "nat list \<Rightarrow> string" where
  "model_text cs = map char_of cs"

definition upload_rows :: "8 word list \<Rightarrow> row list result" where
  "upload_rows bs = bindE (read_upload bs) (\<lambda>rows. Inr (map (map model_text) rows))"


lemma read_upload_render:
  assumes "\<forall>c\<in>set (concat (map render_row rows)). is_scalar c"
    and "\<forall>r\<in>set rows. r \<noteq> [[]] \<and> (\<forall>f\<in>set r. plain_field f)"
  shows "read_upload (utf8_encode (concat (map render_row rows))) = Inr rows"
  using utf8_decode_encode_append [OF assms(1), of "[]"] assms(2)
  by (simp add: read_upload_def csv_reader_def lines_of_render csv_rows_render)

text \<open>
  C30: an upload saved with a UTF-8 byte-order mark is read with U+FEFF at the start of
  its first cell, so that cell does not start with \<open>Driver:\<close> and the first header row
  of the file is not recognised as one.
\<close>

theorem read_upload_bom:
  assumes "\<forall>c\<in>set (concat (map render_row ((f # r) # rows))). is_scalar c"
    and "\<forall>r\<in>set ((f # r) # rows). r \<noteq> [[]] \<and> (\<forall>f\<in>set r. plain_field f)"
    and "length f < field_limit"
  shows "read_upload (0xEF # 0xBB # 0xBF # utf8_encode (concat (map render_row ((f # r) # rows)))) =
           Inr (((0xFEFF # f) # r) # rows) \<and>
         take 7 (0xFEFF # f) \<noteq> map of_char ''Driver:''"
proof -
  have bom: "0xEF # 0xBB # 0xBF # utf8_encode (concat (map render_row ((f # r) # rows))) =
      utf8_encode (concat (map render_row (((0xFEFF # f) # r) # rows)))"
    by (cases r) (simp_all add: utf8_encode_def utf8_encode_char_def render_row_def)
  have "plain_field (0xFEFF # f)"
    using assms(2,3) by (simp add: plain_field_def plain_def)
  with assms(2) have rs: "\<forall>r\<in>set (((0xFEFF # f) # r) # rows). r \<noteq> [[]] \<and> (\<forall>f\<in>set r. plain_field f)"
    by auto
  have sc: "\<forall>c\<in>set (concat (map render_row (((0xFEFF # f) # r) # rows))). is_scalar c"
    using assms(1) by (cases r) (auto simp: render_row_def is_scalar_def)
  have "read_upload (utf8_encode (concat (map render_row (((0xFEFF # f) # r) # rows)))) =
      Inr (((0xFEFF # f) # r) # rows)"
    by (rule read_upload_render [OF sc rs])
  then show ?thesis
    unfolding bom by simp
qed


theorem read_upload_bom_witness:
  "read_upload (0xEF # 0xBB # 0xBF # utf8_encode [68, 114, 105, 118, 101, 114, 58, 10]) =
     Inr [[[0xFEFF, 68, 114, 105, 118, 101, 114, 58]]] \<and>
   take 7 [0xFEFF::nat, 68, 114, 105, 118, 101, 114, 58] \<noteq> map of_char ''Driver:''"
  using read_upload_bom [of "[68, 114, 105, 118, 101, 114, 58]" "[]" "[]"]
  by (simp add: is_scalar_def render_row_def plain_field_def plain_def field_limit_def)
lemma upload_rows_high_then_ascii:
  assumes "bs' = utf8_encode cps @ b # c # bs" "\<forall>x\<in>set cps. is_scalar x"
    and "0x80 \<le> unat b" "unat c < 0x80"
  shows "upload_rows bs' = Inl UnicodeDecodeError"
  using assms by (auto simp: upload_rows_def read_upload_def utf8_decode_encode_append
      utf8_char_def Let_def in_range_def split: list.splits)

text \<open>
  C23: an accepted \<open>.csv\<close> upload in a single-byte encoding (Latin-1, Windows-1252)
  with a non-ASCII byte followed by an ASCII one, after any well-formed prefix, is
  answered with 500: the decoding raises inside \<open>process_csv\<close> and the handler does
  not catch it.
\<close>

theorem process_non_utf8_upload:
  assumes "map_of (files req) ''file'' = Some f" "py_endswith (py_lower (filename f)) ''.csv''"
    and "stream f = utf8_encode cps @ b # c # bs" "\<forall>x\<in>set cps. is_scalar x"
    and "0x80 \<le> unat b" "unat c < 0x80"
  shows "process upload_rows req = InternalServerError"
  using upload_rows_high_then_ascii [OF assms(3-6)] assms(1,2)
  by (simp add: process_def valid_filename_iff)


theorem process_non_utf8_upload_witness:
  "process upload_rows \<lparr>files = [(''file'', \<lparr>filename = ''log.csv'', stream = [74, 111, 115, 0xE9, 0x73]\<rparr>)]\<rparr> =
     InternalServerError"
proof -
  have "py_endswith (py_lower ''log.csv'') ''.csv''"
    by (simp add: model_eval)
  moreover have "[74, 111, 115, 0xE9, 0x73] = utf8_encode [74, 111, 115] @ 0xE9 # 0x73 # ([] :: 8 word list)"
    by (simp add: utf8_encode_def utf8_encode_char_def)
  ultimately show ?thesis
    using process_non_utf8_upload [of "\<lparr>files = [(''file'', \<lparr>filename = ''log.csv'', stream = [74, 111, 115, 0xE9, 0x73]\<rparr>)]\<rparr>"
        "\<lparr>filename = ''log.csv'', stream = [74, 111, 115, 0xE9, 0x73]\<rparr>" "[74, 111, 115]" "0xE9" "0x73" "[]"]
    by (simp add: is_scalar_def)
qed


end
