(* ===== verification/App.thy ===== *)
theory App
  imports Upload
begin

text \<open>
  The Flask application around the view \<open>process\<close>: \<open>app = Flask(__name__)\<close> and
  \<open>CORS(app)\<close> (lines 8--9 of \<open>src/main.py\<close>), the route
  \<open>@app.route("/api/process", methods=["POST"])\<close> (line 86) and the start-up under
  \<open>if __name__ == "__main__"\<close> (lines 106--107). A request is answered in three steps:
  werkzeug's URL map matches the path and the method against the route and the static
  rule (a 308 redirect when only the path with its slashes merged matches, 404 for no
  rule, 405 for a method the rule does not list); Flask answers \<open>OPTIONS\<close> itself,
  since the rule does not list it (\<open>provide_automatic_options\<close>), the static view
  finds no file, and for \<open>POST\<close> the view runs, reading the form first (413 over
  werkzeug's limits); then flask-cors, with its defaults (every origin, \<open>send_wildcard\<close> off,
  \<open>always_send\<close> on, exceptions intercepted), adds its headers to every response,
  the error responses and the 500 of an uncaught exception included. The headers are
  \<open>Access-Control-Allow-Origin\<close>, which echoes a non-empty \<open>Origin\<close> of the request
  and is \<open>*\<close> otherwise, and \<open>Vary: Origin\<close> when the origin is echoed. The
  further headers of a preflight (\<open>Access-Control-Allow-Methods\<close> and
  \<open>-Headers\<close>) and Flask's \<open>Allow\<close> header text are not modelled.
\<close>

datatype http_method = GET | HEAD | POST | PUT | DELETE | PATCH | OPTIONS | TRACE | CONNECT

text \<open>
  A request: its method, its path (decoded, without the query string), its
  \<open>Origin\<close> header, whether its multipart body exceeds werkzeug's form-parser limits
  (more than \<open>max_form_parts\<close> parts, or a non-file field over
  \<open>max_form_memory_size\<close>), and the uploaded files it carries.
\<close>

record 'b http_request =
  request_method :: http_method
  path :: string
  origin :: "string option"
  form_too_large :: bool
  form :: "'b request"

text \<open>What routing and the view answer, before flask-cors adds its headers.\<close>

datatype reply =
    View response
  | NotFound
  | MethodNotAllowed "http_method list"
  | DefaultOptions "http_method list"
  | Redirect string

record http_response =
  status :: nat
  cors :: "(string \<times> string) list"
  reply :: reply

text \<open>
  The URL map of \<open>app\<close>: the rule of line 86 and the rule \<open>/static/<path:filename>\<close>
  that \<open>Flask(__name__)\<close> adds for its default static folder (line 8). Each rule lists
  its methods: \<open>POST\<close> and the \<open>OPTIONS\<close> Flask adds to a rule that does not list
  it, and for the static view \<open>GET\<close>, the \<open>HEAD\<close> added to rules listing \<open>GET\<close>, and
  \<open>OPTIONS\<close>. The \<open>path\<close> converter matches a non-empty rest that does not start with
  a slash (its regular expression \<open>[^/].*?\<close>; a path with a line feed is outside
  the model).
\<close>

datatype url_rule = ApiProcess | Static string

definition route_rule :: string where
  "route_rule = ''/api/process''"

definition route_methods :: "http_method list" where
  "route_methods = [OPTIONS, POST]"

definition static_methods :: "http_method list" where
  "static_methods = [GET, HEAD, OPTIONS]"

fun rule_methods :: "url_rule \<Rightarrow> http_method list" where
  "rule_methods ApiProcess = route_methods"
| "rule_methods (Static _) = static_methods"

definition match_rule :: "string \<Rightarrow> url_rule option" where
  "match_rule p =
     (if p = route_rule then Some ApiProcess
      else if take 8 p = ''/static/'' \<and> drop 8 p \<noteq> [] \<and> hd (drop 8 p) \<noteq> CHR ''/''
      then Some (Static (drop 8 p)) else None)"

text \<open>
  werkzeug's \<open>merge_slashes\<close>: \<open>re.sub("/{2,}?", "/", path)\<close>, which replaces each
  pair of slashes, from the left, by one.
\<close>

fun merge_slashes :: "string \<Rightarrow> string" where
  "merge_slashes (a # b # cs) =
     (if a = CHR ''/'' \<and> b = CHR ''/'' then CHR ''/'' # merge_slashes cs else a # merge_slashes (b # cs))"
| "merge_slashes cs = cs"

text \<open>
  \<open>MapAdapter.match\<close> and \<open>Flask.dispatch_request\<close>. A path no rule matches is tried
  again with its slashes merged: a match there with an allowed method is the 308
  redirect to the merged path, with another method 405, and no match 404. A matched
  rule with a method it does not list is 405; \<open>OPTIONS\<close> is answered by Flask; the
  static view finds no file, since the repository has no static folder, and answers
  404; the view \<open>process\<close> first reads \<open>request.files\<close> (line 88), which raises
  \<open>RequestEntityTooLarge\<close> (413) for a body over the form-parser limits.
\<close>

definition dispatch_request :: "('b \<Rightarrow> row list result) \<Rightarrow> 'b http_request \<Rightarrow> reply" where
  "dispatch_request read_rows r =
     (case match_rule (path r) of
        Some rl \<Rightarrow>
          if request_method r \<notin> set (rule_methods rl) then MethodNotAllowed (rule_methods rl)
          else if request_method r = OPTIONS then DefaultOptions (rule_methods rl)
          else (case rl of
                  ApiProcess \<Rightarrow>
                    if form_too_large r then View (Abort 413 ''Request Entity Too Large'')
                    else View (process read_rows (form r))
                | Static _ \<Rightarrow> NotFound)
      | None \<Rightarrow>
          (case match_rule (merge_slashes (path r)) of
             Some rl \<Rightarrow>
               if request_method r \<in> set (rule_methods rl) then Redirect (merge_slashes (path r))
               else MethodNotAllowed (rule_methods rl)
           | None \<Rightarrow> NotFound))"

fun status_of :: "reply \<Rightarrow> nat" where
  "status_of (View (Abort n _)) = n"
| "status_of (View InternalServerError) = 500"
| "status_of (View (SendFile _)) = 200"
| "status_of NotFound = 404"
| "status_of (MethodNotAllowed _) = 405"
| "status_of (DefaultOptions _) = 200"
| "status_of (Redirect _) = 308"

text \<open>
  Line 9, \<open>CORS(app)\<close>: flask-cors's \<open>get_cors_origins\<close> and \<open>get_cors_headers\<close> for
  the default options (origins \<open>*\<close>, read as the regular expression \<open>.*\<close>).
\<close>

definition cors_headers :: "string option \<Rightarrow> (string \<times> string) list" where
  "cors_headers org =
     (case org of
        Some x \<Rightarrow> if x = [] then [(''Access-Control-Allow-Origin'', ''*'')]
                  else [(''Access-Control-Allow-Origin'', x), (''Vary'', ''Origin'')]
      | None \<Rightarrow> [(''Access-Control-Allow-Origin'', ''*'')])"

text \<open>\<open>Flask.full_dispatch_request\<close>, with the \<open>after_request\<close> hook of flask-cors.\<close>

definition full_dispatch_request :: "('b \<Rightarrow> row list result) \<Rightarrow> 'b http_request \<Rightarrow> http_response" where
  "full_dispatch_request read_rows r =
     (let rp = dispatch_request read_rows r
      in \<lparr>status = status_of rp, cors = cors_headers (origin r), reply = rp\<rparr>)"

text \<open>The application on uploads of bytes, read as \<open>process_csv\<close> reads them.\<close>

definition wsgi_app :: "8 word list http_request \<Rightarrow> http_response" where
  "wsgi_app = full_dispatch_request upload_rows"

text \<open>Lines 106--107: the development server, started only when the module is run.\<close>

record server =
  host :: string
  port :: nat

datatype run_as = Main | Imported

definition app_run :: "run_as \<Rightarrow> server option" where
  "app_run nm = (if nm = Main then Some \<lparr>host = ''0.0.0.0'', port = 5000\<rparr> else None)"

subsection \<open>Lemmas\<close>

lemma process_status:
  "status_of (View (process read_rows req)) \<in> {200, 400, 500}"
  by (simp add: process_def split: option.split sum.split)

lemma full_dispatch_request_fields [simp]:
  "status (full_dispatch_request read_rows r) = status_of (dispatch_request read_rows r)"
  "cors (full_dispatch_request read_rows r) = cors_headers (origin r)"
  "reply (full_dispatch_request read_rows r) = dispatch_request read_rows r"
  by (simp_all add: full_dispatch_request_def Let_def)

text \<open>
  C31: every response has one of the statuses 200, 308, 400, 404, 405, 413 and 500:
  the view aborts only with 400, reading the form only with 413, and every other
  answer is routing's (the redirect of a path with doubled slashes, no rule, a method
  the rule does not list, the preflight), the static view's 404, or the 500 of an
  exception.
\<close>

theorem full_dispatch_request_status:
  "status (full_dispatch_request read_rows r) \<in> {200, 308, 400, 404, 405, 413, 500}"
  using process_status [of read_rows "form r"]
  by (auto simp: dispatch_request_def split: option.split url_rule.split)

text \<open>
  C22: an upload in a single-byte encoding, posted from a browser page of another
  origin in a form within werkzeug's limits, is answered 500, and the 500 still carries \<open>Access-Control-Allow-Origin\<close>
  for that origin, so the page can read the failure: routing, the view, the decoding
  and flask-cors compose.
\<close>

theorem wsgi_app_non_utf8:
  assumes "path r = ''/api/process''" "request_method r = POST" "origin r = Some org" "org \<noteq> []"
    and "\<not> form_too_large r" "map_of (files (form r)) ''file'' = Some f" "py_endswith (py_lower (filename f)) ''.csv''"
    and "stream f = utf8_encode cps @ b # c # bs" "\<forall>x\<in>set cps. is_scalar x"
    and "0x80 \<le> unat b" "unat c < 0x80"
  shows "status (wsgi_app r) = 500 \<and>
         map_of (cors (wsgi_app r)) ''Access-Control-Allow-Origin'' = Some org"
  using upload_rows_high_then_ascii [OF assms(8-11)] assms(1-7)
  by (simp add: wsgi_app_def full_dispatch_request_def Let_def dispatch_request_def match_rule_def
      route_rule_def route_methods_def process_def valid_filename_iff cors_headers_def)

theorem wsgi_app_non_utf8_witness:
  "status (wsgi_app \<lparr>request_method = POST, path = ''/api/process'', origin = Some ''http://localhost:3000'',
      form_too_large = False, form = \<lparr>files = [(''file'', \<lparr>filename = ''log.csv'', stream = [74, 111, 115, 0xE9, 0x73]\<rparr>)]\<rparr>\<rparr>) = 500 \<and>
   map_of (cors (wsgi_app \<lparr>request_method = POST, path = ''/api/process'', origin = Some ''http://localhost:3000'',
      form_too_large = False, form = \<lparr>files = [(''file'', \<lparr>filename = ''log.csv'', stream = [74, 111, 115, 0xE9, 0x73]\<rparr>)]\<rparr>\<rparr>))
     ''Access-Control-Allow-Origin'' = Some ''http://localhost:3000''"
proof -
  have "py_endswith (py_lower ''log.csv'') ''.csv''"
    by (simp add: model_eval)
  moreover have "[74, 111, 115, 0xE9, 0x73] = utf8_encode [74, 111, 115] @ 0xE9 # 0x73 # ([] :: 8 word list)"
    by (simp add: utf8_encode_def utf8_encode_char_def)
  ultimately show ?thesis
    using wsgi_app_non_utf8 [of "\<lparr>request_method = POST, path = ''/api/process'', origin = Some ''http://localhost:3000'',
        form_too_large = False, form = \<lparr>files = [(''file'', \<lparr>filename = ''log.csv'', stream = [74, 111, 115, 0xE9, 0x73]\<rparr>)]\<rparr>\<rparr>"
        "''http://localhost:3000''" "\<lparr>filename = ''log.csv'', stream = [74, 111, 115, 0xE9, 0x73]\<rparr>"
        "[74, 111, 115]" "0xE9" "0x73" "[]"]
    by (simp add: is_scalar_def)
qed

text \<open>
  C32: a browser's preflight, \<open>OPTIONS /api/process\<close>, is answered 200 by Flask with
  the rule's methods, and the view, which would read the upload, is not called.
\<close>

theorem preflight_ok:
  assumes "path r = ''/api/process''" "request_method r = OPTIONS"
  shows "status (full_dispatch_request read_rows r) = 200 \<and>
         reply (full_dispatch_request read_rows r) = DefaultOptions [OPTIONS, POST]"
  using assms by (simp add: dispatch_request_def match_rule_def route_rule_def route_methods_def)

theorem preflight_ok_witness:
  "status (wsgi_app \<lparr>request_method = OPTIONS, path = ''/api/process'', origin = Some ''http://localhost:3000'',
      form_too_large = False, form = \<lparr>files = []\<rparr>\<rparr>) = 200 \<and>
   reply (wsgi_app \<lparr>request_method = OPTIONS, path = ''/api/process'', origin = Some ''http://localhost:3000'',
      form_too_large = False, form = \<lparr>files = []\<rparr>\<rparr>) = DefaultOptions [OPTIONS, POST]"
  using preflight_ok [of "\<lparr>request_method = OPTIONS, path = ''/api/process'', origin = Some ''http://localhost:3000'',
      form_too_large = False, form = \<lparr>files = []\<rparr>\<rparr>" upload_rows]
  by (simp add: wsgi_app_def)

end
