(* ===== verification/Spec2Isabelle.thy ===== *)
theory Spec2Isabelle
  imports Selection Output Endpoint Strptime App Excel
begin

text \<open>
  \<^bold>\<open>Verification development of \<open>src/main.py\<close>: the driver paperwork summary.\<close>

  \<^bold>\<open>The program.\<close> \<open>src/main.py\<close> is a Flask service with one route,
  \<open>POST /api/process\<close> (function \<open>process\<close>). It takes an uploaded CSV export of
  driver trip logs, reduces it with \<open>process_csv\<close> to one row per driver (the most
  recent trip and paperwork date, and the last truck seen) and sends the table back as
  the workbook \<open>Driver_Paperwork_Summary.xlsx\<close>. \<open>process_csv\<close> scans the rows once.
  A row whose first cell starts with \<open>Driver:\<close> opens a driver's block. A row of at
  least 14 cells under a driver is a data row: its truck is noted at once, and if it is
  complete (trip, driver name and date present) it replaces the stored record when the
  recency test passes. The recency test calls \<open>compare_dates\<close> (\<open>datetime.strptime\<close>
  with \<open>%m/%d/%Y\<close>) and \<open>extract_trip_number\<close> (the digits of the trip identifier,
  through \<open>int()\<close>). Around the handler, \<open>app = Flask(__name__)\<close> and \<open>CORS(app)\<close>
  (lines 8--9) route requests to it and add the cross-origin headers to every
  response, and \<open>app.run\<close> (lines 106--107) starts the development server.

  \<^bold>\<open>Theories, in import order.\<close>
  \<^item> \<open>Prelude\<close>: Python exceptions as values (\<open>py_error\<close>, \<open>'a result = py_error + 'a\<close>,
    \<open>bindE\<close>), list subscription \<open>py_getitem\<close> raising \<open>IndexError\<close>,
    \<open>remdups_first\<close> (first-occurrence order), and the collections \<open>py_simps\<close> and
    \<open>model_eval\<close> (the definitions a witness unfolds to run the model with \<open>simp\<close>).
  \<^item> \<open>PyStr\<close>: the \<open>str\<close> methods the code calls (\<open>strip\<close>, \<open>split\<close>,
    \<open>startswith\<close>, \<open>endswith\<close>, \<open>lower\<close>, \<open>isdigit\<close>) on code points U+0000..U+00FF,
    and the decimal value of a digit string.
  \<^item> \<open>PyDict\<close>: an insertion-ordered \<open>dict\<close> as an association list with distinct
    keys; \<open>d[k] = v\<close>, \<open>setdefault\<close> and \<open>d[k]\<close> with \<open>KeyError\<close>.
  \<^item> \<open>Dates\<close>: \<open>compare_dates\<close> (lines 11--17). \<open>strptime_mdy\<close> follows CPython's
    \<open>_strptime\<close>: the regular expression of \<open>%m/%d/%Y\<close> as alternatives of character
    classes matched with backtracking (\<open>match_re\<close>), its first match, the
    unconverted-data check and the range checks of \<open>datetime\<close> (\<open>datetime_date\<close>).
    The dates are the \<open>linorder\<close> type \<open>pydate\<close>, ordered by (year, month, day).
  \<^item> \<open>Strptime\<close>: the strings the matcher accepts, described without the regular
    expression (\<open>mdy_spellings\<close>), and the equivalence of the two.
  \<^item> \<open>TripNumber\<close>: \<open>extract_trip_number\<close> (lines 19--23) with the three
    \<open>ValueError\<close> cases of \<open>int()\<close> on the kept digits (none, a non-decimal digit,
    more than 4300 digits).
  \<^item> \<open>Reducer\<close>: \<open>process_csv\<close> (lines 25--84) after the CSV rows are produced. The
    scan state (\<open>driver_data\<close>, \<open>current_driver\<close>, \<open>latest_seen_truck\<close>) is the record
    \<open>scan\<close>. One loop iteration is \<open>process_row\<close>, built from \<open>header_row\<close> (lines
    36--44), \<open>data_row\<close> (46--72), \<open>note_truck\<close> (52--54), \<open>update_best\<close> (60--72)
    and \<open>should_replace\<close> (61--66). The loop is \<open>process_rows\<close> and the table is
    \<open>pd_DataFrame\<close> of the \<open>summary_dict\<close>s. The invariant \<open>scan_inv\<close> is kept by every
    row, and so the reducer never raises.
  \<^item> \<open>Summary_Spec\<close>: the reducer of the specification as an abstract state machine
    (\<open>summary_state\<close>, \<open>spec_step\<close>, \<open>spec_run\<close>) with the single-driver step
    \<open>driver_step\<close>. The abstraction \<open>abs_scan\<close> is a forward simulation
    (\<open>process_row_refines\<close>, \<open>process_rows_simulation\<close>). The result is computed in
    closed form: drivers in order of first header (\<open>remdups_first\<close> of
    \<open>header_names\<close>), each with \<open>driver_summary\<close>, the fold of \<open>driver_step\<close> over
    the rows \<open>rows_of\<close> the scan attributes to the driver.
  \<^item> \<open>Output\<close>: the columns and rows of the returned table. With no header row it is
    the empty table. The name a header row gives is the text between \<open>Driver:\<close> and
    the first comma, stripped; a header with an empty name gives an all-\<open>N/A\<close> row.
  \<^item> \<open>Selection\<close>: what \<open>driver_step\<close> selects. The truck is the last non-empty
    truck cell. The trip and date are chosen among the complete rows by the recency
    test alone. With valid zero-padded dates, that test is the lexicographic order on
    (date, ordinal), the choice is the first maximal row, and it does not depend on the
    arrival order. There are also the precedence, malformed-date and respelled-date
    properties of the test, and the Truck column of \<open>process_csv\<close>'s table.
  \<^item> \<open>Excel\<close>: \<open>df.to_excel(writer, index=False, sheet_name="Summary")\<close> of lines
    95--98. pandas' shape check (\<open>max_rows\<close>, \<open>max_cols\<close>), \<open>get_formatted_cells\<close>
    (pandas' \<open>ExcelFormatter\<close>: the header cells, then the body cells column by
    column, \<open>na_rep\<close> for a missing value), and \<open>write_cells\<close>, openpyxl's assignment
    of each cell in order (\<open>bind_value\<close>: \<open>check_string\<close> cuts a string to 32767
    characters and raises \<open>IllegalCharacterError\<close> on a control character; \<open>xl_type\<close>
    makes a string starting with \<open>=\<close> a formula and an error code an error value).
    The sheet is a partial map from positions to typed values. Its lemmas: the sheet
    reads back as the table, typed, when no cell holds a control character, and a
    control character makes the write raise.
  \<^item> \<open>Endpoint\<close>: the handler \<open>process\<close> (lines 86--104). The uploaded files are an
    association list (werkzeug's \<open>MultiDict\<close> lookup). There are the two 400 aborts,
    the 500 of an uncaught exception (reading, reducing or writing), and the
    \<open>send_file\<close> response with the sheet \<open>to_excel\<close> wrote. Reading the upload is the
    parameter \<open>read_rows\<close>, over any type of contents. Its lemmas pin each branch, the
    response to readable rows, and the 500 of a driver name with a control character.
  \<^item> \<open>Utf8\<close>: \<open>bytes.decode("utf-8")\<close> of line 26 on \<open>8 word\<close> bytes, strict, with
    the well-formed byte sequences of the Unicode standard (\<open>utf8_char\<close> per
    character, the loop \<open>utf8_decode\<close>, \<open>UnicodeDecodeError\<close> on any other
    sequence). Its lemmas: the decoded code points are scalar values, decoding inverts
    the encoder \<open>utf8_encode\<close>, Latin-1 text fails, and a byte-order mark is kept.
  \<^item> \<open>Csv\<close>: \<open>csv.reader(io.StringIO(text))\<close> of line 26. \<open>lines_of\<close> splits the
    text after each line feed as \<open>StringIO\<close> does; \<open>parse_process_char\<close> is the
    state machine of CPython's \<open>_csv.c\<close> for the \<open>excel\<close> dialect (states
    \<open>pstate\<close>, parser record \<open>parser\<close>, \<open>field_limit\<close>); \<open>read_record\<close> is
    \<open>Reader_iternext\<close> and \<open>csv_rows\<close> the iteration. Its lemmas: rows of plain
    fields written as lines are read back, a stray carriage return and a field over
    the size limit raise \<open>csv.Error\<close> (\<open>CsvError\<close>), the loop ends, and a line
    without a double quote always brings the parser back to \<open>START_RECORD\<close>, so
    such a text gives one row per line.
  \<^item> \<open>Upload\<close>: \<open>read_upload\<close> (decoding, then the reader) and \<open>upload_rows\<close>,
    which plugs it into \<open>process\<close> as \<open>read_rows\<close>. Its lemmas compose the decoder,
    the reader, the reducer and the handler end to end, and show what a byte-order
    mark and a single-byte encoding do to an upload.
  \<^item> \<open>App\<close>: the Flask application. \<open>dispatch_request\<close> is werkzeug's matching
    against the rule of line 86 and the static rule (\<open>match_rule\<close>, the retry with
    \<open>merge_slashes\<close> and its 308 redirect, 404, 405), Flask's automatic \<open>OPTIONS\<close>
    answer, the 413 of a form over werkzeug's limits, and the view call; \<open>cors_headers\<close> is what flask-cors adds with its defaults;
    \<open>full_dispatch_request\<close> puts them together and \<open>wsgi_app\<close> instantiates it
    with \<open>upload_rows\<close>; \<open>app_run\<close> is the server configuration. Its lemmas: the
    possible statuses, the preflight, and the 500 of an undecodable upload carrying
    the cross-origin header.
  \<^item> this theory: the header.

  \<^bold>\<open>Modelling choices.\<close> Python strings are Isabelle strings whose characters stand
  for U+0000..U+00FF; the character classes are Python's restricted to that range.
  Python ints are \<open>nat\<close>: the ordinals and date fields are never negative and no
  arithmetic of the code wraps. Every exception the code can raise is a value: a
  subscript out of range (\<open>IndexError\<close>), a missing key (\<open>KeyError\<close>), a failed
  parse (\<open>ValueError\<close>). The bare \<open>except\<close> of \<open>compare_dates\<close> and
  \<open>extract_trip_number\<close> is a case on the result. All loops run over finite lists
  (the rows, the characters, the regular expression's alternatives, the bytes, the
  lines), so every function is total and no fuel or bound is needed: most recurse
  structurally, and the two loops that consume a variable amount of input per step,
  \<open>utf8_decode\<close> (one to four bytes) and \<open>csv_rows\<close> (one record of one or more
  lines), are \<open>function\<close>s whose termination proofs use the length of the input as
  measure. \<open>int_max_str_digits = 4300\<close> and \<open>field_size_limit() = 131072\<close> are
  CPython's defaults. The decoder and the reader work on code points (\<open>nat\<close>);
  \<open>model_text\<close> turns them into the strings of the reducer, which is faithful for
  code points below U+0100, the range of the string model. The \<open>csv\<close> module is
  the one of Python 3.11 and later (a NUL character is an ordinary character), and
  flask-cors runs with the defaults of \<open>CORS(app)\<close>.

  \<^bold>\<open>Not modelled.\<close> Of the workbook (\<open>pandas.ExcelWriter\<close> and openpyxl,
  lines 95--98) the typed cells of the sheet and the errors of the write are modelled,
  not the bytes of the \<open>.xlsx\<close> file (the zip archive, its XML parts and the cell
  styles): that format is library code with no logic of the program. Of werkzeug, the
  multipart parsing is an input of the model: a request says whether its body
  exceeds the form-parser limits. The reducer's strings stop at U+00FF, so
  an upload with characters above it is modelled up to \<open>read_upload\<close> (code points)
  but not through \<open>process_csv\<close>. Of flask-cors, the further headers of a preflight
  (\<open>Access-Control-Allow-Methods\<close>, \<open>-Headers\<close>) are not modelled, nor Flask's
  \<open>Allow\<close> header text; the HTTP and WSGI layers below the request object are
  the framework's.
\<close>

end
